(* ===== verification/Broker_Prelude.thy ===== *)
theory Broker_Prelude
  imports Main "HOL-Library.Sublist"
begin

text \<open>
  Shared vocabulary of the development: the exceptions of the Python sources as values of one
  datatype, the two result types (a pure computation that may raise, and a stateful one), the
  combinators that sequence them, and the generic lemmas the components share.

  A Python function that may raise and touches no state is a HOL function into
  \<open>exn + 'a\<close>: \<open>Inl e\<close> is the raised exception, \<open>Inr x\<close> the returned value. A function
  that also changes the broker's state (the cached client, the log of calls sent to OpenBao, the
  audit log) is an operation \<open>('s, 'a) op\<close>: it takes the state, and returns the outcome
  together with the state after it, because a Python exception does not undo the effects that
  happened before it was raised.
\<close>

section \<open>Exceptions\<close>

text \<open>The class hierarchy below \<open>VaultError\<close> in \<^verbatim>\<open>broker/vault.py\<close>.\<close>

datatype vault_kind =
    VaultError
  | VaultNotFound
  | VaultConflict
  | VaultUnavailable
  | VaultMutationUnknown
  | VaultMisconfigured

text \<open>
  The classes of \<^verbatim>\<open>hvac.exceptions\<close> that \<open>_translate\<close> distinguishes, and the rest.
\<close>

datatype hvac_kind =
    HvForbidden
  | HvUnauthorized
  | HvInvalidPath
  | HvInvalidRequest
  | HvVaultDown
  | HvVaultNotInitialized
  | HvOther

text \<open>
  Everything the sources raise or catch. \<open>TypeError\<close>, \<open>KeyError\<close> and \<open>AttributeError\<close>
  are the interpreter's own; \<open>HvacExn\<close> and \<open>RequestException\<close> are raised by the two client
  libraries, and \<open>OtherException\<close> is any other exception a library call may raise, by class name.
  \<open>Deadlock\<close> is no Python exception: it is the outcome of a call that never returns because the
  thread waits for a lock it holds itself, and no handler catches it.
\<close>

datatype exn =
    ValueError string
  | TypeError
  | KeyError
  | AttributeError
  | ConfigError string
  | IdentityError string
  | VaultExn vault_kind string
  | HTTPException nat string "(string \<times> string) list"
  | HvacExn hvac_kind string
  | RequestException
  | OtherException string
  | Deadlock

type_synonym 'a res = "exn + 'a"

type_synonym ('s, 'a) op = "'s \<Rightarrow> 'a res \<times> 's"

section \<open>Pure results\<close>

named_theorems res_simps \<open>rewriting of sequenced pure results\<close>

definition res_bind :: "'a res \<Rightarrow> ('a \<Rightarrow> 'b res) \<Rightarrow> 'b res" where
  "res_bind r f = (case r of Inl e \<Rightarrow> Inl e | Inr x \<Rightarrow> f x)"

text \<open>\<open>if not cond: raise e\<close>\<close>

definition res_guard :: "bool \<Rightarrow> exn \<Rightarrow> unit res" where
  "res_guard c e = (if c then Inr () else Inl e)"

text \<open>A loop that runs a check on each element and stops at the first exception.\<close>

primrec res_each :: "('a \<Rightarrow> unit res) \<Rightarrow> 'a list \<Rightarrow> unit res" where
  "res_each f [] = Inr ()"
| "res_each f (x # xs) = res_bind (f x) (\<lambda>_. res_each f xs)"

text \<open>A comprehension whose element expression may raise.\<close>

primrec res_map :: "('a \<Rightarrow> 'b res) \<Rightarrow> 'a list \<Rightarrow> 'b list res" where
  "res_map f [] = Inr []"
| "res_map f (x # xs) = res_bind (f x) (\<lambda>y. res_bind (res_map f xs) (\<lambda>ys. Inr (y # ys)))"

definition is_ok :: "'a res \<Rightarrow> bool" where
  "is_ok r = (case r of Inl e \<Rightarrow> False | Inr x \<Rightarrow> True)"

lemma res_bind_simps [simp, res_simps]:
  "res_bind (Inl e) f = Inl e"
  "res_bind (Inr x) f = f x"
  by (simp_all add: res_bind_def)

lemma res_bind_Inr [res_simps]:
  "res_bind r f = Inr y \<longleftrightarrow> (\<exists>x. r = Inr x \<and> f x = Inr y)"
  by (cases r) (simp_all add: res_bind_def)

lemma res_bind_Inl [res_simps]:
  "res_bind r f = Inl e \<longleftrightarrow> r = Inl e \<or> (\<exists>x. r = Inr x \<and> f x = Inl e)"
  by (cases r) (simp_all add: res_bind_def)

lemma res_guard_Inr [simp, res_simps]: "res_guard c e = Inr u \<longleftrightarrow> c"
  by (simp add: res_guard_def)

lemma res_guard_Inl [simp, res_simps]: "res_guard c e = Inl e' \<longleftrightarrow> \<not> c \<and> e' = e"
  by (auto simp add: res_guard_def)

lemma is_ok_simps [simp]: "is_ok (Inr x)" "\<not> is_ok (Inl e)"
  by (simp_all add: is_ok_def)

lemma is_ok_iff: "is_ok r \<longleftrightarrow> (\<exists>x. r = Inr x)"
  by (cases r) simp_all

lemma res_each_Inr [res_simps]: "res_each f xs = Inr u \<longleftrightarrow> (\<forall>x \<in> set xs. f x = Inr ())"
  by (induction xs) (auto simp: res_bind_Inr)

lemma res_each_Inl: "res_each f xs = Inl e \<Longrightarrow> \<exists>x \<in> set xs. f x = Inl e"
  by (induction xs) (auto simp: res_bind_Inl)

lemma res_map_Inr: "res_map f xs = Inr ys \<longleftrightarrow> list_all2 (\<lambda>x y. f x = Inr y) xs ys"
  by (induction xs arbitrary: ys) (auto simp: res_bind_Inr list_all2_Cons1)

lemma res_map_Inl: "res_map f xs = Inl e \<Longrightarrow> \<exists>x \<in> set xs. f x = Inl e"
  by (induction xs) (auto simp: res_bind_Inl)

section \<open>Operations on a state\<close>

named_theorems op_simps \<open>running a sequenced operation\<close>

definition ret :: "'a \<Rightarrow> ('s, 'a) op" where
  "ret x = (\<lambda>s. (Inr x, s))"

definition throw :: "exn \<Rightarrow> ('s, 'a) op" where
  "throw e = (\<lambda>s. (Inl e, s))"

definition lift_res :: "'a res \<Rightarrow> ('s, 'a) op" where
  "lift_res r = (\<lambda>s. (r, s))"

definition bind_op :: "('s, 'a) op \<Rightarrow> ('a \<Rightarrow> ('s, 'b) op) \<Rightarrow> ('s, 'b) op" where
  "bind_op m f = (\<lambda>s. case m s of (Inl e, s') \<Rightarrow> (Inl e, s') | (Inr x, s') \<Rightarrow> f x s')"

text \<open>
  \<open>try: m; except: h\<close>; the handler decides which exceptions it takes, and re-raises the others.
  A call that never returns reaches no handler.
\<close>

definition catch_op :: "('s, 'a) op \<Rightarrow> (exn \<Rightarrow> ('s, 'a) op) \<Rightarrow> ('s, 'a) op" where
  "catch_op m h = (\<lambda>s. case m s of
       (Inl e, s') \<Rightarrow> if e = Deadlock then (Inl Deadlock, s') else h e s'
     | (Inr x, s') \<Rightarrow> (Inr x, s'))"

text \<open>\<open>try: m; finally: k\<close> for a \<open>finally\<close> block that does not itself raise.\<close>

definition finally_op :: "('s, 'a) op \<Rightarrow> ('s \<Rightarrow> 's) \<Rightarrow> ('s, 'a) op" where
  "finally_op m k = (\<lambda>s. case m s of
       (r, s') \<Rightarrow> if r = Inl Deadlock then (Inl Deadlock, s') else (r, k s'))"

lemma op_run_simps [simp, op_simps]:
  "ret x s = (Inr x, s)"
  "throw e s = (Inl e, s)"
  "lift_res r s = (r, s)"
  by (simp_all add: ret_def throw_def lift_res_def)

lemma bind_op_run [op_simps]:
  "bind_op m f s = (case m s of (Inl e, s') \<Rightarrow> (Inl e, s') | (Inr x, s') \<Rightarrow> f x s')"
  by (simp add: bind_op_def)

lemma catch_op_run [op_simps]:
  "catch_op m h s = (case m s of
       (Inl e, s') \<Rightarrow> if e = Deadlock then (Inl Deadlock, s') else h e s'
     | (Inr x, s') \<Rightarrow> (Inr x, s'))"
  by (simp add: catch_op_def)

lemma finally_op_run [op_simps]:
  "finally_op m k s = (case m s of
       (r, s') \<Rightarrow> if r = Inl Deadlock then (Inl Deadlock, s') else (r, k s'))"
  by (simp add: finally_op_def)

subsection \<open>Relations every run of an operation respects\<close>

text \<open>
  \<open>op_rel R m\<close> says that the state after \<open>m\<close> is related to the state before it by
  \<open>R\<close>, whichever way \<open>m\<close> ends. For a reflexive and transitive relation it follows from the
  parts of a sequence, so that "the log only grows" is proved once per primitive.
\<close>

definition op_rel :: "('s \<Rightarrow> 's \<Rightarrow> bool) \<Rightarrow> ('s, 'a) op \<Rightarrow> bool" where
  "op_rel R m \<longleftrightarrow> (\<forall>s. R s (snd (m s)))"

lemma op_relI: "(\<And>s r s'. m s = (r, s') \<Longrightarrow> R s s') \<Longrightarrow> op_rel R m"
  by (metis op_rel_def prod.collapse)

lemma op_relD: "op_rel R m \<Longrightarrow> m s = (r, s') \<Longrightarrow> R s s'"
  by (metis op_rel_def snd_conv)

locale state_preorder =
  fixes R :: "'s \<Rightarrow> 's \<Rightarrow> bool"
  assumes R_refl: "R s s"
    and R_trans: "R s t \<Longrightarrow> R t u \<Longrightarrow> R s u"
begin

lemma ret_rel: "op_rel R (ret x)"
  by (simp add: op_rel_def R_refl)

lemma throw_rel: "op_rel R (throw e)"
  by (simp add: op_rel_def R_refl)

lemma lift_rel: "op_rel R (lift_res r)"
  by (simp add: op_rel_def R_refl)

lemma bind_rel:
  assumes "op_rel R m" and "\<And>x. op_rel R (f x)"
  shows "op_rel R (bind_op m f)"
proof (rule op_relI)
  fix s r s' assume run: "bind_op m f s = (r, s')"
  obtain r1 s1 where m: "m s = (r1, s1)" by (cases "m s")
  then have first: "R s s1" using assms(1) by (blast dest: op_relD)
  show "R s s'"
  proof (cases r1)
    case (Inl e)
    with m run first show ?thesis by (simp add: bind_op_run)
  next
    case (Inr x)
    with m run have "f x s1 = (r, s')" by (simp add: bind_op_run)
    then have "R s1 s'" using assms(2) by (blast dest: op_relD)
    with first show ?thesis by (rule R_trans)
  qed
qed

lemma catch_rel:
  assumes "op_rel R m" and "\<And>e. op_rel R (h e)"
  shows "op_rel R (catch_op m h)"
proof (rule op_relI)
  fix s r s' assume run: "catch_op m h s = (r, s')"
  obtain r1 s1 where m: "m s = (r1, s1)" by (cases "m s")
  then have first: "R s s1" using assms(1) by (blast dest: op_relD)
  show "R s s'"
  proof (cases r1)
    case (Inl e)
    show ?thesis
    proof (cases "e = Deadlock")
      case True
      with Inl m run first show ?thesis by (simp add: catch_op_run)
    next
      case False
      with Inl m run have "h e s1 = (r, s')" by (simp add: catch_op_run)
      then have "R s1 s'" using assms(2) by (blast dest: op_relD)
      with first show ?thesis by (rule R_trans)
    qed
  next
    case (Inr x)
    with m run first show ?thesis by (simp add: catch_op_run)
  qed
qed

lemma if_rel: "op_rel R m \<Longrightarrow> op_rel R n \<Longrightarrow> op_rel R (if c then m else n)"
  by simp

lemma finally_rel:
  assumes "op_rel R m" and "\<And>s. R s (k s)"
  shows "op_rel R (finally_op m k)"
proof (rule op_relI)
  fix s r s' assume run: "finally_op m k s = (r, s')"
  obtain r1 s1 where m: "m s = (r1, s1)" by (cases "m s")
  then have "R s s1" using assms(1) by (blast dest: op_relD)
  with m run assms(2) [of s1] R_trans show "R s s'"
    by (auto simp: finally_op_run split: if_splits)
qed

lemmas op_rules = ret_rel throw_rel lift_rel bind_rel catch_rel if_rel finally_rel

end

subsection \<open>Triples for normal and exceptional outcomes\<close>

text \<open>
  \<open>triple P m Q E\<close>: started in a state with \<open>P\<close>, the operation \<open>m\<close> ends either normally
  with a value and a state related by \<open>Q\<close>, or with an exception and a state related by \<open>E\<close>.
\<close>

definition triple ::
  "('s \<Rightarrow> bool) \<Rightarrow> ('s, 'a) op \<Rightarrow> ('a \<Rightarrow> 's \<Rightarrow> bool) \<Rightarrow> (exn \<Rightarrow> 's \<Rightarrow> bool) \<Rightarrow> bool" where
  "triple P m Q E \<longleftrightarrow> (\<forall>s. P s \<longrightarrow> (case m s of (Inl e, s') \<Rightarrow> E e s' | (Inr x, s') \<Rightarrow> Q x s'))"

named_theorems triple_rules \<open>the rules of the combinators\<close>

lemma tripleI:
  assumes "\<And>s x s'. P s \<Longrightarrow> m s = (Inr x, s') \<Longrightarrow> Q x s'"
    and "\<And>s e s'. P s \<Longrightarrow> m s = (Inl e, s') \<Longrightarrow> E e s'"
  shows "triple P m Q E"
  using assms by (auto simp: triple_def split: prod.splits sum.splits)

lemma tripleD_ok: "triple P m Q E \<Longrightarrow> P s \<Longrightarrow> m s = (Inr x, s') \<Longrightarrow> Q x s'"
  by (auto simp: triple_def split: prod.splits sum.splits)

lemma tripleD_exn: "triple P m Q E \<Longrightarrow> P s \<Longrightarrow> m s = (Inl e, s') \<Longrightarrow> E e s'"
  by (auto simp: triple_def split: prod.splits sum.splits)

lemma triple_conseq:
  "triple P' m Q' E' \<Longrightarrow> (\<And>s. P s \<Longrightarrow> P' s) \<Longrightarrow> (\<And>x s. Q' x s \<Longrightarrow> Q x s) \<Longrightarrow>
   (\<And>e s. E' e s \<Longrightarrow> E e s) \<Longrightarrow> triple P m Q E"
  by (fastforce simp: triple_def split: prod.splits sum.splits)

lemma triple_ret [triple_rules]: "(\<And>s. P s \<Longrightarrow> Q x s) \<Longrightarrow> triple P (ret x) Q E"
  by (simp add: triple_def)

lemma triple_throw [triple_rules]: "(\<And>s. P s \<Longrightarrow> E e s) \<Longrightarrow> triple P (throw e) Q E"
  by (simp add: triple_def)

lemma triple_lift [triple_rules]:
  "(\<And>x s. r = Inr x \<Longrightarrow> P s \<Longrightarrow> Q x s) \<Longrightarrow> (\<And>e s. r = Inl e \<Longrightarrow> P s \<Longrightarrow> E e s) \<Longrightarrow>
   triple P (lift_res r) Q E"
  by (auto simp: triple_def split: sum.splits)

lemma triple_bind [triple_rules]:
  assumes "triple P m R E" and "\<And>x. triple (R x) (f x) Q E"
  shows "triple P (bind_op m f) Q E"
  using assms unfolding triple_def bind_op_def
  by (fastforce split: prod.splits sum.splits)

lemma triple_catch [triple_rules]:
  assumes "triple P m Q E1" and "\<And>e. e \<noteq> Deadlock \<Longrightarrow> triple (E1 e) (h e) Q E"
    and "\<And>s. E1 Deadlock s \<Longrightarrow> E Deadlock s"
  shows "triple P (catch_op m h) Q E"
proof (unfold triple_def, intro allI impI)
  fix s assume P: "P s"
  obtain r s1 where m: "m s = (r, s1)" by (cases "m s")
  show "case catch_op m h s of (Inl e, s') \<Rightarrow> E e s' | (Inr x, s') \<Rightarrow> Q x s'"
  proof (cases r)
    case (Inl e)
    with m P assms(1) have "E1 e s1" by (auto dest: tripleD_exn)
    with assms(2,3) m Inl show ?thesis
      by (cases "e = Deadlock") (simp_all add: catch_op_run triple_def)
  next
    case (Inr x)
    with m P assms(1) show ?thesis by (auto simp: catch_op_run dest: tripleD_ok)
  qed
qed

lemma triple_finally [triple_rules]:
  assumes "triple P m (\<lambda>x s. Q x (k s)) (\<lambda>e s. if e = Deadlock then E e s else E e (k s))"
  shows "triple P (finally_op m k) Q E"
  using assms unfolding triple_def finally_op_def
  by (fastforce split: prod.splits sum.splits if_splits)

lemma triple_if [triple_rules]:
  "(c \<Longrightarrow> triple P m Q E) \<Longrightarrow> (\<not> c \<Longrightarrow> triple P n Q E) \<Longrightarrow> triple P (if c then m else n) Q E"
  by simp

text \<open>The exceptions an operation may end with, whatever the state it starts in.\<close>

definition raises_only :: "(exn \<Rightarrow> bool) \<Rightarrow> ('s, 'a) op \<Rightarrow> bool" where
  "raises_only X m \<longleftrightarrow> triple (\<lambda>s. True) m (\<lambda>x s. True) (\<lambda>e s. X e)"

named_theorems raises_rules \<open>which exceptions an operation may end with\<close>

lemma raises_onlyD: "raises_only X m \<Longrightarrow> m s = (Inl e, s') \<Longrightarrow> X e"
  unfolding raises_only_def by (drule tripleD_exn) auto

lemma raises_onlyI: "(\<And>s e s'. m s = (Inl e, s') \<Longrightarrow> X e) \<Longrightarrow> raises_only X m"
  unfolding raises_only_def by (rule tripleI) auto

lemma raises_basic [raises_rules]:
  "raises_only X (ret x)"
  "X e \<Longrightarrow> raises_only X (throw e)"
  "(\<And>e. r = Inl e \<Longrightarrow> X e) \<Longrightarrow> raises_only X (lift_res r)"
  by (auto intro!: raises_onlyI)

lemma raises_bind [raises_rules]:
  "raises_only X m \<Longrightarrow> (\<And>x. raises_only X (f x)) \<Longrightarrow> raises_only X (bind_op m f)"
  unfolding raises_only_def by (rule triple_bind)

lemma raises_catch [raises_rules]:
  "(\<And>e. e \<noteq> Deadlock \<Longrightarrow> raises_only X (h e)) \<Longrightarrow> X Deadlock \<Longrightarrow> raises_only X (catch_op m h)"
  by (rule raises_onlyI)
    (auto simp: catch_op_run dest: raises_onlyD split: prod.splits sum.splits if_splits)

lemma raises_catch_only:
  assumes "raises_only Y m" and "\<And>e. Y e \<Longrightarrow> e \<noteq> Deadlock \<Longrightarrow> raises_only X (h e)"
    and "Y Deadlock \<Longrightarrow> X Deadlock"
  shows "raises_only X (catch_op m h)"
proof (rule raises_onlyI)
  fix s e s' assume run: "catch_op m h s = (Inl e, s')"
  obtain r1 s1 where m: "m s = (r1, s1)" by (cases "m s")
  show "X e"
  proof (cases r1)
    case (Inl e1)
    with m have "Y e1" using assms(1) by (auto dest: raises_onlyD)
    with Inl m run assms(2,3) show ?thesis
      by (cases "e1 = Deadlock") (auto simp: catch_op_run dest: raises_onlyD)
  next
    case (Inr x)
    with m run show ?thesis by (simp add: catch_op_run)
  qed
qed

lemma raises_finally [raises_rules]: "raises_only X m \<Longrightarrow> raises_only X (finally_op m k)"
  by (rule raises_onlyI) (auto simp: finally_op_run dest: raises_onlyD split: prod.splits if_splits)

lemma raises_if [raises_rules]:
  "(c \<Longrightarrow> raises_only X m) \<Longrightarrow> (\<not> c \<Longrightarrow> raises_only X n) \<Longrightarrow>
   raises_only X (if c then m else n)"
  by simp

section \<open>Lists\<close>

lemma list_all2_map_fst:
  "list_all2 (\<lambda>x y. f x = Inr y) xs ys \<Longrightarrow> (\<And>x y. f x = Inr y \<Longrightarrow> g y = h x) \<Longrightarrow> map g ys = map h xs"
  by (induction rule: list_all2_induct) auto

lemma list_all2_in_set2:
  "list_all2 P xs ys \<Longrightarrow> y \<in> set ys \<Longrightarrow> \<exists>x \<in> set xs. P x y"
  by (induction rule: list_all2_induct) auto

lemma list_all2_in_set1:
  "list_all2 P xs ys \<Longrightarrow> x \<in> set xs \<Longrightarrow> \<exists>y \<in> set ys. P x y"
  by (induction rule: list_all2_induct) auto

end
