(* ===== verification/Py_Str.thy ===== *)
theory Py_Str
  imports Broker_Prelude
begin

text \<open>
  The string methods of Python the sources use, on HOL's \<open>string\<close>. A HOL \<open>char\<close> is one of
  256 values and stands for the code point of that number, so a \<open>string\<close> is a Python \<open>str\<close> over
  the code points up to 255 (and a byte string where the source has bytes). Where a method looks
  at classes of characters (\<open>lower\<close>, \<open>strip\<close>) the definitions follow Python's Unicode
  tables on that range.
\<close>

named_theorems str_facts \<open>characterisations of the string methods\<close>

abbreviation code :: "char \<Rightarrow> nat" where
  "code c \<equiv> of_char c"

definition startswith :: "string \<Rightarrow> string \<Rightarrow> bool" where
  "startswith s p \<longleftrightarrow> take (length p) s = p"

definition endswith :: "string \<Rightarrow> string \<Rightarrow> bool" where
  "endswith s p \<longleftrightarrow> startswith (rev s) (rev p)"

text \<open>\<open>p in s\<close>\<close>

primrec contains :: "string \<Rightarrow> string \<Rightarrow> bool" where
  "contains [] p \<longleftrightarrow> p = []"
| "contains (c # cs) p \<longleftrightarrow> startswith (c # cs) p \<or> contains cs p"

text \<open>\<open>s.split(sep)\<close> for a one-character separator: always at least one piece.\<close>

primrec split_on :: "char \<Rightarrow> string \<Rightarrow> string list" where
  "split_on sep [] = [[]]"
| "split_on sep (c # cs) =
     (if c = sep then [] # split_on sep cs
      else case split_on sep cs of [] \<Rightarrow> [[c]] | w # ws \<Rightarrow> (c # w) # ws)"

text \<open>\<open>sep.join(pieces)\<close> for a one-character separator.\<close>

fun join_on :: "char \<Rightarrow> string list \<Rightarrow> string" where
  "join_on sep [] = []"
| "join_on sep [w] = w"
| "join_on sep (w # v # ws) = w @ sep # join_on sep (v # ws)"

text \<open>\<open>sep.join(pieces)\<close> for any separator.\<close>

fun join_str :: "string \<Rightarrow> string list \<Rightarrow> string" where
  "join_str sep [] = []"
| "join_str sep [w] = w"
| "join_str sep (w # v # ws) = w @ sep @ join_str sep (v # ws)"

definition rstrip_char :: "char \<Rightarrow> string \<Rightarrow> string" where
  "rstrip_char ch s = rev (dropWhile (\<lambda>c. c = ch) (rev s))"

text \<open>\<open>str.isspace\<close> on code points up to 255.\<close>

definition is_space :: "char \<Rightarrow> bool" where
  "is_space c \<longleftrightarrow> (9 \<le> code c \<and> code c \<le> 13) \<or> (28 \<le> code c \<and> code c \<le> 32)
      \<or> code c = 133 \<or> code c = 160"

definition strip :: "string \<Rightarrow> string" where
  "strip s = rev (dropWhile is_space (rev (dropWhile is_space s)))"

text \<open>\<open>str.lower\<close> on code points up to 255: A-Z and the Latin-1 capitals.\<close>

definition lower_char :: "char \<Rightarrow> char" where
  "lower_char c =
     (if (65 \<le> code c \<and> code c \<le> 90) \<or> (192 \<le> code c \<and> code c \<le> 222 \<and> code c \<noteq> 215)
      then char_of (code c + 32) else c)"

definition lower :: "string \<Rightarrow> string" where
  "lower s = map lower_char s"

definition removeprefix :: "string \<Rightarrow> string \<Rightarrow> string" where
  "removeprefix s p = (if startswith s p then drop (length p) s else s)"

text \<open>\<open>s.find(ch)\<close>: the index of the first occurrence, \<open>None\<close> for Python's \<open>-1\<close>.\<close>

primrec find_char :: "char \<Rightarrow> string \<Rightarrow> nat option" where
  "find_char ch [] = None"
| "find_char ch (c # cs) = (if c = ch then Some 0 else map_option Suc (find_char ch cs))"

definition replace_char :: "char \<Rightarrow> char \<Rightarrow> string \<Rightarrow> string" where
  "replace_char a b s = map (\<lambda>c. if c = a then b else c) s"

text \<open>\<open>s.split()\<close>: maximal runs of non-space characters.\<close>

primrec split_ws_acc :: "string \<Rightarrow> string \<Rightarrow> string list" where
  "split_ws_acc [] acc = (if acc = [] then [] else [rev acc])"
| "split_ws_acc (c # cs) acc =
     (if is_space c then (if acc = [] then split_ws_acc cs [] else rev acc # split_ws_acc cs [])
      else split_ws_acc cs (c # acc))"

definition split_ws :: "string \<Rightarrow> string list" where
  "split_ws s = split_ws_acc s []"

text \<open>\<open>str(n)\<close> for an integer.\<close>

definition digit_char :: "nat \<Rightarrow> char" where
  "digit_char d = char_of (48 + d)"

fun str_nat :: "nat \<Rightarrow> string" where
  "str_nat n = (if n < 10 then [digit_char n] else str_nat (n div 10) @ [digit_char (n mod 10)])"

declare str_nat.simps [simp del]

definition str_int :: "int \<Rightarrow> string" where
  "str_int i = (if i < 0 then CHR ''-'' # str_nat (nat (- i)) else str_nat (nat i))"

text \<open>
  \<open>int(s)\<close> on a string: optional surrounding space, an optional sign, digits with single
  underscores between them, and at most 4300 digits.
\<close>

definition is_digit :: "char \<Rightarrow> bool" where
  "is_digit c \<longleftrightarrow> 48 \<le> code c \<and> code c \<le> 57"

definition is_hex :: "char \<Rightarrow> bool" where
  "is_hex c \<longleftrightarrow> is_digit c \<or> (65 \<le> code c \<and> code c \<le> 70) \<or> (97 \<le> code c \<and> code c \<le> 102)"

fun digits_value :: "string \<Rightarrow> int \<Rightarrow> int option" where
  "digits_value [] acc = Some acc"
| "digits_value (c # cs) acc =
     (if is_digit c then digits_value cs (10 * acc + int (code c) - 48)
      else if c = CHR ''_'' then (case cs of
          d # ds \<Rightarrow> if is_digit d then digits_value cs acc else None
        | [] \<Rightarrow> None)
      else None)"

definition py_int :: "string \<Rightarrow> int option" where
  "py_int s = (let t = strip s in case t of
       [] \<Rightarrow> None
     | c # cs \<Rightarrow>
         if 4300 < length (filter is_digit t) then None
         else if c = CHR ''-'' \<or> c = CHR ''+'' then (case cs of
             [] \<Rightarrow> None
           | d # ds \<Rightarrow> if is_digit d
               then map_option (\<lambda>n. if c = CHR ''-'' then - n else n) (digits_value cs 0) else None)
         else if is_digit c then digits_value t 0 else None)"

section \<open>Facts\<close>

lemma startswith_iff [str_facts]: "startswith s p \<longleftrightarrow> (\<exists>t. s = p @ t)"
proof
  assume "startswith s p"
  then have "s = p @ drop (length p) s"
    unfolding startswith_def by (metis append_take_drop_id)
  then show "\<exists>t. s = p @ t" ..
qed (auto simp: startswith_def)

lemma startswith_refl [simp]: "startswith s s"
  by (simp add: startswith_def)

lemma startswith_Nil [simp]: "startswith s []"
  by (simp add: startswith_def)

lemma startswith_Cons [simp]:
  "startswith (c # s) (d # p) \<longleftrightarrow> c = d \<and> startswith s p"
  by (auto simp: startswith_def)

lemma startswith_Nil_Cons [simp]: "\<not> startswith [] (d # p)"
  by (simp add: startswith_def)

lemma startswith_append [simp]: "startswith (p @ t) p"
  by (simp add: startswith_def)

lemma startswith_trans: "startswith s p \<Longrightarrow> startswith p q \<Longrightarrow> startswith s q"
  by (auto simp: startswith_iff)

lemma endswith_iff [str_facts]: "endswith s p \<longleftrightarrow> (\<exists>t. s = t @ p)"
proof
  assume "endswith s p"
  then obtain t where "rev s = rev p @ t"
    by (auto simp: endswith_def startswith_iff)
  then have "s = rev t @ p" by (metis rev_append rev_rev_ident)
  then show "\<exists>t. s = t @ p" ..
qed (auto simp: endswith_def)

lemma contains_iff [str_facts]: "contains s p \<longleftrightarrow> (\<exists>u v. s = u @ p @ v)"
proof (induction s)
  case Nil
  show ?case by simp
next
  case (Cons c s)
  show ?case
  proof
    assume "contains (c # s) p"
    then consider "startswith (c # s) p" | "contains s p" by auto
    then show "\<exists>u v. c # s = u @ p @ v"
    proof cases
      case 1
      then show ?thesis by (metis append_Nil startswith_iff)
    next
      case 2
      then show ?thesis using Cons.IH by (metis append_Cons)
    qed
  next
    assume "\<exists>u v. c # s = u @ p @ v"
    then obtain u v where uv: "c # s = u @ p @ v" by blast
    show "contains (c # s) p"
    proof (cases u)
      case Nil
      with uv have "startswith (c # s) p" by (auto simp: startswith_iff)
      then show ?thesis by simp
    next
      case (Cons d u')
      with uv have "s = u' @ p @ v" by simp
      with Cons.IH show ?thesis by auto
    qed
  qed
qed

lemma contains_char [simp]: "contains s [c] \<longleftrightarrow> c \<in> set s"
  by (induction s) (auto simp: startswith_def)

lemma split_on_nonempty [simp]: "split_on sep s \<noteq> []"
  by (induction s) (auto split: list.splits)

lemma join_split [simp]: "join_on sep (split_on sep s) = s"
proof (induction s)
  case Nil
  show ?case by simp
next
  case (Cons c s)
  then show ?case
    by (cases "split_on sep s"; cases "tl (split_on sep s)") auto
qed

lemma split_on_no_sep: "w \<in> set (split_on sep s) \<Longrightarrow> sep \<notin> set w"
  by (induction s arbitrary: w) (auto split: if_splits list.splits)

lemma split_on_atom: "sep \<notin> set w \<Longrightarrow> split_on sep w = [w]"
  by (induction w) auto

lemma split_on_append_sep:
  "split_on sep (a @ sep # b) = split_on sep a @ split_on sep b"
proof (induction a)
  case Nil
  show ?case by simp
next
  case (Cons c a)
  then show ?case by (cases "split_on sep a") auto
qed

lemma split_join:
  "ws \<noteq> [] \<Longrightarrow> \<forall>w \<in> set ws. sep \<notin> set w \<Longrightarrow> split_on sep (join_on sep ws) = ws"
  by (induction ws rule: join_on.induct) (auto simp: split_on_append_sep split_on_atom)

lemma join_on_append:
  "xs \<noteq> [] \<Longrightarrow> ys \<noteq> [] \<Longrightarrow> join_on sep (xs @ ys) = join_on sep xs @ sep # join_on sep ys"
proof (induction xs rule: join_on.induct)
  case (2 sep w)
  then show ?case by (cases ys) auto
qed auto

text \<open>Path containment as Python tests it on strings is prefix containment on the segments.\<close>

lemma startswith_segments:
  "s = p \<or> startswith s (p @ [sep]) \<longleftrightarrow> prefix (split_on sep p) (split_on sep s)"
proof
  assume "s = p \<or> startswith s (p @ [sep])"
  then show "prefix (split_on sep p) (split_on sep s)"
    by (auto simp: startswith_iff split_on_append_sep)
next
  assume "prefix (split_on sep p) (split_on sep s)"
  then obtain zs where zs: "split_on sep s = split_on sep p @ zs"
    by (auto simp: prefix_def)
  show "s = p \<or> startswith s (p @ [sep])"
  proof (cases "zs = []")
    case True
    with zs have "s = p" by (metis append_Nil2 join_split)
    then show ?thesis ..
  next
    case False
    have "s = join_on sep (split_on sep p @ zs)" by (metis join_split zs)
    also have "\<dots> = p @ sep # join_on sep zs"
      using False by (simp add: join_on_append)
    finally show ?thesis by (auto simp: startswith_iff)
  qed
qed

lemma rstrip_char_id: "s = [] \<or> last s \<noteq> ch \<Longrightarrow> rstrip_char ch s = s"
  by (cases s rule: rev_cases) (auto simp: rstrip_char_def)

lemma rstrip_char_last: "rstrip_char ch s = [] \<or> last (rstrip_char ch s) \<noteq> ch"
proof (cases "dropWhile (\<lambda>c. c = ch) (rev s) = []")
  case False
  then have "hd (dropWhile (\<lambda>c. c = ch) (rev s)) \<noteq> ch" by (rule hd_dropWhile)
  with False show ?thesis by (simp add: rstrip_char_def last_rev)
qed (simp add: rstrip_char_def)

lemma last_split_empty: "s \<noteq> [] \<Longrightarrow> last s = sep \<Longrightarrow> [] \<in> set (split_on sep s)"
  by (cases s rule: rev_cases) (auto simp: split_on_append_sep)

text \<open>A text of lines, each with its end, is split back into them.\<close>

lemma split_terminated:
  "\<forall>w \<in> set ws. sep \<notin> set w \<Longrightarrow> split_on sep (concat (map (\<lambda>w. w @ [sep]) ws)) = ws @ [[]]"
  by (induction ws) (simp_all add: split_on_append_sep split_on_atom)

lemma split_on_first: "split_on sep (sep # s) = [] # split_on sep s"
  by simp

lemma removeprefix_id: "\<not> startswith s p \<Longrightarrow> removeprefix s p = s"
  by (simp add: removeprefix_def)

lemma find_char_Some: "find_char ch s = Some i \<Longrightarrow> i < length s \<and> s ! i = ch \<and> ch \<notin> set (take i s)"
proof (induction s arbitrary: i)
  case Nil
  then show ?case by simp
next
  case (Cons c s)
  show ?case
  proof (cases "c = ch")
    case True
    with Cons.prems show ?thesis by simp
  next
    case False
    with Cons.prems obtain j where "i = Suc j" and "find_char ch s = Some j" by auto
    with False Cons.IH show ?thesis by auto
  qed
qed

lemma find_char_None: "find_char ch s = None \<longleftrightarrow> ch \<notin> set s"
  by (induction s) auto

lemma digit_char_code: "d < 10 \<Longrightarrow> code (digit_char d) = 48 + d"
  by (simp add: digit_char_def)

lemma str_nat_digits: "c \<in> set (str_nat n) \<Longrightarrow> 48 \<le> code c \<and> code c \<le> 57"
proof (induction n rule: str_nat.induct)
  case (1 n)
  then show ?case
    by (cases "n < 10") (auto simp: str_nat.simps [of n] digit_char_code)
qed

lemma str_nat_nonempty [simp]: "str_nat n \<noteq> []"
  by (subst str_nat.simps) simp

lemma rstrip_not_ending: "\<not> endswith (rstrip_char c s) [c]"
  using rstrip_char_last [of c s] by (auto simp: endswith_iff)

section \<open>Printing and parsing integers\<close>

lemma code_digit: "d < 10 \<Longrightarrow> is_digit (digit_char d)"
  by (simp add: is_digit_def digit_char_code)

lemma digits_value_snoc:
  "list_all is_digit s \<Longrightarrow> is_digit c \<Longrightarrow>
   digits_value (s @ [c]) acc = map_option (\<lambda>n. 10 * n + int (code c) - 48) (digits_value s acc)"
  by (induction s arbitrary: acc) auto

lemma str_nat_is_digit: "list_all is_digit (str_nat n)"
  using str_nat_digits by (auto simp: list_all_iff is_digit_def)

lemma digits_value_str_nat: "digits_value (str_nat n) 0 = Some (int n)"
proof (induction n rule: str_nat.induct)
  case (1 n)
  show ?case
  proof (cases "n < 10")
    case True
    then show ?thesis by (simp add: str_nat.simps [of n] code_digit digit_char_code)
  next
    case False
    with 1 have "digits_value (str_nat (n div 10)) 0 = Some (int (n div 10))" by simp
    moreover have "10 * int (n div 10) + int (n mod 10) = int n" by presburger
    ultimately show ?thesis using False
      by (simp add: str_nat.simps [of n] digits_value_snoc str_nat_is_digit code_digit digit_char_code)
  qed
qed

lemma length_str_nat: "n < 10 ^ k \<Longrightarrow> 0 < k \<Longrightarrow> length (str_nat n) \<le> k"
proof (induction n arbitrary: k rule: str_nat.induct)
  case (1 n)
  show ?case
  proof (cases "n < 10")
    case True
    with 1(3) show ?thesis by (simp add: str_nat.simps [of n])
  next
    case False
    with 1(2) have "k \<noteq> 1" by auto
    with 1(3) obtain j where k: "k = Suc j" "0 < j" by (cases k) auto
    with 1(2) have "n div 10 < 10 ^ j" by (simp add: less_mult_imp_div_less)
    with 1(1) [OF False this k(2)] False k show ?thesis by (simp add: str_nat.simps [of n])
  qed
qed

lemma str_nat_first: "\<exists>c cs. str_nat n = c # cs \<and> is_digit c"
  using str_nat_nonempty [of n] str_nat_is_digit [of n] by (cases "str_nat n") auto

lemma strip_digits: "list_all is_digit s \<Longrightarrow> strip s = s"
proof -
  assume all: "list_all is_digit s"
  have sp: "\<not> is_space c" if "is_digit c" for c
    using that by (auto simp: is_digit_def is_space_def)
  have drop: "dropWhile is_space t = t" if "list_all is_digit t" for t
    using that sp by (cases t) auto
  have "list_all is_digit (rev s)" using all by (simp add: list_all_iff)
  with all show ?thesis by (simp add: strip_def drop)
qed

lemma py_int_str_int:
  assumes "0 \<le> i" and "i < 1000000000"
  shows "py_int (str_int i) = Some i"
proof -
  have "nat i < 10 ^ 9" using assms by (simp add: nat_less_iff)
  then have "length (str_nat (nat i)) \<le> 9" by (rule length_str_nat) simp
  then have "length (filter is_digit (str_nat (nat i))) \<le> 9"
    using length_filter_le le_trans by blast
  then have short: "\<not> 4300 < length (filter is_digit (str_nat (nat i)))" by simp
  obtain c cs where c: "str_nat (nat i) = c # cs" "is_digit c" using str_nat_first by blast
  then have sign: "c \<noteq> CHR ''-''" "c \<noteq> CHR ''+''" by (auto simp: is_digit_def)
  have "digits_value (c # cs) 0 = Some i"
    using digits_value_str_nat [of "nat i"] assms c by simp
  with assms short c sign strip_digits [OF str_nat_is_digit [of "nat i"]] show ?thesis
    by (simp add: py_int_def str_int_def Let_def)
qed

end
