(* ===== verification/Py_Json.thy ===== *)
theory Py_Json
  imports Complex_Main "HOL-Library.Char_ord" "HOL-Library.List_Lexorder" Py_Str
begin

text \<open>
  The values that cross the program's boundaries: what \<open>json.loads\<close> and \<open>tomllib.load\<close>
  return, what a request body holds after parsing, and what \<open>json.dumps\<close> writes. A Python
  \<open>dict\<close> is an association list in insertion order, with distinct keys
  (\<open>wf_json\<close>); \<open>None\<close> is \<open>JNull\<close>, so that \<open>d.get(k)\<close> on a missing key and on a key
  bound to \<open>null\<close> agree, as they do in Python. Integers are unbounded; a \<open>float\<close> is a
  rational number or one of the three special values.
\<close>

section \<open>Values\<close>

datatype pyfloat = Finite rat | PosInf | NegInf | NaN

datatype json =
    JNull
  | JBool bool
  | JInt int
  | JFloat pyfloat
  | JStr string
  | JArr "json list"
  | JObj "(string \<times> json) list"

type_synonym dict = "(string \<times> json) list"

text \<open>Python compares floats as numbers, except that every comparison with a NaN is false.\<close>

instantiation pyfloat :: ord
begin

definition less_pyfloat :: "pyfloat \<Rightarrow> pyfloat \<Rightarrow> bool" where
  "less_pyfloat a b \<longleftrightarrow>
     (case a of
        NaN \<Rightarrow> False
      | PosInf \<Rightarrow> False
      | NegInf \<Rightarrow> (case b of NaN \<Rightarrow> False | NegInf \<Rightarrow> False | _ \<Rightarrow> True)
      | Finite x \<Rightarrow> (case b of NaN \<Rightarrow> False | NegInf \<Rightarrow> False | PosInf \<Rightarrow> True | Finite y \<Rightarrow> x < y))"

definition less_eq_pyfloat :: "pyfloat \<Rightarrow> pyfloat \<Rightarrow> bool" where
  "less_eq_pyfloat a b \<longleftrightarrow> a < b \<or> (a = b \<and> a \<noteq> NaN)"

instance ..

end

definition float_eq :: "pyfloat \<Rightarrow> pyfloat \<Rightarrow> bool" where
  "float_eq a b \<longleftrightarrow> a = b \<and> a \<noteq> NaN"

section \<open>Dictionaries\<close>

named_theorems dict_simps \<open>lookups and updates of association lists\<close>

text \<open>\<open>d.get(k)\<close>\<close>

definition dget :: "dict \<Rightarrow> string \<Rightarrow> json" where
  "dget d k = (case map_of d k of None \<Rightarrow> JNull | Some v \<Rightarrow> v)"

text \<open>\<open>d.get(k, default)\<close>\<close>

definition dget_or :: "dict \<Rightarrow> string \<Rightarrow> json \<Rightarrow> json" where
  "dget_or d k v0 = (case map_of d k of None \<Rightarrow> v0 | Some v \<Rightarrow> v)"

text \<open>\<open>d[k]\<close>, which raises \<open>KeyError\<close>\<close>

definition dindex :: "(string \<times> 'v) list \<Rightarrow> string \<Rightarrow> 'v res" where
  "dindex d k = (case map_of d k of None \<Rightarrow> Inl KeyError | Some v \<Rightarrow> Inr v)"

definition keys :: "(string \<times> 'v) list \<Rightarrow> string list" where
  "keys d = map fst d"

text \<open>\<open>d[k] = v\<close>: in place when the key is there, at the end otherwise.\<close>

fun dput :: "string \<Rightarrow> 'v \<Rightarrow> (string \<times> 'v) list \<Rightarrow> (string \<times> 'v) list" where
  "dput k v [] = [(k, v)]"
| "dput k v ((k', v') # d) = (if k = k' then (k', v) # d else (k', v') # dput k v d)"

text \<open>\<open>d.update(e)\<close>\<close>

fun dupdate :: "(string \<times> 'v) list \<Rightarrow> (string \<times> 'v) list \<Rightarrow> (string \<times> 'v) list" where
  "dupdate d [] = d"
| "dupdate d ((k, v) # e) = dupdate (dput k v d) e"

text \<open>\<open>d.pop(k, None)\<close>, keeping the dictionary.\<close>

definition dpop :: "string \<Rightarrow> (string \<times> 'v) list \<Rightarrow> (string \<times> 'v) list" where
  "dpop k d = filter (\<lambda>p. fst p \<noteq> k) d"

fun wf_json :: "json \<Rightarrow> bool" where
  "wf_json (JArr xs) \<longleftrightarrow> (\<forall>x \<in> set xs. wf_json x)"
| "wf_json (JObj d) \<longleftrightarrow> distinct (map fst d) \<and> (\<forall>p \<in> set d. wf_json (snd p))"
| "wf_json _ \<longleftrightarrow> True"

section \<open>Truth values, types and equality\<close>

text \<open>\<open>bool(v)\<close>\<close>

fun truthy :: "json \<Rightarrow> bool" where
  "truthy JNull \<longleftrightarrow> False"
| "truthy (JBool b) \<longleftrightarrow> b"
| "truthy (JInt i) \<longleftrightarrow> i \<noteq> 0"
| "truthy (JFloat f) \<longleftrightarrow> f \<noteq> Finite 0"
| "truthy (JStr s) \<longleftrightarrow> s \<noteq> []"
| "truthy (JArr xs) \<longleftrightarrow> xs \<noteq> []"
| "truthy (JObj d) \<longleftrightarrow> d \<noteq> []"

text \<open>\<open>isinstance(v, str)\<close> and so on. \<open>bool\<close> is a subclass of \<open>int\<close>.\<close>

fun is_str :: "json \<Rightarrow> bool" where "is_str (JStr s) = True" | "is_str _ = False"
fun is_dict :: "json \<Rightarrow> bool" where "is_dict (JObj d) = True" | "is_dict _ = False"
fun is_list :: "json \<Rightarrow> bool" where "is_list (JArr xs) = True" | "is_list _ = False"
fun is_bool :: "json \<Rightarrow> bool" where "is_bool (JBool b) = True" | "is_bool _ = False"
fun is_int :: "json \<Rightarrow> bool" where
  "is_int (JInt i) = True" | "is_int (JBool b) = True" | "is_int _ = False"
fun is_float :: "json \<Rightarrow> bool" where "is_float (JFloat f) = True" | "is_float _ = False"

definition is_number :: "json \<Rightarrow> bool" where
  "is_number v \<longleftrightarrow> is_int v \<or> is_float v"

text \<open>The numeric value of a \<open>bool\<close>, \<open>int\<close> or \<open>float\<close>: comparisons between them are exact.\<close>

fun num_val :: "json \<Rightarrow> pyfloat" where
  "num_val (JBool b) = Finite (of_bool b)"
| "num_val (JInt i) = Finite (of_int i)"
| "num_val (JFloat f) = f"
| "num_val _ = NaN"

text \<open>\<open>v == w\<close>\<close>

function py_eq :: "json \<Rightarrow> json \<Rightarrow> bool" where
  "py_eq v w \<longleftrightarrow>
     (if is_number v \<and> is_number w then float_eq (num_val v) (num_val w)
      else case v of
        JNull \<Rightarrow> w = JNull
      | JStr s \<Rightarrow> w = JStr s
      | JArr xs \<Rightarrow> (case w of
            JArr ys \<Rightarrow> length xs = length ys \<and> list_all (\<lambda>(x, y). py_eq x y) (zip xs ys)
          | _ \<Rightarrow> False)
      | JObj d \<Rightarrow> (case w of
            JObj e \<Rightarrow> length d = length e \<and>
              list_all (\<lambda>(k, x). case map_of e k of None \<Rightarrow> False | Some y \<Rightarrow> py_eq x y) d
          | _ \<Rightarrow> False)
      | _ \<Rightarrow> False)"
  by pat_completeness auto
termination
proof (relation "measure (\<lambda>(v, w). size v)", goal_cases)
  case 1
  then show ?case by simp
next
  case (2 v w xs ys z x y)
  then have "x \<in> set xs" by (metis set_zip_leftD)
  then have "size x < Suc (size_list size xs)"
    by (simp add: size_list_estimation' less_Suc_eq_le)
  with 2 show ?case by auto
next
  case (3 v w d e z k x y)
  then have "(k, x) \<in> set d" by simp
  then have "size x < Suc (size_list (size_prod (\<lambda>_. 0) size) d)"
    by (induction d) auto
  with 3 show ?case by auto
qed

declare py_eq.simps [simp del]

definition py_in :: "json \<Rightarrow> json list \<Rightarrow> bool" where
  "py_in v xs \<longleftrightarrow> list_ex (\<lambda>x. py_eq v x) xs"

text \<open>
  \<open>(v or {}).items()\<close>: every false value counts as the empty dictionary; on a true value that is
  not a dictionary the attribute is missing.
\<close>

definition items_or_empty :: "json \<Rightarrow> dict res" where
  "items_or_empty v =
     (if \<not> truthy v then Inr [] else case v of JObj d \<Rightarrow> Inr d | _ \<Rightarrow> Inl AttributeError)"

lemma items_or_empty_error: "items_or_empty v = Inl e \<Longrightarrow> e = AttributeError"
  by (auto simp: items_or_empty_def split: if_splits json.splits)

section \<open>Serialisation\<close>

text \<open>One character as \<open>json.dumps\<close> writes it inside a string, with \<open>ensure_ascii\<close>.\<close>

definition hex_digit :: "nat \<Rightarrow> char" where
  "hex_digit d = (if d < 10 then char_of (48 + d) else char_of (87 + d))"

definition json_escape :: "char \<Rightarrow> string" where
  "json_escape c =
     (if c = CHR 0x22 then [CHR 0x5C, CHR 0x22]
      else if c = CHR 0x5C then [CHR 0x5C, CHR 0x5C]
      else if 32 \<le> code c \<and> code c \<le> 126 then [c]
      else if code c = 10 then [CHR 0x5C, CHR ''n'']
      else if code c = 13 then [CHR 0x5C, CHR ''r'']
      else if code c = 9 then [CHR 0x5C, CHR ''t'']
      else if code c = 12 then [CHR 0x5C, CHR ''f'']
      else if code c = 8 then [CHR 0x5C, CHR ''b'']
      else [CHR 0x5C, CHR ''u'', CHR ''0'', CHR ''0'',
            hex_digit (code c div 16), hex_digit (code c mod 16)])"

definition json_string :: "string \<Rightarrow> string" where
  "json_string s = CHR 0x22 # concat (map json_escape s) @ [CHR 0x22]"

text \<open>
  \<open>json.dumps(v, separators=(",", ":"))\<close>. The text of a float is not modelled: the result is
  \<open>None\<close> on a value that holds one. Both calls of the program write values without floats.
\<close>

fun json_dumps :: "json \<Rightarrow> string option"
  and dumps_items :: "json list \<Rightarrow> string list option"
  and dumps_fields :: "(string \<times> json) list \<Rightarrow> string list option" where
  "json_dumps JNull = Some ''null''"
| "json_dumps (JBool b) = Some (if b then ''true'' else ''false'')"
| "json_dumps (JInt i) = Some (str_int i)"
| "json_dumps (JFloat f) = None"
| "json_dumps (JStr s) = Some (json_string s)"
| "json_dumps (JArr xs) =
     (case dumps_items xs of None \<Rightarrow> None | Some ps \<Rightarrow> Some (''['' @ join_str '','' ps @ '']''))"
| "json_dumps (JObj d) =
     (case dumps_fields d of None \<Rightarrow> None | Some ps \<Rightarrow> Some (''{'' @ join_str '','' ps @ ''}''))"
| "dumps_items [] = Some []"
| "dumps_items (x # xs) =
     (case json_dumps x of None \<Rightarrow> None
      | Some t \<Rightarrow> (case dumps_items xs of None \<Rightarrow> None | Some ts \<Rightarrow> Some (t # ts)))"
| "dumps_fields [] = Some []"
| "dumps_fields ((k, v) # d) =
     (case json_dumps v of None \<Rightarrow> None
      | Some t \<Rightarrow> (case dumps_fields d of None \<Rightarrow> None
          | Some ts \<Rightarrow> Some ((json_string k @ '':'' @ t) # ts)))"

text \<open>\<open>sort_keys=True\<close>: every dictionary in the order of its keys.\<close>

fun sort_json :: "json \<Rightarrow> json" where
  "sort_json (JArr xs) = JArr (map sort_json xs)"
| "sort_json (JObj d) = JObj (sort_key fst (map (\<lambda>(k, v). (k, sort_json v)) d))"
| "sort_json v = v"

fun has_float :: "json \<Rightarrow> bool" where
  "has_float (JFloat f) = True"
| "has_float (JArr xs) = list_ex has_float xs"
| "has_float (JObj d) = list_ex (\<lambda>(k, v). has_float v) d"
| "has_float _ = False"

section \<open>Facts\<close>

lemma dget_simps [simp, dict_simps]:
  "dget [] k = JNull"
  "dget ((k', v) # d) k = (if k = k' then v else dget d k)"
  by (simp_all add: dget_def)

lemma dget_or_simps [simp, dict_simps]:
  "dget_or [] k v0 = v0"
  "dget_or ((k', v) # d) k v0 = (if k = k' then v else dget_or d k v0)"
  by (simp_all add: dget_or_def)

lemma dindex_simps [simp, dict_simps]:
  "dindex [] k = Inl KeyError"
  "dindex ((k', v) # d) k = (if k = k' then Inr v else dindex d k)"
  by (simp_all add: dindex_def)

lemma keys_simps [simp]: "keys [] = []" "keys ((k, v) # d) = k # keys d"
  by (simp_all add: keys_def)

lemma dget_missing: "k \<notin> set (keys d) \<Longrightarrow> dget d k = JNull"
  by (induction d) auto

lemma dindex_Inr: "dindex d k = Inr v \<longleftrightarrow> map_of d k = Some v"
  by (auto simp: dindex_def split: option.splits)

lemma dindex_present: "k \<in> set (keys d) \<Longrightarrow> \<exists>v. dindex d k = Inr v"
  by (induction d) auto

lemma map_of_dput [simp, dict_simps]: "map_of (dput k v d) = (map_of d)(k \<mapsto> v)"
  by (induction k v d rule: dput.induct) (auto simp: fun_eq_iff)

lemma keys_dput [simp]:
  "keys (dput k v d) = (if k \<in> set (keys d) then keys d else keys d @ [k])"
  by (induction k v d rule: dput.induct) auto

lemma map_of_dupdate: "map_of (dupdate d e) k =
    (case map_of (rev e) k of None \<Rightarrow> map_of d k | Some v \<Rightarrow> Some v)"
  by (induction d e rule: dupdate.induct) (auto simp: map_add_def split: option.splits)

lemma set_keys_dupdate [simp]: "set (keys (dupdate d e)) = set (keys d) \<union> set (keys e)"
  by (induction d e rule: dupdate.induct) auto

lemma keys_dpop [simp]: "set (keys (dpop k d)) = set (keys d) - {k}"
  by (auto simp: keys_def dpop_def image_iff)

lemma map_of_dpop: "map_of (dpop k d) = (map_of d)(k := None)"
proof (induction d)
  case Nil
  show ?case by (simp add: dpop_def)
next
  case (Cons p d)
  then show ?case by (cases p) (auto simp: dpop_def fun_eq_iff)
qed

lemma is_str_iff: "is_str v \<longleftrightarrow> (\<exists>s. v = JStr s)" by (cases v) auto
lemma is_dict_iff: "is_dict v \<longleftrightarrow> (\<exists>d. v = JObj d)" by (cases v) auto
lemma is_list_iff: "is_list v \<longleftrightarrow> (\<exists>xs. v = JArr xs)" by (cases v) auto
lemma is_bool_iff: "is_bool v \<longleftrightarrow> (\<exists>b. v = JBool b)" by (cases v) auto

lemma py_eq_JStr [simp]: "py_eq (JStr s) w \<longleftrightarrow> w = JStr s"
  by (subst py_eq.simps) (simp add: is_number_def)

lemma py_eq_JStr_right [simp]: "py_eq v (JStr s) \<longleftrightarrow> v = JStr s"
  by (cases v) (auto simp add: py_eq.simps is_number_def)

lemma py_eq_JNull [simp]: "py_eq JNull w \<longleftrightarrow> w = JNull"
  by (subst py_eq.simps) (simp add: is_number_def)

lemma py_eq_JInt [simp]: "py_eq (JInt i) (JInt j) \<longleftrightarrow> i = j"
  by (subst py_eq.simps) (simp add: is_number_def float_eq_def)

text \<open>Everything \<open>json.dumps\<close> writes is printable ASCII: in particular one line.\<close>

definition printable :: "char \<Rightarrow> bool" where
  "printable c \<longleftrightarrow> 32 \<le> code c \<and> code c \<le> 126"

lemma code_lt: "code c < 256"
  by simp

lemma hex_digit_code: "d < 16 \<Longrightarrow> 48 \<le> code (hex_digit d) \<and> code (hex_digit d) \<le> 102"
  by (auto simp: hex_digit_def)

lemma printable_escape: "d \<in> set (json_escape c) \<Longrightarrow> printable d"
proof -
  have "code c < 256" by (rule code_lt)
  then have lt: "code c div 16 < 16" by linarith
  assume "d \<in> set (json_escape c)"
  then show ?thesis
    using hex_digit_code [OF lt] hex_digit_code [of "code c mod 16"]
    unfolding json_escape_def printable_def by (auto split: if_splits)
qed

lemma printable_json_string: "d \<in> set (json_string s) \<Longrightarrow> printable d"
  by (auto simp: json_string_def printable_escape) (simp_all add: printable_def)

lemma printable_str_int: "d \<in> set (str_int i) \<Longrightarrow> printable d"
  using str_nat_digits [of d] by (fastforce simp: str_int_def printable_def split: if_splits)

lemma printable_join_str:
  "d \<in> set (join_str sep ps) \<Longrightarrow> \<forall>c \<in> set sep. printable c \<Longrightarrow>
   \<forall>p \<in> set ps. \<forall>c \<in> set p. printable c \<Longrightarrow> printable d"
  by (induction sep ps rule: join_str.induct) auto

lemma printable_dumps:
  "json_dumps v = Some t \<Longrightarrow> \<forall>c \<in> set t. printable c"
  "dumps_items xs = Some ts \<Longrightarrow> \<forall>u \<in> set ts. \<forall>c \<in> set u. printable c"
  "dumps_fields d = Some ts \<Longrightarrow> \<forall>u \<in> set ts. \<forall>c \<in> set u. printable c"
proof (induction v and xs and d arbitrary: t and ts and ts
    rule: json_dumps_dumps_items_dumps_fields.induct)
  case (6 xs)
  then show ?case
    by (auto simp: printable_def [of "CHR ''[''"] printable_def [of "CHR '']''"]
        dest!: printable_join_str split: option.splits) (auto simp: printable_def)
next
  case (7 d)
  then show ?case
    by (auto simp: printable_def [of "CHR ''{''"] printable_def [of "CHR ''}''"]
        dest!: printable_join_str split: option.splits) (auto simp: printable_def)
next
  case (11 k v d)
  have "printable (CHR '':'')" by (simp add: printable_def)
  with 11 show ?case
    by (auto split: option.splits simp: printable_json_string)
next
  case (2 b)
  then show ?case by (auto simp: printable_def split: if_splits)
next
  case 1
  then show ?case by (auto simp: printable_def)
qed (auto simp: printable_str_int printable_json_string split: option.splits)

lemma dumps_no_float:
  "\<not> has_float v \<Longrightarrow> \<exists>t. json_dumps v = Some t"
  "\<not> list_ex has_float xs \<Longrightarrow> \<exists>ts. dumps_items xs = Some ts"
  "\<not> list_ex (\<lambda>(k, v). has_float v) d \<Longrightarrow> \<exists>ts. dumps_fields d = Some ts"
  by (induction v and xs and d rule: json_dumps_dumps_items_dumps_fields.induct) auto

end
