(* ===== verification/Broker_Config.thy ===== *)
theory Broker_Config
  imports Py_Json
begin

text \<open>
  \<^verbatim>\<open>broker/config.py\<close>: the path check every request passes, the policy of one NetBox
  instance, the loader that builds the configuration from the TOML document and the environment,
  and the reader of credential variables. The abstract reading of the path check is on segments:
  a policy grants the subtrees of the KV mount below its prefixes.
\<close>

section \<open>Constants and records\<close>

text \<open>\<open>ADMINISTRATION_FAMILIES\<close> of \<^verbatim>\<open>broker/administration.py\<close>, which \<open>config.py\<close> imports.\<close>

definition ADMINISTRATION_FAMILIES :: "string list" where
  "ADMINISTRATION_FAMILIES =
     [''access'', ''authentication'', ''cluster'', ''finalization'', ''mounted-secrets'',
      ''secret-engines'']"

definition DEFAULT_CONFIG_PATH :: string where
  "DEFAULT_CONFIG_PATH = ''/etc/netbox-openbao-broker/config.toml''"

record instance_policy =
  ip_name :: string
  path_prefixes :: "string list"
  may_write :: bool
  may_delete :: bool
  administration_families :: "string list"

record broker_config =
  openbao_url :: string
  kv_mount :: string
  namespace :: "string option"
  auth_method :: string
  env_prefix :: string
  tls_verify :: bool
  ca_cert_path :: "string option"
  instances :: "(string \<times> instance_policy) list"

section \<open>Policies\<close>

definition permits_path :: "instance_policy \<Rightarrow> string \<Rightarrow> bool" where
  "permits_path p path \<longleftrightarrow>
     list_ex (\<lambda>pre. path = pre \<or> startswith path (rstrip_char CHR ''/'' pre @ ''/'')) (path_prefixes p)"

definition permits_administration :: "instance_policy \<Rightarrow> string \<Rightarrow> bool" where
  "permits_administration p family \<longleftrightarrow> List.member (administration_families p) family"

text \<open>\<open>BrokerConfig.instance\<close>\<close>

definition config_instance :: "broker_config \<Rightarrow> string \<Rightarrow> instance_policy option" where
  "config_instance cfg name = map_of (instances cfg) name"

section \<open>The path check\<close>

definition normalize_path :: "json \<Rightarrow> string res" where
  "normalize_path raw =
     (if \<not> truthy raw \<or> \<not> is_str raw then Inl (ValueError ''path must be a non-empty string'')
      else case raw of JStr s \<Rightarrow>
        if List.member s (CHR 0x5C) then Inl (ValueError ''path contains an illegal character'')
        else if List.member s CHR ''%'' then Inl (ValueError ''path must not be percent-encoded'')
        else if list_ex (\<lambda>c. \<not> (33 \<le> code c \<and> code c \<le> 126)) s
          then Inl (ValueError ''path must be printable ASCII without spaces'')
        else if startswith s ''/'' then Inl (ValueError ''path must be relative to the KV mount'')
        else if list_ex (\<lambda>w. w = ''.'' \<or> w = ''..'') (split_on CHR ''/'' s)
          then Inl (ValueError ''path must not contain relative segments'')
        else if list_ex (\<lambda>w. w = []) (split_on CHR ''/'' s)
          then Inl (ValueError ''path must not contain empty segments'')
        else Inr s
      | _ \<Rightarrow> Inl (ValueError ''path must be a non-empty string''))"

section \<open>Loading the configuration\<close>

text \<open>
  Iterating a TOML value in a \<open>for\<close> loop: the elements of an array, the characters of a string,
  the keys of a table; anything else is not iterable.
\<close>

fun iter_json :: "json \<Rightarrow> json list res" where
  "iter_json (JArr xs) = Inr xs"
| "iter_json (JStr s) = Inr (map (\<lambda>c. JStr [c]) s)"
| "iter_json (JObj d) = Inr (map (\<lambda>p. JStr (fst p)) d)"
| "iter_json _ = Inl TypeError"

fun json_str_items :: "json list \<Rightarrow> string list" where
  "json_str_items [] = []"
| "json_str_items (JStr s # xs) = s # json_str_items xs"
| "json_str_items (_ # xs) = json_str_items xs"

text \<open>The opening of the messages: \<open>Instance "name"\<close>.\<close>

definition about_instance :: "string \<Rightarrow> string \<Rightarrow> string" where
  "about_instance name rest = ''Instance '' @ [CHR 0x22] @ name @ [CHR 0x22] @ rest"

text \<open>\<open>_administration_families\<close>\<close>

definition load_administration_families :: "string \<Rightarrow> dict \<Rightarrow> string list res" where
  "load_administration_families name spec =
     (let families = (if truthy (dget spec ''administration_families'')
                      then dget spec ''administration_families'' else JArr [])
      in case families of
           JArr xs \<Rightarrow>
             if \<not> list_all is_str xs
               then Inl (ConfigError (about_instance name '' has invalid administration_families.''))
             else let fs = json_str_items xs;
                      unknown = filter (\<lambda>f. \<not> List.member ADMINISTRATION_FAMILIES f) (remdups fs) in
               if unknown \<noteq> []
                 then Inl (ConfigError (about_instance name ('' has unknown administration families: ''
                   @ join_str '', '' (sort unknown) @ ''.'')))
               else if length fs \<noteq> length (remdups fs)
                 then Inl (ConfigError (about_instance name
                   '' has duplicate administration families.''))
               else Inr (sort fs)
         | _ \<Rightarrow> Inl (ConfigError (about_instance name '' has invalid administration_families.'')))"

text \<open>
  The loop over the prefixes: a refused prefix is a \<open>ConfigError\<close>. (The text of a prefix that is
  not a string is left out of the message.)
\<close>

definition check_prefix :: "string \<Rightarrow> json \<Rightarrow> unit res" where
  "check_prefix name pre = (case normalize_path pre of
       Inl (ValueError m) \<Rightarrow> Inl (ConfigError (about_instance name ('' has an invalid prefix ''
         @ [CHR 0x22] @ (case pre of JStr s \<Rightarrow> s | _ \<Rightarrow> []) @ [CHR 0x22] @ '': '' @ m)))
     | Inl e \<Rightarrow> Inl e
     | Inr s \<Rightarrow> Inr ())"

definition load_instance_policy :: "string \<Rightarrow> dict \<Rightarrow> instance_policy res" where
  "load_instance_policy name spec =
     (let prefixes = (if truthy (dget spec ''path_prefixes'') then dget spec ''path_prefixes''
                      else JArr [])
      in if \<not> truthy prefixes
         then Inl (ConfigError (about_instance name ('' declares no path_prefixes. An instance ''
           @ ''permitted to read everything is the situation this broker exists to prevent.'')))
         else res_bind (iter_json prefixes) (\<lambda>items.
              res_bind (res_each (check_prefix name) items) (\<lambda>_.
              res_bind (load_administration_families name spec) (\<lambda>families.
              Inr \<lparr>ip_name = name,
                   path_prefixes = json_str_items items,
                   may_write = truthy (dget_or spec ''may_write'' (JBool False)),
                   may_delete = truthy (dget_or spec ''may_delete'' (JBool False)),
                   administration_families = families\<rparr>))))"

text \<open>
  \<open>spec.get\<close> on an instance that is not a table is an \<open>AttributeError\<close>. The comprehension
  runs over the tables in document order.
\<close>

definition load_instance :: "string \<times> json \<Rightarrow> (string \<times> instance_policy) res" where
  "load_instance p = (case snd p of
       JObj spec \<Rightarrow> res_bind (load_instance_policy (fst p) spec) (\<lambda>pol. Inr (fst p, pol))
     | _ \<Rightarrow> Inl AttributeError)"

definition load_instances :: "dict \<Rightarrow> (string \<times> instance_policy) list res" where
  "load_instances raw =
     res_bind (res_map load_instance raw) (\<lambda>insts.
       if insts = [] then Inl (ConfigError
           ''No instances configured. The broker would refuse every request.'') else Inr insts)"

text \<open>
  The \<open>[openbao]\<close> table with the types the example configuration documents: absent keys are
  \<open>None\<close>. (\<open>tls_verify\<close> is passed through \<open>bool\<close>, so any value is admitted there.)
\<close>

record openbao_table =
  ob_url :: "string option"
  ob_kv_mount :: "string option"
  ob_namespace :: "string option"
  ob_auth_method :: "string option"
  ob_env_prefix :: "string option"
  ob_tls_verify :: "json option"
  ob_ca_cert_path :: "string option"

definition or_none :: "string option \<Rightarrow> string option" where
  "or_none x = (case x of Some s \<Rightarrow> if s = [] then None else Some s | None \<Rightarrow> None)"

definition or_default :: "string option \<Rightarrow> string \<Rightarrow> string" where
  "or_default x d = (case x of Some s \<Rightarrow> s | None \<Rightarrow> d)"


text \<open>
  \<open>load_config\<close>. The file system is a function from a path to the parsed document, if a file is
  there: the \<open>[openbao]\<close> table and the value of \<open>instances\<close>. The environment is a function
  from names to values.
\<close>

definition load_config ::
  "(string \<Rightarrow> string option) \<Rightarrow> (string \<Rightarrow> (openbao_table \<times> json) option) \<Rightarrow> string option \<Rightarrow>
   broker_config res" where
  "load_config env fs path =
     (let config_path = (case or_none path of Some p \<Rightarrow> p
                         | None \<Rightarrow> or_default (env ''BROKER_CONFIG'') DEFAULT_CONFIG_PATH)
      in case fs config_path of
           None \<Rightarrow> Inl (ConfigError (''No configuration at '' @ config_path @ ''. Set BROKER_CONFIG.''))
         | Some (openbao, raw_instances) \<Rightarrow>
             (case (case or_none (env ''BROKER_OPENBAO_URL'') of Some u \<Rightarrow> Some u
                    | None \<Rightarrow> or_none (ob_url openbao)) of
                None \<Rightarrow> Inl (ConfigError ''openbao.url is required (or set BROKER_OPENBAO_URL).'')
              | Some url \<Rightarrow>
                  res_bind (items_or_empty raw_instances) (\<lambda>tables.
                  res_bind (load_instances tables) (\<lambda>insts.
                  Inr \<lparr>openbao_url = rstrip_char CHR ''/'' url,
                       kv_mount = or_default (ob_kv_mount openbao) ''secret'',
                       namespace = or_none (ob_namespace openbao),
                       auth_method = or_default (ob_auth_method openbao) ''approle'',
                       env_prefix = or_default (ob_env_prefix openbao) ''BROKER_BAO'',
                       tls_verify = (case ob_tls_verify openbao of None \<Rightarrow> True | Some v \<Rightarrow> truthy v),
                       ca_cert_path = or_none (ob_ca_cert_path openbao),
                       instances = insts\<rparr>))))"

section \<open>Credential variables\<close>

text \<open>
  \<open>read_secret_env\<close>: the variable, or the contents of the file \<open>name_FILE\<close> points at.
  \<open>read_text\<close> is the file system: \<open>None\<close> is an \<open>OSError\<close>. The message names the variable
  and the path, never the contents.
\<close>

definition read_secret_env ::
  "(string \<Rightarrow> string option) \<Rightarrow> (string \<Rightarrow> string option) \<Rightarrow> string \<Rightarrow> string option res" where
  "read_secret_env env read_text name =
     (case or_none (env name) of
        Some v \<Rightarrow> Inr (Some (strip v))
      | None \<Rightarrow>
          (case or_none (env (name @ ''_FILE'')) of
             Some path \<Rightarrow>
               (case read_text path of
                  Some t \<Rightarrow> Inr (Some (strip t))
                | None \<Rightarrow> Inl (ConfigError (''Cannot read '' @ name @ ''_FILE ('' @ path @ '')'')))
           | None \<Rightarrow> Inr None))"

section \<open>Facts about the path check\<close>

text \<open>What a canonical path is, stated without reference to the order of the checks.\<close>

definition canonical_segment :: "string \<Rightarrow> bool" where
  "canonical_segment w \<longleftrightarrow> w \<noteq> [] \<and> w \<noteq> ''.'' \<and> w \<noteq> ''..'' \<and>
     (\<forall>c \<in> set w. 33 \<le> code c \<and> code c \<le> 126 \<and> c \<noteq> CHR ''/'' \<and> c \<noteq> CHR 0x5C \<and> c \<noteq> CHR ''%'')"

definition canonical_path :: "string \<Rightarrow> bool" where
  "canonical_path s \<longleftrightarrow> (\<forall>w \<in> set (split_on CHR ''/'' s). canonical_segment w)"

lemma set_split_on: "set s \<subseteq> insert sep (\<Union>w \<in> set (split_on sep s). set w)"
proof (induction s)
  case Nil
  show ?case by simp
next
  case (Cons c s)
  then show ?case by (cases "split_on sep s") auto
qed

lemma set_split_on_sub: "w \<in> set (split_on sep s) \<Longrightarrow> set w \<subseteq> set s"
  by (induction s arbitrary: w) (auto split: if_splits list.splits, blast+)

lemma canonical_chars:
  "canonical_path s \<Longrightarrow> c \<in> set s \<Longrightarrow> 33 \<le> code c \<and> code c \<le> 126 \<and> c \<noteq> CHR 0x5C \<and> c \<noteq> CHR ''%''"
proof -
  assume can: "canonical_path s" and "c \<in> set s"
  with set_split_on [of s "CHR ''/''"]
  consider "c = CHR ''/''" | w where "w \<in> set (split_on CHR ''/'' s)" "c \<in> set w" by blast
  then show ?thesis
    by cases (use can in \<open>auto simp: canonical_path_def canonical_segment_def\<close>)
qed

lemma canonical_no_empty: "canonical_path s \<Longrightarrow> [] \<notin> set (split_on CHR ''/'' s)"
  unfolding canonical_path_def canonical_segment_def by blast

lemma canonical_no_dots:
  "canonical_path s \<Longrightarrow> w \<in> set (split_on CHR ''/'' s) \<Longrightarrow> w \<noteq> ''.'' \<and> w \<noteq> ''..''"
  unfolding canonical_path_def canonical_segment_def by blast

lemma canonical_nonempty: "canonical_path s \<Longrightarrow> s \<noteq> [] \<and> \<not> startswith s ''/''"
  using canonical_no_empty [of s] by (auto simp: startswith_iff)

lemma normalize_path_sound:
  assumes "normalize_path (JStr s) = Inr t"
  shows "t = s \<and> canonical_path s"
proof -
  note facts = assms [unfolded normalize_path_def, simplified, unfolded list_ex_iff]
  from facts have t: "t = s" by (simp split: if_split_asm)
  from facts have chars:
    "\<forall>c \<in> set s. 33 \<le> code c \<and> code c \<le> 126" "CHR 0x5C \<notin> set s" "CHR ''%'' \<notin> set s"
    by (simp_all split: if_split_asm)
  from facts have segs: "\<forall>w \<in> set (split_on CHR ''/'' s). w \<noteq> [] \<and> w \<noteq> ''.'' \<and> w \<noteq> ''..''"
    by (simp split: if_split_asm) blast
  have "canonical_segment w" if "w \<in> set (split_on CHR ''/'' s)" for w
    using that chars segs set_split_on_sub [OF that] split_on_no_sep [OF that]
    unfolding canonical_segment_def by blast
  with t show ?thesis by (simp add: canonical_path_def)
qed

lemma normalize_path_complete: "canonical_path s \<Longrightarrow> normalize_path (JStr s) = Inr s"
proof -
  assume can: "canonical_path s"
  have "CHR 0x5C \<notin> set s" "CHR ''%'' \<notin> set s" "\<not> list_ex (\<lambda>c. \<not> (33 \<le> code c \<and> code c \<le> 126)) s"
    using canonical_chars [OF can] unfolding list_ex_iff by blast+
  moreover have "\<not> list_ex (\<lambda>w. w = ''.'' \<or> w = ''..'') (split_on CHR ''/'' s)"
    "\<not> list_ex (\<lambda>w. w = []) (split_on CHR ''/'' s)"
    using canonical_no_dots [OF can] canonical_no_empty [OF can] unfolding list_ex_iff by blast+
  ultimately show ?thesis
    using canonical_nonempty [OF can] unfolding normalize_path_def by simp
qed

lemma normalize_path_canonical: "normalize_path (JStr s) = Inr t \<longleftrightarrow> t = s \<and> canonical_path s"
  using normalize_path_sound normalize_path_complete by auto

lemma normalize_path_Inr: "normalize_path v = Inr t \<longleftrightarrow> v = JStr t \<and> canonical_path t"
proof (cases v)
  case (JStr s)
  then show ?thesis using normalize_path_canonical by auto
qed (auto simp: normalize_path_def)

lemma normalize_path_Inl: "normalize_path v = Inl e \<Longrightarrow> \<exists>m. e = ValueError m"
  by (cases v) (auto simp only: normalize_path_def json.case is_str.simps truthy.simps
      sum.inject sum.distinct not_True_eq_False not_False_eq_True simp_thms split: if_split_asm)

lemma canonical_last: "canonical_path s \<Longrightarrow> rstrip_char CHR ''/'' s = s"
proof -
  assume can: "canonical_path s"
  then have "s = [] \<or> last s \<noteq> CHR ''/''"
    using canonical_no_empty last_split_empty [of s "CHR ''/''"] by blast
  then show ?thesis by (rule rstrip_char_id)
qed

lemma permits_path_segments:
  assumes "\<forall>pre \<in> set (path_prefixes p). canonical_path pre"
  shows "permits_path p path \<longleftrightarrow>
    (\<exists>pre \<in> set (path_prefixes p). prefix (split_on CHR ''/'' pre) (split_on CHR ''/'' path))"
proof -
  have "path = pre \<or> startswith path (rstrip_char CHR ''/'' pre @ ''/'') \<longleftrightarrow>
        prefix (split_on CHR ''/'' pre) (split_on CHR ''/'' path)"
    if "pre \<in> set (path_prefixes p)" for pre
    using that assms startswith_segments [of path pre "CHR ''/''"] by (simp add: canonical_last)
  then show ?thesis by (auto simp: permits_path_def list_ex_iff)
qed

section \<open>Facts about the loader\<close>

text \<open>What the loader guarantees of every policy it produces.\<close>

definition wf_policy :: "instance_policy \<Rightarrow> bool" where
  "wf_policy p \<longleftrightarrow> path_prefixes p \<noteq> [] \<and> (\<forall>pre \<in> set (path_prefixes p). canonical_path pre)
     \<and> sorted (administration_families p) \<and> distinct (administration_families p)
     \<and> set (administration_families p) \<subseteq> set ADMINISTRATION_FAMILIES"

definition wf_config :: "broker_config \<Rightarrow> bool" where
  "wf_config cfg \<longleftrightarrow> instances cfg \<noteq> [] \<and>
     (\<forall>(name, p) \<in> set (instances cfg). ip_name p = name \<and> wf_policy p)"

lemma json_str_items_set: "s \<in> set (json_str_items xs) \<longleftrightarrow> JStr s \<in> set xs"
  by (induction xs rule: json_str_items.induct) auto

lemma json_str_items_nonempty: "list_all is_str xs \<Longrightarrow> json_str_items xs = [] \<longleftrightarrow> xs = []"
  by (cases xs rule: json_str_items.cases) auto

lemma check_prefix_Inr: "check_prefix name v = Inr u \<longleftrightarrow> (\<exists>s. v = JStr s \<and> canonical_path s)"
proof (cases "normalize_path v")
  case (Inl e)
  then show ?thesis
    using normalize_path_Inl [OF Inl] normalize_path_Inr [of v] by (auto simp: check_prefix_def)
next
  case (Inr t)
  then show ?thesis using normalize_path_Inr [of v t] by (auto simp: check_prefix_def)
qed

lemma load_families_wf:
  assumes "load_administration_families name spec = Inr fs"
  shows "sorted fs \<and> distinct fs \<and> set fs \<subseteq> set ADMINISTRATION_FAMILIES"
proof -
  define families where "families = (if truthy (dget spec ''administration_families'')
    then dget spec ''administration_families'' else JArr [])"
  from assms obtain xs where xs: "families = JArr xs"
    unfolding load_administration_families_def families_def [symmetric] Let_def
    by (cases families) simp_all
  with assms have unknown:
      "filter (\<lambda>f. \<not> List.member ADMINISTRATION_FAMILIES f) (remdups (json_str_items xs)) = []"
    and same_length: "length (json_str_items xs) = length (remdups (json_str_items xs))"
    and fs: "fs = sort (json_str_items xs)"
    unfolding load_administration_families_def families_def [symmetric] Let_def
    by (simp_all split: if_split_asm)
  from same_length have "distinct (json_str_items xs)"
    by (simp add: length_remdups_card_conv card_distinct)
  moreover from unknown have "set (json_str_items xs) \<subseteq> set ADMINISTRATION_FAMILIES"
    by (auto simp: filter_empty_conv)
  ultimately show ?thesis by (simp add: fs)
qed

lemma load_instance_policy_wf:
  assumes "load_instance_policy name spec = Inr p"
  shows "ip_name p = name \<and> wf_policy p"
proof -
  define prefixes where "prefixes = (if truthy (dget spec ''path_prefixes'')
    then dget spec ''path_prefixes'' else JArr [])"
  from assms obtain items fs where
    nonempty: "truthy prefixes" and items: "iter_json prefixes = Inr items"
    and each: "\<forall>x \<in> set items. check_prefix name x = Inr ()"
    and fs: "load_administration_families name spec = Inr fs"
    and p: "ip_name p = name" "path_prefixes p = json_str_items items" "administration_families p = fs"
    unfolding load_instance_policy_def Let_def prefixes_def [symmetric]
    by (auto simp: res_bind_Inr res_each_Inr split: if_splits)
  have canonical: "\<forall>s \<in> set (json_str_items items). canonical_path s"
    using each by (auto simp: json_str_items_set check_prefix_Inr)
  have "items \<noteq> []" using nonempty items by (cases prefixes) auto
  moreover have "list_all is_str items"
    using each by (auto simp: list_all_iff check_prefix_Inr)
  ultimately have "json_str_items items \<noteq> []" by (simp add: json_str_items_nonempty)
  with canonical p load_families_wf [OF fs] show ?thesis by (simp add: wf_policy_def)
qed

lemma load_instances_wf:
  assumes "load_instances raw = Inr insts"
  shows "insts \<noteq> [] \<and> map fst insts = map fst raw \<and>
    (\<forall>(name, p) \<in> set insts. ip_name p = name \<and> wf_policy p)"
proof -
  from assms have map: "list_all2 (\<lambda>x y. load_instance x = Inr y) raw insts" and "insts \<noteq> []"
    by (auto simp: load_instances_def res_bind_Inr res_map_Inr split: if_splits)
  moreover have "map fst insts = map fst raw"
    using map by (rule list_all2_map_fst)
      (auto simp: load_instance_def res_bind_Inr split: json.splits)
  moreover have "ip_name p = name \<and> wf_policy p" if "(name, p) \<in> set insts" for name p
  proof -
    from list_all2_in_set2 [OF map that] obtain x where "load_instance x = Inr (name, p)" by blast
    then obtain spec where "load_instance_policy name spec = Inr p"
      by (auto simp: load_instance_def res_bind_Inr split: json.splits)
    then show ?thesis by (rule load_instance_policy_wf)
  qed
  ultimately show ?thesis by auto
qed

lemma load_config_instances:
  "load_config env fs path = Inr cfg \<Longrightarrow> \<exists>raw. load_instances raw = Inr (instances cfg)"
  unfolding load_config_def Let_def
  by (auto simp add: res_bind_Inr split: option.split_asm prod.split_asm)

lemma load_config_wf: "load_config env fs path = Inr cfg \<Longrightarrow> wf_config cfg"
  using load_config_instances load_instances_wf unfolding wf_config_def by blast

lemma load_config_url:
  assumes "load_config env fs path = Inr cfg"
  shows "\<not> endswith (openbao_url cfg) ''/''"
proof -
  from assms obtain url where "openbao_url cfg = rstrip_char CHR ''/'' url"
    unfolding load_config_def Let_def
    by (auto simp: res_bind_Inr split: option.split_asm prod.split_asm)
  then show ?thesis by (simp add: rstrip_not_ending)
qed

end
