(* ===== verification/Broker_Identity.thy ===== *)
theory Broker_Identity
  imports Broker_Config
begin

text \<open>
  \<^verbatim>\<open>broker/identity.py\<close> and \<^verbatim>\<open>broker/tls_scope.py\<close>: the caller's name is read out of the
  peer certificate that the TLS layer verified, which the protocol subclass publishes in the ASGI
  scope. The certificate is the dictionary \<open>ssl.SSLObject.getpeercert\<close> returns, tuples as
  \<open>JArr\<close>; shapes that the \<open>ssl\<close> module never produces are modelled too, because the code
  answers them with an \<open>IdentityError\<close>.
\<close>

section \<open>Reading the common name\<close>

text \<open>\<open>for attribute, value in rdn\<close>: unpacking takes exactly two elements.\<close>

definition unpack_pair :: "json \<Rightarrow> (json \<times> json) res" where
  "unpack_pair v = res_bind (iter_json v) (\<lambda>xs. case xs of
       [a, b] \<Rightarrow> Inr (a, b)
     | _ \<Rightarrow> Inl (ValueError ''unpack''))"

text \<open>The inner loop: the value of the first non-empty common name of one RDN.\<close>

primrec common_name_in_rdn :: "json list \<Rightarrow> json option res" where
  "common_name_in_rdn [] = Inr None"
| "common_name_in_rdn (p # ps) = res_bind (unpack_pair p) (\<lambda>(attribute, value).
     if py_eq attribute (JStr ''commonName'') \<and> truthy value then Inr (Some value)
     else common_name_in_rdn ps)"

text \<open>The outer loop over the RDNs.\<close>

primrec common_name_in_subject :: "json list \<Rightarrow> json option res" where
  "common_name_in_subject [] = Inr None"
| "common_name_in_subject (rdn # rdns) = res_bind (iter_json rdn) (\<lambda>ps.
     res_bind (common_name_in_rdn ps) (\<lambda>found. case found of
       Some v \<Rightarrow> Inr (Some v)
     | None \<Rightarrow> common_name_in_subject rdns))"

text \<open>\<open>except (AttributeError, TypeError, ValueError)\<close>\<close>

fun is_shape_error :: "exn \<Rightarrow> bool" where
  "is_shape_error AttributeError = True"
| "is_shape_error TypeError = True"
| "is_shape_error (ValueError m) = True"
| "is_shape_error _ = False"

definition subject_of :: "json \<Rightarrow> json list res" where
  "subject_of cert = (case cert of
       JObj d \<Rightarrow> iter_json (dget_or d ''subject'' (JArr []))
     | _ \<Rightarrow> Inl AttributeError)"

definition common_name_from_peer_cert :: "json \<Rightarrow> json res" where
  "common_name_from_peer_cert peer_cert =
     (if \<not> truthy peer_cert then Inl (IdentityError ''No client certificate was presented.'')
      else case res_bind (subject_of peer_cert) common_name_in_subject of
          Inr (Some v) \<Rightarrow> Inr v
        | Inr None \<Rightarrow> Inl (IdentityError ''The client certificate has no subject common name.'')
        | Inl e \<Rightarrow>
            if is_shape_error e
            then Inl (IdentityError ''The client certificate could not be read.'') else Inl e)"

definition NO_TLS_MESSAGE :: string where
  "NO_TLS_MESSAGE = ''No TLS information on this connection. The broker terminates TLS itself so it can ''
     @ ''see the client certificate; running it behind a terminating proxy is unsupported.''"

text \<open>\<open>.get\<close> on a value that is not a dictionary is an \<open>AttributeError\<close>.\<close>

definition get_attr :: "json \<Rightarrow> string \<Rightarrow> json res" where
  "get_attr v k = (case v of JObj d \<Rightarrow> Inr (dget d k) | _ \<Rightarrow> Inl AttributeError)"

definition identity_from_scope :: "dict \<Rightarrow> json res" where
  "identity_from_scope scope =
     res_bind (let ext = dget scope ''extensions''
               in get_attr (if truthy ext then ext else JObj []) ''tls'') (\<lambda>tls.
       if \<not> truthy tls then Inl (IdentityError NO_TLS_MESSAGE)
       else res_bind (get_attr tls ''peercert'') common_name_from_peer_cert)"

section \<open>Publishing the certificate\<close>

text \<open>What the TLS layer holds for one connection (\<open>getpeercert\<close>, \<open>cipher\<close>, \<open>version\<close>).\<close>

record ssl_object =
  ssl_peercert :: json
  ssl_cipher :: json
  ssl_version :: json

text \<open>The two attributes of \<open>TLSAwareProtocol\<close>.\<close>

record tls_protocol =
  tp_ssl_object :: "ssl_object option"
  tp_scope :: "dict option"

definition new_protocol :: tls_protocol where
  "new_protocol = \<lparr>tp_ssl_object = None, tp_scope = None\<rparr>"

text \<open>\<open>connection_made\<close>: \<open>transport.get_extra_info('ssl_object')\<close> is the argument.\<close>

definition connection_made :: "ssl_object option \<Rightarrow> tls_protocol \<Rightarrow> tls_protocol" where
  "connection_made so p = p\<lparr>tp_ssl_object := so\<rparr>"

definition tls_extension :: "ssl_object \<Rightarrow> json" where
  "tls_extension so = JObj [(''peercert'', ssl_peercert so), (''cipher'', ssl_cipher so),
                            (''tls_version'', ssl_version so)]"

text \<open>
  The \<open>scope\<close> setter: \<open>setdefault\<close> keeps an \<open>extensions\<close> entry that is there, and the
  assignment of \<open>'tls'\<close> into it overwrites one that is there. Item assignment on a value that is
  not a dictionary is a \<open>TypeError\<close>.
\<close>

definition set_scope :: "dict \<Rightarrow> tls_protocol \<Rightarrow> tls_protocol res" where
  "set_scope value p = (case tp_ssl_object p of
       None \<Rightarrow> Inr (p\<lparr>tp_scope := Some value\<rparr>)
     | Some so \<Rightarrow>
         (case dget_or value ''extensions'' (JObj []) of
            JObj e \<Rightarrow> Inr (p\<lparr>tp_scope := Some (dput ''extensions''
                                (JObj (dput ''tls'' (tls_extension so) e)) value)\<rparr>)
          | _ \<Rightarrow> Inl TypeError))"

section \<open>Facts\<close>

text \<open>A common name of a parsed certificate: a non-empty value of some \<open>commonName\<close> pair.\<close>

definition has_common_name :: "json \<Rightarrow> json \<Rightarrow> bool" where
  "has_common_name cert v \<longleftrightarrow> truthy v \<and>
     (\<exists>rdns ps. subject_of cert = Inr rdns \<and> (\<exists>rdn \<in> set rdns. iter_json rdn = Inr ps \<and>
        (\<exists>p \<in> set ps. unpack_pair p = Inr (JStr ''commonName'', v))))"

lemma common_name_in_rdn_Some:
  "common_name_in_rdn ps = Inr (Some v) \<Longrightarrow>
     truthy v \<and> (\<exists>p \<in> set ps. unpack_pair p = Inr (JStr ''commonName'', v))"
  by (induction ps) (auto simp: res_bind_Inr split: if_splits)

lemma common_name_in_subject_Some:
  "common_name_in_subject rdns = Inr (Some v) \<Longrightarrow>
     \<exists>rdn \<in> set rdns. \<exists>ps. iter_json rdn = Inr ps \<and> common_name_in_rdn ps = Inr (Some v)"
  by (induction rdns) (auto simp: res_bind_Inr split: option.splits)

lemma common_name_sound:
  assumes "common_name_from_peer_cert cert = Inr v"
  shows "truthy cert \<and> has_common_name cert v"
proof -
  from assms obtain rdns where cert: "truthy cert" "subject_of cert = Inr rdns"
    and "common_name_in_subject rdns = Inr (Some v)"
    by (auto simp: common_name_from_peer_cert_def res_bind_Inr
        split: if_splits sum.splits option.splits)
  with common_name_in_subject_Some common_name_in_rdn_Some show ?thesis
    unfolding has_common_name_def by blast
qed

lemma iter_json_error: "iter_json v = Inl e \<Longrightarrow> is_shape_error e"
  by (cases v) auto

lemma unpack_pair_error:
  assumes "unpack_pair v = Inl e"
  shows "is_shape_error e"
proof (cases "iter_json v")
  case (Inl e')
  with assms show ?thesis by (simp add: unpack_pair_def iter_json_error)
next
  case (Inr xs)
  with assms show ?thesis by (auto simp: unpack_pair_def split: list.split_asm)
qed

lemma common_name_in_rdn_error: "common_name_in_rdn ps = Inl e \<Longrightarrow> is_shape_error e"
  by (induction ps) (auto simp: res_bind_Inl dest: unpack_pair_error split: if_splits)

lemma common_name_in_subject_error: "common_name_in_subject rdns = Inl e \<Longrightarrow> is_shape_error e"
  by (induction rdns)
    (auto simp: res_bind_Inl dest: iter_json_error common_name_in_rdn_error split: option.splits)

lemma subject_error: "res_bind (subject_of cert) common_name_in_subject = Inl e \<Longrightarrow> is_shape_error e"
  by (auto simp: res_bind_Inl subject_of_def
      dest: iter_json_error common_name_in_subject_error split: json.splits)

text \<open>No certificate, however malformed, escapes as anything but an identity error.\<close>

lemma common_name_total:
  "common_name_from_peer_cert cert = Inl e \<Longrightarrow> \<exists>m. e = IdentityError m"
  by (auto simp: common_name_from_peer_cert_def dest: subject_error
      split: if_splits sum.splits option.splits)

lemma identity_extension_only:
  "dget scope ''extensions'' = dget scope' ''extensions'' \<Longrightarrow>
     identity_from_scope scope = identity_from_scope scope'"
  by (simp add: identity_from_scope_def)

lemma dget_dput: "dget (dput k v d) k' = (if k' = k then v else dget d k')"
  by (simp add: dget_def)

lemma identity_of_set_scope:
  assumes "tp_ssl_object p = Some so" and "set_scope value p = Inr p'"
  shows "\<exists>scope. tp_scope p' = Some scope \<and>
    identity_from_scope scope = common_name_from_peer_cert (ssl_peercert so)"
proof -
  from assms obtain e where e: "tp_scope p' = Some (dput ''extensions''
      (JObj (dput ''tls'' (tls_extension so) e)) value)"
    by (auto simp: set_scope_def split: json.splits)
  have "dput ''tls'' (tls_extension so) e \<noteq> []" by (cases e) (auto split: if_splits)
  then show ?thesis
    by (simp add: e identity_from_scope_def dget_dput get_attr_def tls_extension_def)
qed

lemma identity_without_tls:
  assumes "map_of scope ''extensions'' = None \<or> (\<exists>e. map_of scope ''extensions'' = Some (JObj e)
    \<and> map_of e ''tls'' = None)"
  shows "identity_from_scope scope = Inl (IdentityError NO_TLS_MESSAGE)"
  using assms by (auto simp: identity_from_scope_def dget_def get_attr_def Let_def)

end
