(* ===== verification/Broker_Audit.thy ===== *)
theory Broker_Audit
  imports Py_Json
begin

text \<open>
  \<^verbatim>\<open>broker/audit.py\<close>: the append-only record of what was asked, by whom, and how it went.
  An entry holds exactly the named parameters of \<open>AuditLog.record\<close>; what is written is one
  line of JSON per entry. The logger that carries the line to standard output is in \<open>Broker_Logging\<close>;
  the clock is outside the model: the time stamp is an argument.
\<close>

record audit_entry =
  ae_instance :: json
  ae_operation :: string
  ae_path :: "string option"
  ae_outcome :: string
  ae_reason :: "string option"
  ae_request_id :: string
  ae_version :: json

type_synonym audit_log = "audit_entry list"

definition opt_str :: "string option \<Rightarrow> json" where
  "opt_str x = (case x of None \<Rightarrow> JNull | Some s \<Rightarrow> JStr s)"

definition audit_object :: "string \<Rightarrow> audit_entry \<Rightarrow> json" where
  "audit_object ts e = JObj
     [(''ts'', JStr ts),
      (''instance'', if truthy (ae_instance e) then ae_instance e else JStr ''-''),
      (''operation'', JStr (ae_operation e)),
      (''path'', if truthy (opt_str (ae_path e)) then opt_str (ae_path e) else JStr ''-''),
      (''outcome'', JStr (ae_outcome e)),
      (''reason'', opt_str (ae_reason e)),
      (''request_id'', JStr (ae_request_id e)),
      (''version'', ae_version e)]"

text \<open>The line: \<open>json.dumps(..., separators=(',', ':'), sort_keys=True)\<close>.\<close>

definition audit_line :: "string \<Rightarrow> audit_entry \<Rightarrow> string option" where
  "audit_line ts e = json_dumps (sort_json (audit_object ts e))"

section \<open>Facts\<close>

text \<open>The line spelled out, with the fields in the order of their names.\<close>

lemma audit_line_fields:
  assumes "ae_instance e = JStr i" and "i \<noteq> []" and "ae_version e = JNull \<or> ae_version e = JInt n"
  shows "audit_line ts e = Some (''{'' @ join_str '',''
    [json_string ''instance'' @ '':'' @ json_string i,
     json_string ''operation'' @ '':'' @ json_string (ae_operation e),
     json_string ''outcome'' @ '':'' @ json_string (ae_outcome e),
     json_string ''path'' @ '':'' @ json_string (case ae_path e of Some p \<Rightarrow> if p = [] then ''-'' else p | None \<Rightarrow> ''-''),
     json_string ''reason'' @ '':'' @ (case ae_reason e of Some r \<Rightarrow> json_string r | None \<Rightarrow> ''null''),
     json_string ''request_id'' @ '':'' @ json_string (ae_request_id e),
     json_string ''ts'' @ '':'' @ json_string ts,
     json_string ''version'' @ '':'' @ (if ae_version e = JNull then ''null'' else str_int n)] @ ''}'')"
proof -
  have "sort_json (audit_object ts e) = JObj
     [(''instance'', JStr i), (''operation'', JStr (ae_operation e)), (''outcome'', JStr (ae_outcome e)),
      (''path'', if truthy (opt_str (ae_path e)) then opt_str (ae_path e) else JStr ''-''),
      (''reason'', opt_str (ae_reason e)), (''request_id'', JStr (ae_request_id e)),
      (''ts'', JStr ts), (''version'', ae_version e)]"
    using assms by (auto simp: audit_object_def opt_str_def less_char_def less_eq_char_def split: option.splits)
  with assms(3) show ?thesis
    by (auto simp: audit_line_def opt_str_def split: option.splits)
qed

lemma audit_line_printable: "audit_line ts e = Some t \<Longrightarrow> c \<in> set t \<Longrightarrow> printable c"
  using printable_dumps(1) unfolding audit_line_def by blast

end
