(* ===== verification/Vault_State.thy ===== *)
theory Vault_State
  imports Broker_Identity Broker_Audit
begin

text \<open>
  The state of a running broker and the world around it. OpenBao, the \<open>hvac\<close> and \<open>requests\<close>
  libraries and the file system are parameters: a \<open>world\<close> answers each call, and its answer may
  depend on everything that was sent before, so that a theorem about every world is a theorem about
  every behaviour of the server and the network. Every call that leaves the process is appended to
  the call log \<open>bs_calls\<close>, which is what "before OpenBao is contacted" is stated on.
\<close>

section \<open>Calls\<close>

text \<open>\<open>ca_cert_path or tls_verify\<close>\<close>

datatype verify = VerifyPath string | VerifyFlag bool

text \<open>The attributes \<open>hvac.Client\<close> is built with, and the token it carries.\<close>

record hvac_client =
  hc_url :: string
  hc_namespace :: "string option"
  hc_verify :: verify
  hc_timeout :: nat
  hc_token :: "json option"

datatype kv_call =
    KvReadSecretVersion string "int option" string
  | KvCreateOrUpdateSecret string dict "int option" string
  | KvDeleteSecretVersions string "int list" string
  | KvDeleteMetadataAndAllVersions string string
  | KvReadSecretMetadata string string
  | KvUpdateMetadata string dict string

record http_request =
  rq_method :: string
  rq_url :: string
  rq_headers :: "(string \<times> json) list"
  rq_json :: "json option"
  rq_data :: "string option"
  rq_params :: "dict option"
  rq_timeout :: "nat \<times> nat"
  rq_verify :: verify
  rq_allow_redirects :: bool
  rq_stream :: bool

datatype call =
    LoginCall hvac_client string string
  | KvCall hvac_client kv_call
  | HealthCall hvac_client
  | HttpCall http_request

text \<open>
  What the libraries may raise: the exceptions of \<open>hvac\<close> by class and text, the transport
  failures of \<open>requests\<close>, and anything else.
\<close>

datatype lib_exn = LibHvac hvac_kind string | LibRequest | LibOther string

fun raised :: "lib_exn \<Rightarrow> exn" where
  "raised (LibHvac k text) = HvacExn k text"
| "raised LibRequest = RequestException"
| "raised (LibOther n) = OtherException n"

definition from_lib :: "lib_exn + 'a \<Rightarrow> 'a res" where
  "from_lib r = (case r of Inl e \<Rightarrow> Inl (raised e) | Inr x \<Rightarrow> Inr x)"

text \<open>
  A response of \<open>requests\<close>: the body is the sequence of chunks \<open>iter_content\<close> yields, and the
  exception it ends with when the transport fails on the way.
\<close>

record http_response =
  rs_status :: nat
  rs_is_redirect :: bool
  rs_headers :: "(string \<times> string) list"
  rs_chunks :: "string list"
  rs_failure :: "lib_exn option"

text \<open>
  What \<open>read_health_status\<close> may return: a parsed value, or a response object whose \<open>json()\<close>
  either parses or raises \<open>ValueError\<close>. \<open>w_json_loads\<close> is \<open>json.loads\<close>, with \<open>None\<close> for a
  \<open>ValueError\<close>; \<open>w_fromisoformat\<close> tells the texts \<open>datetime.fromisoformat\<close> accepts, which differ
  between the interpreter's versions.
\<close>

datatype health_reply = HealthValue json | HealthResponse "json option"

record world =
  w_login :: "call list \<Rightarrow> call \<Rightarrow> lib_exn + json"
  w_kv :: "call list \<Rightarrow> call \<Rightarrow> lib_exn + json"
  w_health :: "call list \<Rightarrow> call \<Rightarrow> lib_exn + health_reply"
  w_http :: "call list \<Rightarrow> http_request \<Rightarrow> lib_exn + http_response"
  w_json_loads :: "string \<Rightarrow> json option"
  w_fromisoformat :: "string \<Rightarrow> bool"
  w_env :: "string \<Rightarrow> string option"
  w_read_text :: "call list \<Rightarrow> string \<Rightarrow> string option"

section \<open>The state\<close>

text \<open>
  \<open>bs_client\<close> and \<open>bs_locked\<close> are the two attributes of \<open>VaultClient\<close>; \<open>bs_open\<close> holds
  the open streaming responses, each named by its position in the call log.
\<close>

record broker_state =
  bs_client :: "hvac_client option"
  bs_locked :: bool
  bs_calls :: "call list"
  bs_open :: "nat list"
  bs_audit :: audit_log

definition init_state :: broker_state where
  "init_state = \<lparr>bs_client = None, bs_locked = False, bs_calls = [], bs_open = [], bs_audit = []\<rparr>"

type_synonym 'a bop = "(broker_state, 'a) op"

section \<open>Primitive operations\<close>

definition audit_record :: "audit_entry \<Rightarrow> unit bop" where
  "audit_record e = (\<lambda>s. (Inr (), s\<lparr>bs_audit := bs_audit s @ [e]\<rparr>))"

definition log_call :: "call \<Rightarrow> broker_state \<Rightarrow> broker_state" where
  "log_call c s = s\<lparr>bs_calls := bs_calls s @ [c]\<rparr>"

definition send_login :: "world \<Rightarrow> hvac_client \<Rightarrow> string \<Rightarrow> string \<Rightarrow> json bop" where
  "send_login w client role_id secret_id = (\<lambda>s.
     let c = LoginCall client role_id secret_id in (from_lib (w_login w (bs_calls s) c), log_call c s))"

definition send_kv :: "world \<Rightarrow> hvac_client \<Rightarrow> kv_call \<Rightarrow> json bop" where
  "send_kv w client kv = (\<lambda>s. let c = KvCall client kv in (from_lib (w_kv w (bs_calls s) c), log_call c s))"

definition send_health :: "world \<Rightarrow> hvac_client \<Rightarrow> health_reply bop" where
  "send_health w client = (\<lambda>s. let c = HealthCall client in (from_lib (w_health w (bs_calls s) c), log_call c s))"

text \<open>\<open>requests.request\<close>: an answered request leaves a response to be closed.\<close>

definition send_http :: "world \<Rightarrow> http_request \<Rightarrow> (nat \<times> http_response) bop" where
  "send_http w rq = (\<lambda>s.
     let i = length (bs_calls s); s' = log_call (HttpCall rq) s
     in case w_http w (bs_calls s) rq of
          Inl e \<Rightarrow> (Inl (raised e), s')
        | Inr rs \<Rightarrow> (Inr (i, rs), s'\<lparr>bs_open := i # bs_open s\<rparr>))"

definition close_response :: "nat \<Rightarrow> broker_state \<Rightarrow> broker_state" where
  "close_response i s = s\<lparr>bs_open := filter (\<lambda>j. j \<noteq> i) (bs_open s)\<rparr>"

text \<open>
  \<open>with self._lock: body\<close> for a \<open>threading.Lock\<close>, which is not reentrant: a thread that already
  holds it waits for ever. (Other threads are the subject of the lock protocol; here the body runs
  to its end.)
\<close>

definition with_lock :: "'a bop \<Rightarrow> 'a bop" where
  "with_lock m = (\<lambda>s. if bs_locked s then (Inl Deadlock, s)
     else case m (s\<lparr>bs_locked := True\<rparr>) of
            (r, s') \<Rightarrow> if r = Inl Deadlock then (r, s') else (r, s'\<lparr>bs_locked := False\<rparr>))"

definition close_op :: "nat \<Rightarrow> unit bop" where
  "close_op i = (\<lambda>s. (Inr (), close_response i s))"

definition get_calls :: "call list bop" where
  "get_calls = (\<lambda>s. (Inr (bs_calls s), s))"

definition get_client :: "hvac_client option bop" where
  "get_client = (\<lambda>s. (Inr (bs_client s), s))"

definition set_client :: "hvac_client option \<Rightarrow> unit bop" where
  "set_client c = (\<lambda>s. (Inr (), s\<lparr>bs_client := c\<rparr>))"

text \<open>Subscripting a parsed value with a string key.\<close>

definition json_index :: "json \<Rightarrow> string \<Rightarrow> json res" where
  "json_index v k = (case v of JObj d \<Rightarrow> dindex d k | _ \<Rightarrow> Inl TypeError)"

lemma raised_not_deadlock [simp]: "raised e \<noteq> Deadlock"
  by (cases e) simp_all

lemma from_lib_simps [simp]: "from_lib (Inl e) = Inl (raised e)" "from_lib (Inr x) = Inr x"
  by (simp_all add: from_lib_def)

lemma from_lib_not_deadlock [simp]: "from_lib r \<noteq> Inl Deadlock"
  by (cases r) simp_all

section \<open>What an operation does to the state\<close>

text \<open>Logs only grow.\<close>

definition logs_grow :: "broker_state \<Rightarrow> broker_state \<Rightarrow> bool" where
  "logs_grow s t \<longleftrightarrow> prefix (bs_calls s) (bs_calls t) \<and> prefix (bs_audit s) (bs_audit t)"

text \<open>The audit log is untouched: what every operation of the vault client satisfies.\<close>

definition audit_same :: "broker_state \<Rightarrow> broker_state \<Rightarrow> bool" where
  "audit_same s t \<longleftrightarrow> bs_audit s = bs_audit t \<and> prefix (bs_calls s) (bs_calls t)"

text \<open>
  The open responses are exactly those open before: nothing is leaked. The responses are named by
  their positions in the call log, so a new one is never mistaken for an old one.
\<close>

definition open_wf :: "broker_state \<Rightarrow> bool" where
  "open_wf s \<longleftrightarrow> (\<forall>i \<in> set (bs_open s). i < length (bs_calls s))"

definition open_same :: "broker_state \<Rightarrow> broker_state \<Rightarrow> bool" where
  "open_same s t \<longleftrightarrow> length (bs_calls s) \<le> length (bs_calls t) \<and>
     (open_wf s \<longrightarrow> open_wf t \<and> bs_open t = bs_open s)"

lemma log_call_simps [simp]:
  "bs_client (log_call c s) = bs_client s" "bs_locked (log_call c s) = bs_locked s"
  "bs_calls (log_call c s) = bs_calls s @ [c]" "bs_open (log_call c s) = bs_open s"
  "bs_audit (log_call c s) = bs_audit s"
  by (simp_all add: log_call_def)

lemma close_response_simps [simp]:
  "bs_client (close_response i s) = bs_client s" "bs_locked (close_response i s) = bs_locked s"
  "bs_calls (close_response i s) = bs_calls s" "bs_audit (close_response i s) = bs_audit s"
  "bs_open (close_response i s) = filter (\<lambda>j. j \<noteq> i) (bs_open s)"
  by (simp_all add: close_response_def)

text \<open>What was called in between, when every one of the new calls satisfies a predicate.\<close>

definition calls_within :: "(call \<Rightarrow> bool) \<Rightarrow> broker_state \<Rightarrow> broker_state \<Rightarrow> bool" where
  "calls_within P s t \<longleftrightarrow> (\<exists>new. bs_calls t = bs_calls s @ new \<and> (\<forall>c \<in> set new. P c))"

text \<open>
  What the vault client relies on to respect a relation: that its kinds of state change do, for the calls
  that are \<open>allowed\<close> (a login always is). Its lemmas are proved once, for the calls that carry no
  streaming response (\<open>client_preorder\<close>) and for an HTTP exchange that opens a response and closes it
  again (\<open>exchange_preorder\<close>).
\<close>

named_theorems client_ops \<open>operations of the vault client respect the relation\<close>

locale client_preorder = state_preorder R for R :: "broker_state \<Rightarrow> broker_state \<Rightarrow> bool" +
  fixes allowed :: "call \<Rightarrow> bool"
  assumes call_step: "allowed c \<Longrightarrow> R s (log_call c s)"
    and login_allowed: "allowed (LoginCall client role_id secret_id)"
    and client_step: "R s (s\<lparr>bs_client := cached\<rparr>)"
    and lock_step: "R s (s\<lparr>bs_locked := b\<rparr>)"
begin

lemma primitive_rel [client_ops]:
  "op_rel R (send_login w client r sec)"
  "allowed (KvCall client kv) \<Longrightarrow> op_rel R (send_kv w client kv)"
  "allowed (HealthCall client) \<Longrightarrow> op_rel R (send_health w client)"
  "op_rel R get_calls"
  "op_rel R get_client"
  "op_rel R (set_client cached)"
  by (simp_all add: op_rel_def send_login_def send_kv_def send_health_def get_calls_def
      get_client_def set_client_def Let_def call_step login_allowed client_step R_refl)

lemma with_lock_rel [client_ops]:
  assumes m: "op_rel R m"
  shows "op_rel R (with_lock m)"
proof (rule op_relI)
  fix s r s' assume run: "with_lock m s = (r, s')"
  obtain r1 s1 where s1: "m (s\<lparr>bs_locked := True\<rparr>) = (r1, s1)"
    by (cases "m (s\<lparr>bs_locked := True\<rparr>)")
  from op_relD [OF m this] have "R s s1" by (rule R_trans [OF lock_step])
  moreover have "R s1 (s1\<lparr>bs_locked := False\<rparr>)" by (rule lock_step)
  moreover from run s1 have "s' = s \<or> s' = s1 \<or> s' = s1\<lparr>bs_locked := False\<rparr>"
    unfolding with_lock_def by (simp split: if_split_asm)
  ultimately show "R s s'" by (elim disjE) (simp_all add: R_refl R_trans [of s s1])
qed

lemma case_option_rel [client_ops]:
  "op_rel R m \<Longrightarrow> (\<And>x. op_rel R (f x)) \<Longrightarrow>
   op_rel R (case v of None \<Rightarrow> m | Some x \<Rightarrow> f x)"
  by (cases v) simp_all

end

locale exchange_preorder = client_preorder +
  assumes exchange_step: "allowed (HttpCall rq) \<Longrightarrow>
    R s (close_response (length (bs_calls s))
      (log_call (HttpCall rq) s\<lparr>bs_open := length (bs_calls s) # bs_open s\<rparr>))"
begin

text \<open>An answered request whose response is closed by a \<open>finally\<close>, whatever the answer is turned into.\<close>

lemma send_close_rel:
  assumes rq: "allowed (HttpCall rq)" and f: "\<And>rs. f rs \<noteq> Inl Deadlock"
  shows "op_rel R (bind_op (catch_op (send_http w rq) (\<lambda>e. throw (g e)))
    (\<lambda>(i, rs). finally_op (lift_res (f rs)) (close_response i)))"
  unfolding op_rel_def
proof
  fix s
  show "R s (snd (bind_op (catch_op (send_http w rq) (\<lambda>e. throw (g e)))
    (\<lambda>(i, rs). finally_op (lift_res (f rs)) (close_response i)) s))"
  proof (cases "w_http w (bs_calls s) rq")
    case (Inl e)
    then show ?thesis
      by (simp add: bind_op_run catch_op_run send_http_def Let_def call_step rq)
  next
    case (Inr rs)
    then show ?thesis
      using f [of rs] exchange_step [OF rq, of s]
      by (simp add: bind_op_run catch_op_run finally_op_run send_http_def Let_def)
  qed
qed

lemma exchange_rel:
  assumes prep: "op_rel R prep" and rq: "\<And>h. allowed (HttpCall (rq h))"
    and f: "\<And>rs. f rs \<noteq> Inl Deadlock"
  shows "op_rel R (bind_op (catch_op (bind_op prep (\<lambda>h. send_http w (rq h))) (\<lambda>e. throw (g e)))
    (\<lambda>(i, rs). finally_op (lift_res (f rs)) (close_response i)))" (is "op_rel R ?m")
proof (rule op_relI)
  fix s r s' assume run: "?m s = (r, s')"
  obtain r1 s1 where prep1: "prep s = (r1, s1)" by (cases "prep s")
  then have first: "R s s1" using prep by (blast dest: op_relD)
  show "R s s'"
  proof (cases r1)
    case (Inl e)
    with prep1 run have "s' = s1" by (simp add: bind_op_run catch_op_run split: if_split_asm)
    with first show ?thesis by simp
  next
    case (Inr h)
    have eq: "?m s = bind_op (catch_op (send_http w (rq h)) (\<lambda>e. throw (g e)))
        (\<lambda>(i, rs). finally_op (lift_res (f rs)) (close_response i)) s1"
      using prep1 Inr by (simp add: bind_op_run catch_op_run)
    have "R s1 (snd (?m s))" unfolding eq
      using send_close_rel [OF rq [of h] f, of w g] by (simp add: op_rel_def)
    then have "R s1 s'" by (simp add: run)
    with first show ?thesis by (rule R_trans)
  qed
qed

end

interpretation growing: exchange_preorder logs_grow "\<lambda>c. True"
  by unfold_locales (auto simp: logs_grow_def)

interpretation unaudited: exchange_preorder audit_same "\<lambda>c. True"
  by unfold_locales (auto simp: audit_same_def)

lemma open_wf_fresh: "open_wf s \<Longrightarrow> filter (\<lambda>j. j \<noteq> length (bs_calls s)) (bs_open s) = bs_open s"
  by (auto simp: open_wf_def intro: filter_True)

interpretation unleaked: exchange_preorder open_same "\<lambda>c. True"
proof
  show "open_same s s" for s by (simp add: open_same_def)
  show "open_same s u" if "open_same s t" and "open_same t u" for s t u
    using that by (auto simp: open_same_def)
  show "open_same s (log_call c s)" for s c by (auto simp: open_same_def open_wf_def)
  show "open_same s (s\<lparr>bs_client := cached\<rparr>)" for s cached by (simp add: open_same_def open_wf_def)
  show "open_same s (s\<lparr>bs_locked := b\<rparr>)" for s b by (simp add: open_same_def open_wf_def)
  show "open_same s (close_response (length (bs_calls s))
      (log_call (HttpCall rq) s\<lparr>bs_open := length (bs_calls s) # bs_open s\<rparr>))" for s rq
    using open_wf_fresh [of s] by (auto simp: open_same_def open_wf_def)
qed auto

lemma calls_within_refl: "calls_within P s s"
  by (simp add: calls_within_def)

lemma calls_within_trans: "calls_within P s t \<Longrightarrow> calls_within P t u \<Longrightarrow> calls_within P s u"
  by (force simp: calls_within_def)

lemma calls_within_same: "bs_calls t = bs_calls s \<Longrightarrow> calls_within P s t"
  by (simp add: calls_within_def)

fun is_login :: "call \<Rightarrow> bool" where
  "is_login (LoginCall client role_id secret_id) = True"
| "is_login _ = False"

abbreviation login_or :: "(call \<Rightarrow> bool) \<Rightarrow> call \<Rightarrow> bool" where
  "login_or P \<equiv> \<lambda>c. is_login c \<or> P c"

interpretation confined: exchange_preorder "calls_within (login_or P)" "login_or P" for P
proof
  show "calls_within (login_or P) s s" for s by (rule calls_within_refl)
  show "calls_within (login_or P) s u"
    if "calls_within (login_or P) s t" and "calls_within (login_or P) t u" for s t u
    using that by (rule calls_within_trans)
qed (simp_all add: calls_within_def)

lemma audit_same_grow: "audit_same s t \<Longrightarrow> logs_grow s t"
  by (simp add: audit_same_def logs_grow_def)

lemma unaudited_growing: "op_rel audit_same m \<Longrightarrow> op_rel logs_grow m"
  by (simp add: op_rel_def audit_same_grow)

lemma send_http_unaudited [client_ops]: "op_rel audit_same (send_http w rq)"
  by (simp add: op_rel_def audit_same_def send_http_def Let_def split: sum.splits)

lemma close_op_unaudited [client_ops]: "op_rel audit_same (close_op i)"
  by (simp add: op_rel_def audit_same_def close_op_def)

lemma close_unaudited: "audit_same s (close_response i s)"
  by (simp add: audit_same_def)

end
