(* ===== verification/Vault_Client.thy ===== *)
theory Vault_Client
  imports Vault_State
begin

text \<open>
  The authenticated client of \<^verbatim>\<open>broker/vault.py\<close>: the error classes with their texts and
  status codes, the lazy login under the lock, the translation of library exceptions, the six
  operations on the KV mount, and the health probe.
\<close>

section \<open>Errors\<close>

fun default_message :: "vault_kind \<Rightarrow> string" where
  "default_message VaultError = ''OpenBao request failed.''"
| "default_message VaultNotFound = ''No secret at that path.''"
| "default_message VaultConflict = ''The secret was modified concurrently; the write was refused.''"
| "default_message VaultUnavailable = ''OpenBao is unreachable or sealed.''"
| "default_message VaultMutationUnknown =
     ''The OpenBao mutation outcome is unknown. Do not retry automatically.''"
| "default_message VaultMisconfigured = ''The broker cannot authenticate to OpenBao.''"

fun status_code :: "vault_kind \<Rightarrow> nat" where
  "status_code VaultError = 502"
| "status_code VaultNotFound = 404"
| "status_code VaultConflict = 409"
| "status_code VaultUnavailable = 503"
| "status_code VaultMutationUnknown = 503"
| "status_code VaultMisconfigured = 503"

text \<open>\<open>VaultError.__init__\<close>: \<open>message or self.default_message\<close>.\<close>

definition vault_exn :: "vault_kind \<Rightarrow> string \<Rightarrow> exn" where
  "vault_exn k message = VaultExn k (if message = [] then default_message k else message)"

section \<open>Authentication\<close>

definition verify_of :: "broker_config \<Rightarrow> verify" where
  "verify_of cfg = (case ca_cert_path cfg of
       Some p \<Rightarrow> if p = [] then VerifyFlag (tls_verify cfg) else VerifyPath p
     | None \<Rightarrow> VerifyFlag (tls_verify cfg))"

definition new_hvac_client :: "broker_config \<Rightarrow> nat \<Rightarrow> hvac_client" where
  "new_hvac_client cfg timeout =
     \<lparr>hc_url = openbao_url cfg, hc_namespace = namespace cfg, hc_verify = verify_of cfg,
      hc_timeout = timeout, hc_token = None\<rparr>"

definition invalidate :: "unit bop" where
  "invalidate = with_lock (set_client None)"

text \<open>
  \<open>_translate\<close> returns the error to raise. The text of the library's exception is looked at only
  to tell a check-and-set conflict; it never becomes part of the result. A refused AppRole
  invalidates the cached client, which takes the lock.
\<close>

definition is_cas_text :: "string \<Rightarrow> bool" where
  "is_cas_text text \<longleftrightarrow> (let t = lower text in
     contains t ''check-and-set'' \<or> List.member (split_ws t) ''cas'')"

definition translate :: "exn \<Rightarrow> exn bop" where
  "translate e = (case e of
       HvacExn k text \<Rightarrow> (case k of
           HvForbidden \<Rightarrow> bind_op invalidate (\<lambda>_.
             ret (vault_exn VaultError ''The broker could not authenticate to OpenBao.''))
         | HvUnauthorized \<Rightarrow> bind_op invalidate (\<lambda>_.
             ret (vault_exn VaultError ''The broker could not authenticate to OpenBao.''))
         | HvInvalidPath \<Rightarrow> ret (vault_exn VaultNotFound [])
         | HvInvalidRequest \<Rightarrow>
             if is_cas_text text then ret (vault_exn VaultConflict [])
             else ret (vault_exn VaultError ''OpenBao rejected the request.'')
         | HvVaultDown \<Rightarrow> ret (vault_exn VaultUnavailable [])
         | HvVaultNotInitialized \<Rightarrow> ret (vault_exn VaultUnavailable [])
         | HvOther \<Rightarrow> ret (vault_exn VaultUnavailable []))
     | _ \<Rightarrow> ret (vault_exn VaultUnavailable []))"

text \<open>\<open>try: m; except Exception as exc: raise self._translate(exc, ...) from None\<close>\<close>

definition translating :: "'a bop \<Rightarrow> 'a bop" where
  "translating m = catch_op m (\<lambda>e. bind_op (translate e) throw)"

text \<open>\<open>read_secret_env\<close> at request time: the file behind a \<open>_FILE\<close> variable may have changed.\<close>

definition read_secret :: "world \<Rightarrow> string \<Rightarrow> string option bop" where
  "read_secret w name = bind_op get_calls (\<lambda>calls.
     lift_res (read_secret_env (w_env w) (w_read_text w calls) name))"

definition missing_secret :: "string option \<Rightarrow> bool" where
  "missing_secret x \<longleftrightarrow> or_none x = None"

definition client_token_of :: "json \<Rightarrow> json res" where
  "client_token_of response =
     (let r = (if truthy response then response else JObj [])
      in res_bind (get_attr r ''auth'') (\<lambda>auth.
         get_attr (if truthy auth then auth else JObj []) ''client_token''))"

definition login :: "world \<Rightarrow> broker_config \<Rightarrow> hvac_client bop" where
  "login w cfg =
     (let pre = env_prefix cfg; client = new_hvac_client cfg 30 in
      if auth_method cfg = ''token'' then
        bind_op (read_secret w (pre @ ''_TOKEN'')) (\<lambda>token.
        if missing_secret token
        then throw (ConfigError (''Token auth requires '' @ pre @ ''_TOKEN in the environment.''))
        else ret (client\<lparr>hc_token := map_option JStr token\<rparr>))
      else
        bind_op (read_secret w (pre @ ''_ROLE_ID'')) (\<lambda>role_id.
        bind_op (read_secret w (pre @ ''_SECRET_ID'')) (\<lambda>secret_id.
        if missing_secret role_id \<or> missing_secret secret_id
        then throw (ConfigError (''AppRole auth requires '' @ pre @ ''_ROLE_ID and '' @ pre
               @ ''_SECRET_ID (or their _FILE equivalents) in the environment.''))
        else
          bind_op (translating (send_login w client (the role_id) (the secret_id))) (\<lambda>response.
          bind_op (lift_res (client_token_of response)) (\<lambda>token.
          if \<not> truthy token then throw (vault_exn VaultError ''OpenBao returned no client token.'')
          else ret (client\<lparr>hc_token := Some token\<rparr>))))))"

text \<open>
  \<open>check_credentials\<close>: every needed variable is there and readable; no call leaves the process.
\<close>

definition credential_names :: "broker_config \<Rightarrow> string list" where
  "credential_names cfg =
     (if auth_method cfg = ''token'' then [env_prefix cfg @ ''_TOKEN'']
      else [env_prefix cfg @ ''_ROLE_ID'', env_prefix cfg @ ''_SECRET_ID''])"

definition check_credentials ::
  "(string \<Rightarrow> string option) \<Rightarrow> (string \<Rightarrow> string option) \<Rightarrow> broker_config \<Rightarrow> unit res" where
  "check_credentials env read_text cfg =
     res_bind (res_map (read_secret_env env read_text) (credential_names cfg)) (\<lambda>values.
       let missing = map fst (filter (\<lambda>(name, v). missing_secret v) (zip (credential_names cfg) values))
       in if missing \<noteq> []
          then Inl (ConfigError (auth_method cfg @ '' auth requires '' @ join_str '' and '' missing
                 @ '' (or the matching _FILE variable) in the environment.''))
          else Inr ())"

text \<open>\<open>_get\<close>: the cached client, or a login while the lock is held.\<close>

definition get_body :: "world \<Rightarrow> broker_config \<Rightarrow> hvac_client bop" where
  "get_body w cfg = bind_op get_client (\<lambda>cached. case cached of
       Some client \<Rightarrow> ret client
     | None \<Rightarrow>
         bind_op (catch_op (login w cfg) (\<lambda>e. case e of
             ConfigError m \<Rightarrow> throw (vault_exn VaultMisconfigured [])
           | _ \<Rightarrow> throw e)) (\<lambda>client.
         bind_op (set_client (Some client)) (\<lambda>_. ret client)))"

definition get :: "world \<Rightarrow> broker_config \<Rightarrow> hvac_client bop" where
  "get w cfg = with_lock (get_body w cfg)"

section \<open>Operations on the KV mount\<close>

definition kv_request :: "world \<Rightarrow> broker_config \<Rightarrow> kv_call \<Rightarrow> json bop" where
  "kv_request w cfg kv = bind_op (get w cfg) (\<lambda>client. translating (send_kv w client kv))"

text \<open>\<open>read\<close>: the subscripts are outside the \<open>try\<close>.\<close>

definition vault_read :: "world \<Rightarrow> broker_config \<Rightarrow> string \<Rightarrow> int option \<Rightarrow> json bop" where
  "vault_read w cfg path version =
     bind_op (kv_request w cfg (KvReadSecretVersion path version (kv_mount cfg))) (\<lambda>response.
     lift_res (res_bind (json_index response ''data'') (\<lambda>data. json_index data ''data'')))"

definition vault_write ::
  "world \<Rightarrow> broker_config \<Rightarrow> string \<Rightarrow> dict \<Rightarrow> int option \<Rightarrow> json bop" where
  "vault_write w cfg path data cas =
     bind_op (kv_request w cfg (KvCreateOrUpdateSecret path data cas (kv_mount cfg))) (\<lambda>response.
     lift_res (res_bind (json_index response ''data'') (\<lambda>data. json_index data ''version'')))"

definition vault_delete :: "world \<Rightarrow> broker_config \<Rightarrow> string \<Rightarrow> int list option \<Rightarrow> unit bop" where
  "vault_delete w cfg path versions =
     bind_op (kv_request w cfg
       (case versions of
          Some (v # vs) \<Rightarrow> KvDeleteSecretVersions path (v # vs) (kv_mount cfg)
        | _ \<Rightarrow> KvDeleteMetadataAndAllVersions path (kv_mount cfg))) (\<lambda>_. ret ())"

definition vault_read_metadata :: "world \<Rightarrow> broker_config \<Rightarrow> string \<Rightarrow> json bop" where
  "vault_read_metadata w cfg path =
     bind_op (kv_request w cfg (KvReadSecretMetadata path (kv_mount cfg))) (\<lambda>response.
     bind_op (lift_res (get_attr response ''data'')) (\<lambda>data.
     ret (if truthy data then data else JObj [])))"

definition vault_set_metadata :: "world \<Rightarrow> broker_config \<Rightarrow> string \<Rightarrow> dict \<Rightarrow> unit bop" where
  "vault_set_metadata w cfg path custom_metadata =
     bind_op (kv_request w cfg (KvUpdateMetadata path custom_metadata (kv_mount cfg))) (\<lambda>_. ret ())"

text \<open>One row of \<open>list_versions\<close>, in the order the attributes are evaluated.\<close>

definition version_row :: "string \<times> json \<Rightarrow> (int \<times> json) res" where
  "version_row p = (case py_int (fst p) of
       None \<Rightarrow> Inl (ValueError ''invalid literal for int'')
     | Some n \<Rightarrow>
         res_bind (get_attr (snd p) ''created_time'') (\<lambda>created.
         res_bind (get_attr (snd p) ''deletion_time'') (\<lambda>deletion.
         res_bind (get_attr (snd p) ''destroyed'') (\<lambda>destroyed.
         Inr (n, JObj [(''version'', JInt n), (''created_time'', created),
                (''deletion_time'', if truthy deletion then deletion else JNull),
                (''destroyed'', JBool (truthy destroyed))])))))"

text \<open>\<open>versions.sort(key=..., reverse=True)\<close> is a stable sort by descending version.\<close>

definition version_rows :: "json \<Rightarrow> (int \<times> json) list res" where
  "version_rows metadata =
     res_bind (get_attr metadata ''versions'') (\<lambda>versions.
     res_bind (items_or_empty versions) (\<lambda>items.
     res_bind (res_map version_row items) (\<lambda>rows.
     Inr (sort_key (\<lambda>r. - fst r) rows))))"

definition vault_list_versions :: "world \<Rightarrow> broker_config \<Rightarrow> string \<Rightarrow> json bop" where
  "vault_list_versions w cfg path =
     bind_op (vault_read_metadata w cfg path) (\<lambda>metadata.
     lift_res (res_bind (version_rows metadata) (\<lambda>rows. Inr (JArr (map snd rows)))))"

section \<open>Health\<close>

definition health_payload :: "health_reply \<Rightarrow> json" where
  "health_payload r = (case r of
       HealthValue v \<Rightarrow> if is_dict v then v else JObj []
     | HealthResponse (Some v) \<Rightarrow> v
     | HealthResponse None \<Rightarrow> JObj [])"

text \<open>The \<open>except\<close> covers the call only; the payload's \<open>get\<close> is outside it.\<close>

definition vault_health :: "world \<Rightarrow> broker_config \<Rightarrow> json bop" where
  "vault_health w cfg =
     bind_op (catch_op (bind_op (send_health w (new_hvac_client cfg 10)) (\<lambda>r. ret (Some r)))
                       (\<lambda>e. ret None)) (\<lambda>reply. case reply of
       None \<Rightarrow> ret (JObj [(''reachable'', JBool False), (''sealed'', JNull)])
     | Some r \<Rightarrow>
         bind_op (lift_res (get_attr (health_payload r) ''sealed'')) (\<lambda>sealed.
         bind_op (lift_res (get_attr (health_payload r) ''version'')) (\<lambda>version.
         ret (JObj [(''reachable'', JBool True), (''sealed'', JBool (truthy sealed)),
                    (''version'', version)]))))"

section \<open>What the client does to the state\<close>

lemma get_attr_error: "get_attr v k = Inl e \<Longrightarrow> e = AttributeError"
  by (auto simp: get_attr_def split: json.splits)

context client_preorder
begin

lemma invalidate_rel [client_ops]: "op_rel R invalidate"
  unfolding invalidate_def by (intro client_ops)

lemma translate_rel [client_ops]: "op_rel R (translate e)"
  by (cases e) (auto simp: translate_def intro!: op_rules client_ops split: hvac_kind.splits)

lemma translating_rel [client_ops]: "op_rel R m \<Longrightarrow> op_rel R (translating m)"
  unfolding translating_def by (intro op_rules client_ops)

lemma read_secret_rel [client_ops]: "op_rel R (read_secret w name)"
  unfolding read_secret_def by (intro op_rules client_ops)

lemma login_rel [client_ops]: "op_rel R (login w cfg)"
  unfolding login_def Let_def by (intro op_rules client_ops)

lemma get_rel [client_ops]: "op_rel R (get w cfg)"
proof -
  have "op_rel R (case e of ConfigError m \<Rightarrow> throw (vault_exn VaultMisconfigured [])
           | _ \<Rightarrow> throw e)" for e :: exn
    by (cases e) (simp_all add: throw_rel)
  then show ?thesis
    unfolding get_def get_body_def by (intro op_rules client_ops)
qed

lemma kv_request_rel [client_ops]:
  "(\<And>client. allowed (KvCall client kv)) \<Longrightarrow> op_rel R (kv_request w cfg kv)"
  unfolding kv_request_def by (intro op_rules client_ops)

lemma kv_operations_rel [client_ops]:
  "(\<And>c. allowed (KvCall c (KvReadSecretVersion path version (kv_mount cfg)))) \<Longrightarrow>
     op_rel R (vault_read w cfg path version)"
  "(\<And>c. allowed (KvCall c (KvCreateOrUpdateSecret path data cas (kv_mount cfg)))) \<Longrightarrow>
     op_rel R (vault_write w cfg path data cas)"
  "(\<And>c. allowed (KvCall c (KvReadSecretMetadata path (kv_mount cfg)))) \<Longrightarrow>
     op_rel R (vault_read_metadata w cfg path)"
  "(\<And>c. allowed (KvCall c (KvUpdateMetadata path custom (kv_mount cfg)))) \<Longrightarrow>
     op_rel R (vault_set_metadata w cfg path custom)"
  unfolding vault_read_def vault_write_def vault_read_metadata_def vault_set_metadata_def
  by (intro op_rules client_ops; assumption)+

lemma delete_rel [client_ops]:
  assumes "\<And>c vs. allowed (KvCall c (KvDeleteSecretVersions path vs (kv_mount cfg)))"
    and "\<And>c. allowed (KvCall c (KvDeleteMetadataAndAllVersions path (kv_mount cfg)))"
  shows "op_rel R (vault_delete w cfg path versions)"
  unfolding vault_delete_def
  by (intro op_rules client_ops) (auto simp: assms split: option.split list.split)

lemma list_versions_rel [client_ops]:
  "(\<And>c. allowed (KvCall c (KvReadSecretMetadata path (kv_mount cfg)))) \<Longrightarrow>
   op_rel R (vault_list_versions w cfg path)"
  unfolding vault_list_versions_def by (intro op_rules client_ops)

lemma health_rel [client_ops]:
  "(\<And>c. allowed (HealthCall c)) \<Longrightarrow> op_rel R (vault_health w cfg)"
  unfolding vault_health_def by (intro op_rules client_ops)

end

section \<open>Errors carry only the broker's own texts\<close>

text \<open>
  The texts a \<open>VaultError\<close> may carry: the default of its class, or one of the fixed texts of
  \<^verbatim>\<open>broker/vault.py\<close>. Everything else may only be an exception \<open>run\<close> answers with a bare 500.
\<close>

definition VAULT_TEXTS :: "string list" where
  "VAULT_TEXTS =
    [''The broker could not authenticate to OpenBao.'',
     ''OpenBao rejected the request.'',
     ''OpenBao returned no client token.'',
     ''OpenBao redirects are refused.'',
     ''OpenBao returned an oversized response.'',
     ''OpenBao returned an unreadable response.'',
     ''OpenBao returned an invalid snapshot response.'',
     ''OpenBao returned an oversized snapshot.'',
     ''OpenBao returned an empty snapshot.'',
     ''OpenBao returned an incomplete snapshot.'',
     ''The snapshot upload is outside the allowed size.'',
     ''The administration operation is unsupported.'',
     ''The mounted operation template does not match its mount.'',
     ''The mounted operation is not advertised by OpenBao.'',
     ''OpenBao advertised an invalid mounted operation.'',
     ''The mounted query is not advertised by OpenBao.'',
     ''The mounted query is missing a required field.'',
     ''The mounted body is not advertised by OpenBao.'',
     ''The mounted body is missing a required field.'',
     ''The mounted value violates the OpenBao schema.'']"

definition fixed_text :: "vault_kind \<Rightarrow> string \<Rightarrow> bool" where
  "fixed_text k m \<longleftrightarrow> m = default_message k \<or> (k = VaultError \<and> m \<in> set VAULT_TEXTS)"

fun closed_exn :: "exn \<Rightarrow> bool" where
  "closed_exn (VaultExn k m) = fixed_text k m"
| "closed_exn (HTTPException c d h) = False"
| "closed_exn _ = True"

lemma closed_vault_exn_default [simp]: "closed_exn (vault_exn k [])"
  by (simp add: vault_exn_def fixed_text_def)

lemma closed_vault_exn: "m \<in> set VAULT_TEXTS \<Longrightarrow> closed_exn (vault_exn VaultError m)"
  by (auto simp: vault_exn_def fixed_text_def)

lemma closed_texts [simp]:
  "closed_exn (vault_exn VaultError ''The broker could not authenticate to OpenBao.'')"
  "closed_exn (vault_exn VaultError ''OpenBao rejected the request.'')"
  "closed_exn (vault_exn VaultError ''OpenBao returned no client token.'')"
  by (rule closed_vault_exn, simp add: VAULT_TEXTS_def)+

lemma raised_closed [simp]: "closed_exn (raised e)"
  by (cases e) simp_all

lemma send_closed [raises_rules]:
  "raises_only closed_exn (send_login w client r sec)"
  "raises_only closed_exn (send_kv w client kv)"
  "raises_only closed_exn (send_health w client)"
  "raises_only closed_exn (send_http w rq)"
  "raises_only closed_exn (close_op i)"
  "raises_only closed_exn get_calls"
  "raises_only closed_exn get_client"
  "raises_only closed_exn (set_client c)"
  by (auto intro!: raises_onlyI simp: send_login_def send_kv_def send_health_def send_http_def
      close_op_def get_calls_def get_client_def set_client_def Let_def from_lib_def split: sum.splits)

lemma with_lock_closed [raises_rules]: "raises_only closed_exn m \<Longrightarrow> raises_only closed_exn (with_lock m)"
  by (rule raises_onlyI)
    (auto simp: with_lock_def dest: raises_onlyD split: if_splits prod.splits)

lemma translate_closed [raises_rules]: "raises_only closed_exn (translate e)"
  by (cases e) (auto simp: translate_def invalidate_def intro!: raises_rules split: hvac_kind.splits)

lemma translate_result: "translate e s = (Inr e', s') \<Longrightarrow> closed_exn e'"
  by (cases e)
    (auto simp: translate_def bind_op_run split: hvac_kind.splits prod.splits sum.splits if_splits)

lemma translating_closed [raises_rules]: "raises_only closed_exn (translating m)"
proof -
  have "raises_only closed_exn (bind_op (translate e) throw)" for e
    by (rule raises_onlyI)
      (auto simp: bind_op_run dest: translate_result raises_onlyD [OF translate_closed]
        split: prod.splits sum.splits)
  then show ?thesis unfolding translating_def by (intro raises_catch) simp_all
qed

lemma read_secret_env_error: "read_secret_env env fs name = Inl e \<Longrightarrow> \<exists>m. e = ConfigError m"
  by (auto simp: read_secret_env_def split: option.splits)

lemma read_secret_closed [raises_rules]: "raises_only closed_exn (read_secret w name)"
  unfolding read_secret_def
  by (intro raises_rules) (auto dest: read_secret_env_error)

lemma client_token_error: "client_token_of v = Inl e \<Longrightarrow> e = AttributeError"
  by (auto simp: client_token_of_def Let_def res_bind_Inl dest: get_attr_error)

lemma login_closed [raises_rules]: "raises_only closed_exn (login w cfg)"
  unfolding login_def Let_def
  by (intro raises_rules) (auto dest: client_token_error)

lemma get_closed [raises_rules]: "raises_only closed_exn (get w cfg)"
proof -
  have "raises_only closed_exn (catch_op (login w cfg) (\<lambda>e. case e of
      ConfigError m \<Rightarrow> throw (vault_exn VaultMisconfigured []) | _ \<Rightarrow> throw e))"
  proof (rule raises_catch_only [OF login_closed])
    fix e assume "closed_exn e"
    then show "raises_only closed_exn (case e of
        ConfigError m \<Rightarrow> throw (vault_exn VaultMisconfigured []) | _ \<Rightarrow> throw e)"
      by (cases e) (auto intro!: raises_rules)
  qed simp
  then show ?thesis
    unfolding get_def get_body_def
    by (intro raises_rules) (auto split: option.splits intro!: raises_rules)
qed

lemma kv_request_closed [raises_rules]: "raises_only closed_exn (kv_request w cfg kv)"
  unfolding kv_request_def by (intro raises_rules)

lemma json_index_error: "json_index v k = Inl e \<Longrightarrow> e = TypeError \<or> e = KeyError"
  by (auto simp: json_index_def dindex_def split: json.splits option.splits)

lemma version_row_error: "version_row p = Inl e \<Longrightarrow> e = AttributeError \<or> (\<exists>m. e = ValueError m)"
  by (auto simp: version_row_def res_bind_Inl dest: get_attr_error split: option.splits)

lemma version_rows_error: "version_rows v = Inl e \<Longrightarrow> e = AttributeError \<or> (\<exists>m. e = ValueError m)"
  by (auto simp: version_rows_def res_bind_Inl
      dest!: get_attr_error items_or_empty_error res_map_Inl version_row_error)

lemma kv_operations_closed [raises_rules]:
  "raises_only closed_exn (vault_read w cfg path version)"
  "raises_only closed_exn (vault_write w cfg path data cas)"
  "raises_only closed_exn (vault_delete w cfg path versions)"
  "raises_only closed_exn (vault_read_metadata w cfg path)"
  "raises_only closed_exn (vault_set_metadata w cfg path custom)"
  unfolding vault_read_def vault_write_def vault_delete_def vault_read_metadata_def
    vault_set_metadata_def
  by (intro raises_rules; auto simp: res_bind_Inl dest!: json_index_error get_attr_error)+

lemma list_versions_closed [raises_rules]:
  "raises_only closed_exn (vault_list_versions w cfg path)"
  unfolding vault_list_versions_def
  by (intro raises_rules) (auto simp: res_bind_Inl dest!: version_rows_error)

section \<open>The lock\<close>

text \<open>
  An operation that returns leaves the lock free; only one that never returns keeps it.
\<close>

definition lock_free :: "'a bop \<Rightarrow> bool" where
  "lock_free m \<longleftrightarrow> triple (\<lambda>s. \<not> bs_locked s) m (\<lambda>x s. \<not> bs_locked s)
     (\<lambda>e s. e = Deadlock \<or> \<not> bs_locked s)"

named_theorems lock_rules \<open>operations that give the lock back\<close>

lemma lock_freeD:
  "lock_free m \<Longrightarrow> \<not> bs_locked s \<Longrightarrow> m s = (r, s') \<Longrightarrow> r \<noteq> Inl Deadlock \<Longrightarrow> \<not> bs_locked s'"
  unfolding lock_free_def
  by (cases r) (blast dest: tripleD_ok tripleD_exn)+

lemma lock_freeI:
  "(\<And>s r s'. \<not> bs_locked s \<Longrightarrow> m s = (r, s') \<Longrightarrow> r \<noteq> Inl Deadlock \<Longrightarrow> \<not> bs_locked s') \<Longrightarrow>
   lock_free m"
  unfolding lock_free_def by (rule tripleI) blast+

lemma lock_free_basic [lock_rules]:
  "lock_free (ret x)" "lock_free (throw e)" "lock_free (lift_res r)"
  by (auto intro!: lock_freeI)

lemma lock_free_bind [lock_rules]:
  "lock_free m \<Longrightarrow> (\<And>x. lock_free (f x)) \<Longrightarrow> lock_free (bind_op m f)"
  unfolding lock_free_def by (rule triple_bind)

lemma lock_free_catch [lock_rules]:
  assumes "lock_free m" and "\<And>e. lock_free (h e)"
  shows "lock_free (catch_op m h)"
  unfolding lock_free_def
proof (rule triple_catch)
  show "triple (\<lambda>s. \<not> bs_locked s) m (\<lambda>x s. \<not> bs_locked s) (\<lambda>e s. e = Deadlock \<or> \<not> bs_locked s)"
    using assms(1) by (simp add: lock_free_def)
  show "triple (\<lambda>s. e = Deadlock \<or> \<not> bs_locked s) (h e) (\<lambda>x s. \<not> bs_locked s)
      (\<lambda>e s. e = Deadlock \<or> \<not> bs_locked s)" if "e \<noteq> Deadlock" for e
    using assms(2) [of e] that by (simp add: lock_free_def)
qed simp

lemma lock_free_finally [lock_rules]:
  "lock_free m \<Longrightarrow> (\<And>s. bs_locked (k s) = bs_locked s) \<Longrightarrow> lock_free (finally_op m k)"
  by (rule lock_freeI) (auto simp: finally_op_run dest: lock_freeD split: prod.splits if_splits)

lemma lock_free_if [lock_rules]:
  "(c \<Longrightarrow> lock_free m) \<Longrightarrow> (\<not> c \<Longrightarrow> lock_free n) \<Longrightarrow> lock_free (if c then m else n)"
  by simp

lemma lock_free_case_option [lock_rules]:
  "(v = None \<Longrightarrow> lock_free m) \<Longrightarrow> (\<And>x. v = Some x \<Longrightarrow> lock_free (f x)) \<Longrightarrow>
   lock_free (case v of None \<Rightarrow> m | Some x \<Rightarrow> f x)"
  by (cases v) simp_all

lemma lock_free_primitive [lock_rules]:
  "lock_free (send_login w client r sec)" "lock_free (send_kv w client kv)"
  "lock_free (send_health w client)" "lock_free (send_http w rq)" "lock_free (close_op i)"
  "lock_free get_calls" "lock_free get_client" "lock_free (set_client c)"
  "lock_free (audit_record e)"
  by (auto intro!: lock_freeI simp: send_login_def send_kv_def send_health_def send_http_def
      close_op_def get_calls_def get_client_def set_client_def audit_record_def Let_def split: sum.splits)

lemma lock_free_with_lock [lock_rules]: "lock_free (with_lock m)"
  by (rule lock_freeI) (auto simp: with_lock_def split: prod.splits if_splits)

lemma lock_free_translate [lock_rules]: "lock_free (translate e)"
  by (cases e) (auto simp: translate_def invalidate_def intro!: lock_rules split: hvac_kind.splits)

lemma lock_free_translating [lock_rules]: "lock_free m \<Longrightarrow> lock_free (translating m)"
  unfolding translating_def by (intro lock_rules)

lemma lock_free_get [lock_rules]: "lock_free (get w cfg)"
  unfolding get_def by (rule lock_rules)

lemma lock_free_kv_request [lock_rules]: "lock_free (kv_request w cfg kv)"
  unfolding kv_request_def by (intro lock_rules)

lemma lock_free_kv_operations [lock_rules]:
  "lock_free (vault_read w cfg path version)"
  "lock_free (vault_write w cfg path data cas)"
  "lock_free (vault_delete w cfg path versions)"
  "lock_free (vault_read_metadata w cfg path)"
  "lock_free (vault_set_metadata w cfg path custom)"
  unfolding vault_read_def vault_write_def vault_delete_def vault_read_metadata_def
    vault_set_metadata_def
  by (intro lock_rules)+

lemma lock_free_list_versions [lock_rules]: "lock_free (vault_list_versions w cfg path)"
  unfolding vault_list_versions_def by (intro lock_rules)

section \<open>Acquiring a client\<close>

lemma get_locked: "bs_locked s \<Longrightarrow> get w cfg s = (Inl Deadlock, s)"
  by (simp add: get_def with_lock_def)

lemma get_cached: "\<not> bs_locked s \<Longrightarrow> bs_client s = Some client \<Longrightarrow> get w cfg s = (Inr client, s)"
  by (simp add: get_def with_lock_def get_body_def bind_op_run get_client_def)

text \<open>The login's own call was refused: the AppRole itself has no permission.\<close>

definition login_refused :: "world \<Rightarrow> broker_config \<Rightarrow> broker_state \<Rightarrow> bool" where
  "login_refused w cfg s \<longleftrightarrow> auth_method cfg \<noteq> ''token'' \<and>
     (\<exists>role_id secret_id k text.
        read_secret_env (w_env w) (w_read_text w (bs_calls s)) (env_prefix cfg @ ''_ROLE_ID'')
          = Inr role_id \<and>
        read_secret_env (w_env w) (w_read_text w (bs_calls s)) (env_prefix cfg @ ''_SECRET_ID'')
          = Inr secret_id \<and>
        \<not> missing_secret role_id \<and> \<not> missing_secret secret_id \<and>
        w_login w (bs_calls s) (LoginCall (new_hvac_client cfg 30) (the role_id) (the secret_id))
          = Inl (LibHvac k text) \<and> k \<in> {HvForbidden, HvUnauthorized})"

lemma translate_deadlock:
  "translate e s = (Inl Deadlock, s') \<longleftrightarrow>
     bs_locked s \<and> s' = s \<and> (\<exists>k text. e = HvacExn k text \<and> k \<in> {HvForbidden, HvUnauthorized})"
  by (cases e)
    (auto simp: translate_def invalidate_def with_lock_def set_client_def bind_op_run
      split: hvac_kind.splits if_splits)

lemma translate_only_deadlock: "translate e s = (Inl e', s') \<Longrightarrow> e' = Deadlock"
  by (cases e)
    (auto simp: translate_def invalidate_def with_lock_def set_client_def bind_op_run
      split: hvac_kind.splits if_splits)

lemma translate_value: "translate e s = (Inr e', s') \<Longrightarrow> \<exists>k m. e' = VaultExn k m"
  by (cases e)
    (auto simp: translate_def bind_op_run vault_exn_def
      split: hvac_kind.splits prod.splits sum.splits if_splits)

lemma translating_deadlock:
  "translating m s = (Inl Deadlock, s') \<longleftrightarrow> m s = (Inl Deadlock, s') \<or>
     (bs_locked s' \<and> (\<exists>k text. m s = (Inl (HvacExn k text), s') \<and> k \<in> {HvForbidden, HvUnauthorized}))"
proof -
  obtain r s1 where m: "m s = (r, s1)" by (cases "m s")
  show ?thesis
  proof (cases r)
    case (Inr x)
    with m show ?thesis by (simp add: translating_def catch_op_run)
  next
    case (Inl e)
    have "bind_op (translate e) throw s1 = (Inl Deadlock, s') \<longleftrightarrow> translate e s1 = (Inl Deadlock, s')"
      by (auto simp: bind_op_run dest: translate_value split: prod.splits sum.splits)
    with m Inl show ?thesis
      by (auto simp: translating_def catch_op_run translate_deadlock)
  qed
qed

text \<open>
  The lock is not reentrant and \<open>_translate\<close> takes it, so a login refused with a permission error
  never returns, and neither does any later request: this is exactly when \<open>_get\<close> hangs.
\<close>

lemma read_secret_run:
  "read_secret w name s = (read_secret_env (w_env w) (w_read_text w (bs_calls s)) name, s)"
  by (simp add: read_secret_def bind_op_run get_calls_def)

lemma send_login_deadlock:
  "translating (send_login w client r sec) s = (Inl Deadlock, s') \<longleftrightarrow>
     bs_locked s \<and> s' = log_call (LoginCall client r sec) s \<and>
     (\<exists>k text. w_login w (bs_calls s) (LoginCall client r sec) = Inl (LibHvac k text) \<and>
        k \<in> {HvForbidden, HvUnauthorized})"
proof -
  have "raised le = HvacExn k t \<longleftrightarrow> le = LibHvac k t" for le k t by (cases le) auto
  then show ?thesis
    by (cases "w_login w (bs_calls s) (LoginCall client r sec)")
      (auto simp: translating_deadlock send_login_def Let_def)
qed


lemma login_deadlock:
  assumes "bs_locked s"
  shows "fst (login w cfg s) = Inl Deadlock \<longleftrightarrow> login_refused w cfg s"
proof (cases "auth_method cfg = ''token''")
  case True
  then show ?thesis
    by (auto simp: login_def login_refused_def bind_op_run read_secret_run Let_def
        dest: read_secret_env_error split: sum.splits)
next
  case False
  let ?read = "\<lambda>name. read_secret_env (w_env w) (w_read_text w (bs_calls s)) (env_prefix cfg @ name)"
  show ?thesis
  proof (cases "\<exists>r sec. ?read ''_ROLE_ID'' = Inr r \<and> ?read ''_SECRET_ID'' = Inr sec \<and>
      \<not> missing_secret r \<and> \<not> missing_secret sec")
    case False
    with \<open>auth_method cfg \<noteq> ''token''\<close> show ?thesis
      by (auto simp: login_def login_refused_def bind_op_run read_secret_run Let_def
          dest: read_secret_env_error split: sum.splits)
  next
    case True
    then obtain r sec where creds: "?read ''_ROLE_ID'' = Inr r" "?read ''_SECRET_ID'' = Inr sec"
      "\<not> missing_secret r" "\<not> missing_secret sec" by blast
    let ?client = "new_hvac_client cfg 30"
    let ?send = "translating (send_login w ?client (the r) (the sec))"
    have after: "fst (bind_op (lift_res (client_token_of response)) (\<lambda>token.
        if \<not> truthy token then throw (vault_exn VaultError ''OpenBao returned no client token.'')
        else ret (?client\<lparr>hc_token := Some token\<rparr>)) t) \<noteq> Inl Deadlock" for response t
      by (auto simp: bind_op_run vault_exn_def dest: client_token_error split: sum.splits)
    have "fst (login w cfg s) = Inl Deadlock \<longleftrightarrow> fst (?send s) = Inl Deadlock"
      using \<open>auth_method cfg \<noteq> ''token''\<close> creds after
      by (cases "?send s"; cases "fst (?send s)")
        (simp_all add: login_def bind_op_run [of "read_secret w n" for n]
          bind_op_run [of "translating m" for m] read_secret_run Let_def)
    also have "\<dots> \<longleftrightarrow> login_refused w cfg s"
      using \<open>auth_method cfg \<noteq> ''token''\<close> creds assms
        send_login_deadlock [of w ?client "the r" "the sec" s]
      by (cases "?send s") (auto simp: login_refused_def)
    finally show ?thesis .
  qed
qed

lemma get_deadlock:
  assumes "\<not> bs_locked s"
  shows "fst (get w cfg s) = Inl Deadlock \<longleftrightarrow> bs_client s = None \<and> login_refused w cfg s"
proof (cases "bs_client s")
  case (Some client)
  with assms show ?thesis by (simp add: get_cached)
next
  case None
  let ?s = "s\<lparr>bs_locked := True\<rparr>"
  have "login_refused w cfg ?s = login_refused w cfg s" by (simp add: login_refused_def)
  moreover have "fst (get w cfg s) = Inl Deadlock \<longleftrightarrow> fst (login w cfg ?s) = Inl Deadlock"
    using assms None
    by (cases "login w cfg ?s"; cases "fst (login w cfg ?s)")
      (auto simp: get_def with_lock_def get_body_def bind_op_run catch_op_run get_client_def
        set_client_def vault_exn_def split: exn.splits)
  ultimately show ?thesis using None login_deadlock [of ?s w cfg] by simp
qed

section \<open>A request on a cached client\<close>

text \<open>What the library's answer to a request means for the caller.\<close>

definition refused_by_server :: "lib_exn \<Rightarrow> bool" where
  "refused_by_server e \<longleftrightarrow> (\<exists>k text. e = LibHvac k text \<and> k \<in> {HvForbidden, HvUnauthorized})"

lemma translate_run:
  assumes "\<not> bs_locked s"
  shows "\<exists>k m. translate (raised e) s = (Inr (VaultExn k m),
    if refused_by_server e then s\<lparr>bs_client := None\<rparr> else s)"
proof (cases e)
  case (LibHvac k t)
  with assms show ?thesis
    by (cases k) (auto simp: translate_def bind_op_run invalidate_def with_lock_def set_client_def
        refused_by_server_def vault_exn_def)
qed (simp_all add: translate_def refused_by_server_def vault_exn_def)

lemma kv_request_run:
  assumes "\<not> bs_locked s" and "bs_client s = Some client"
  shows "\<exists>r. kv_request w cfg kv s = (r, (log_call (KvCall client kv) s)
      \<lparr>bs_client := (case w_kv w (bs_calls s) (KvCall client kv) of
         Inl e \<Rightarrow> if refused_by_server e then None else Some client | Inr v \<Rightarrow> Some client)\<rparr>) \<and>
    (case w_kv w (bs_calls s) (KvCall client kv) of
       Inr v \<Rightarrow> r = Inr v | Inl e \<Rightarrow> \<exists>k m. r = Inl (VaultExn k m))"
proof (cases "w_kv w (bs_calls s) (KvCall client kv)")
  case (Inr v)
  with assms show ?thesis
    by (simp add: kv_request_def bind_op_run get_cached translating_def catch_op_run send_kv_def Let_def log_call_def)
next
  case (Inl e)
  let ?s = "log_call (KvCall client kv) s"
  from translate_run [of ?s e] assms obtain k m where "translate (raised e) ?s =
      (Inr (VaultExn k m), if refused_by_server e then ?s\<lparr>bs_client := None\<rparr> else ?s)" by auto
  with Inl assms show ?thesis
    by (simp add: kv_request_def bind_op_run get_cached translating_def catch_op_run send_kv_def Let_def log_call_def)
qed

end
