(* ===== verification/Sha256.thy ===== *)
theory Sha256
  imports Py_Json "HOL-Library.Word"
begin

text \<open>
  \<open>hashlib.sha256(data).hexdigest()\<close> as FIPS 180-4 defines it, on byte strings: padding, message
  schedule, compression on 32-bit words that wrap around, and the hexadecimal rendering. The
  contract digest of the administration registry is computed with it.
\<close>

type_synonym u32 = "32 word"

text \<open>The first 32 bits of the fractional parts of the cube roots of the first 64 primes.\<close>

definition sha_k :: "u32 list" where
  "sha_k = [
     1116352408, 1899447441, 3049323471, 3921009573, 961987163, 1508970993, 2453635748, 2870763221,
     3624381080, 310598401, 607225278, 1426881987, 1925078388, 2162078206, 2614888103, 3248222580,
     3835390401, 4022224774, 264347078, 604807628, 770255983, 1249150122, 1555081692, 1996064986,
     2554220882, 2821834349, 2952996808, 3210313671, 3336571891, 3584528711, 113926993, 338241895,
     666307205, 773529912, 1294757372, 1396182291, 1695183700, 1986661051, 2177026350, 2456956037,
     2730485921, 2820302411, 3259730800, 3345764771, 3516065817, 3600352804, 4094571909, 275423344,
     430227734, 506948616, 659060556, 883997877, 958139571, 1322822218, 1537002063, 1747873779,
     1955562222, 2024104815, 2227730452, 2361852424, 2428436474, 2756734187, 3204031479, 3329325298]"

text \<open>The same of the square roots of the first eight.\<close>

definition sha_h0 :: "u32 list" where
  "sha_h0 = [1779033703, 3144134277, 1013904242, 2773480762,
             1359893119, 2600822924, 528734635, 1541459225]"

unbundle bit_operations_syntax

definition sha_ch :: "u32 \<Rightarrow> u32 \<Rightarrow> u32 \<Rightarrow> u32" where
  "sha_ch x y z = (x AND y) XOR (NOT x AND z)"

definition sha_maj :: "u32 \<Rightarrow> u32 \<Rightarrow> u32 \<Rightarrow> u32" where
  "sha_maj x y z = (x AND y) XOR (x AND z) XOR (y AND z)"

definition rotr :: "nat \<Rightarrow> u32 \<Rightarrow> u32" where
  "rotr n x = drop_bit n x OR push_bit (32 - n) x"

definition big_sigma0 :: "u32 \<Rightarrow> u32" where
  "big_sigma0 x = rotr 2 x XOR rotr 13 x XOR rotr 22 x"

definition big_sigma1 :: "u32 \<Rightarrow> u32" where
  "big_sigma1 x = rotr 6 x XOR rotr 11 x XOR rotr 25 x"

definition small_sigma0 :: "u32 \<Rightarrow> u32" where
  "small_sigma0 x = rotr 7 x XOR rotr 18 x XOR drop_bit 3 x"

definition small_sigma1 :: "u32 \<Rightarrow> u32" where
  "small_sigma1 x = rotr 17 x XOR rotr 19 x XOR drop_bit 10 x"

text \<open>Padding: a one bit, zeros, and the length in bits as 64-bit big-endian.\<close>

primrec be_bytes :: "nat \<Rightarrow> int \<Rightarrow> int list" where
  "be_bytes 0 n = []"
| "be_bytes (Suc k) n = be_bytes k (n div 256) @ [n mod 256]"

definition sha_pad :: "int list \<Rightarrow> int list" where
  "sha_pad m = m @ [128] @ replicate ((119 - length m mod 64) mod 64) 0
     @ be_bytes 8 (8 * int (length m))"

fun be_words :: "int list \<Rightarrow> u32 list" where
  "be_words (a # b # c # d # m) = word_of_int (((a * 256 + b) * 256 + c) * 256 + d) # be_words m"
| "be_words _ = []"

text \<open>The schedule, kept newest first while it is extended from 16 to 64 words.\<close>

primrec sha_extend :: "nat \<Rightarrow> u32 list \<Rightarrow> u32 list" where
  "sha_extend 0 ws = ws"
| "sha_extend (Suc k) ws =
     sha_extend k ((small_sigma1 (ws ! 1) + ws ! 6 + small_sigma0 (ws ! 14) + ws ! 15) # ws)"

definition sha_schedule :: "u32 list \<Rightarrow> u32 list" where
  "sha_schedule block = rev (sha_extend 48 (rev block))"

fun sha_round :: "u32 list \<Rightarrow> u32 \<times> u32 \<Rightarrow> u32 list" where
  "sha_round [a, b, c, d, e, f, g, h] (k, w) =
     (let t1 = h + big_sigma1 e + sha_ch e f g + k + w;
          t2 = big_sigma0 a + sha_maj a b c
      in [t1 + t2, a, b, c, d + t1, e, f, g])"
| "sha_round hs _ = hs"

definition sha_compress :: "u32 list \<Rightarrow> u32 list \<Rightarrow> u32 list" where
  "sha_compress hs block =
     map2 (+) hs (foldl sha_round hs (zip sha_k (sha_schedule block)))"

text \<open>One compression per block of sixteen words.\<close>

function sha_blocks :: "u32 list \<Rightarrow> u32 list \<Rightarrow> u32 list" where
  "sha_blocks hs ws =
     (if ws = [] then hs else sha_blocks (sha_compress hs (take 16 ws)) (drop 16 ws))"
  by pat_completeness auto
termination
  by (relation "measure (\<lambda>(hs, ws). length ws)") auto

declare sha_blocks.simps [simp del]

definition hex_word :: "u32 \<Rightarrow> string" where
  "hex_word x = map (\<lambda>k. hex_digit (unat (drop_bit (4 * k) x AND 15))) [7, 6, 5, 4, 3, 2, 1, 0]"

definition sha256_hex :: "string \<Rightarrow> string" where
  "sha256_hex s = concat (map hex_word (sha_blocks sha_h0 (be_words (sha_pad (map of_char s)))))"

section \<open>Facts\<close>

definition hex_lower :: "char \<Rightarrow> bool" where
  "hex_lower c \<longleftrightarrow> (48 \<le> code c \<and> code c \<le> 57) \<or> (97 \<le> code c \<and> code c \<le> 102)"

lemma hex_digit_lower: "d < 16 \<Longrightarrow> hex_lower (hex_digit d)"
  by (auto simp: hex_lower_def hex_digit_def)

lemma unat_and_15: "unat ((x :: u32) AND 15) < 16"
proof -
  have "unat (x AND 15) \<le> unat (15 :: u32)"
    by (rule word_and_le1 [THEN word_le_nat_alt [THEN iffD1]])
  then show ?thesis by simp
qed

lemma hex_word_lower: "c \<in> set (hex_word x) \<Longrightarrow> hex_lower c"
  by (auto simp: hex_word_def intro!: hex_digit_lower unat_and_15)

lemma hex_word_length [simp]: "length (hex_word x) = 8"
  by (simp add: hex_word_def)

lemma sha_round_length: "length (sha_round hs kw) = length hs"
  by (induction hs kw rule: sha_round.induct) (simp_all add: Let_def)

lemma sha_rounds_length: "length (foldl sha_round hs kws) = length hs"
  by (induction kws arbitrary: hs) (simp_all add: sha_round_length)

lemma sha_compress_length [simp]: "length (sha_compress hs block) = length hs"
  by (simp add: sha_compress_def sha_rounds_length)

lemma sha_blocks_length: "length (sha_blocks hs ws) = length hs"
proof (induction hs ws rule: sha_blocks.induct)
  case (1 hs ws)
  then show ?case by (subst sha_blocks.simps) simp
qed

lemma sha256_hex_length: "length (sha256_hex s) = 64"
  by (simp add: sha256_hex_def length_concat o_def sum_list_triv sha_blocks_length sha_h0_def)

lemma sha256_hex_lower: "c \<in> set (sha256_hex s) \<Longrightarrow> hex_lower c"
  by (auto simp: sha256_hex_def dest: hex_word_lower)

end
