(* ===== verification/Admin_Registry.thy ===== *)
theory Admin_Registry
  imports Broker_Config Sha256
begin

text \<open>
  The closed operation registry of \<^verbatim>\<open>broker/administration.py\<close>: the operations by family, the
  ones that are implemented, the canonical contract with its digest, and the document one instance
  is shown.
\<close>

section \<open>The registry\<close>

record op_contract =
  oc_name :: string
  oc_family :: string
  oc_framing :: string

definition CONTRACT_VERSION :: string where
  "CONTRACT_VERSION = ''1''"

text \<open>\<open>_operations(family, *names)\<close>\<close>

definition operations_of :: "string \<Rightarrow> string list \<Rightarrow> op_contract list" where
  "operations_of family names =
     map (\<lambda>n. \<lparr>oc_name = n, oc_family = family, oc_framing = ''json''\<rparr>) names"

definition OPERATIONS :: "op_contract list" where
  "OPERATIONS =
     operations_of ''cluster''
       [''discover_capabilities'', ''initialization_status'', ''seal_status'', ''leader_status'',
        ''ha_status'', ''raft_configuration'', ''initialize'', ''join_raft'', ''unseal'', ''seal'',
        ''remove_raft_peer'']
     @ [\<lparr>oc_name = ''download_raft_snapshot'', oc_family = ''cluster'', oc_framing = ''stream-download''\<rparr>,
        \<lparr>oc_name = ''restore_raft_snapshot'', oc_family = ''cluster'', oc_framing = ''stream-upload''\<rparr>]
     @ operations_of ''secret-engines''
       [''execute_secret_engine_operation'', ''list_secret_engines'', ''read_secret_engine'',
        ''read_secret_engine_tuning'', ''enable_secret_engine'', ''tune_secret_engine'',
        ''remount_secret_engine'', ''secret_engine_remount_status'', ''disable_secret_engine'']
     @ operations_of ''mounted-secrets'' [''execute_mounted_operation'']
     @ operations_of ''authentication''
       [''execute_authentication_operation'', ''list_auth_methods'', ''read_auth_method'',
        ''enable_auth_method'', ''tune_auth_method'', ''remount_auth_method'', ''remount_status'',
        ''disable_auth_method'', ''read_auth_config'', ''write_auth_config'', ''run_auth_resource'',
        ''issue_approle_secret_id'', ''read_approle_role_id'', ''write_approle_role_id'',
        ''lookup_approle_secret_id'', ''destroy_approle_secret_id'', ''authenticate'',
        ''oidc_start'', ''oidc_poll'', ''read_direct_oidc_role'', ''validate_mfa'',
        ''list_mfa_methods'', ''read_mfa_method'', ''write_mfa_method'', ''delete_mfa_method'',
        ''setup_totp'', ''destroy_totp_setup'', ''reset_totp_setup'', ''list_mfa_enforcements'',
        ''read_mfa_enforcement'', ''write_mfa_enforcement'', ''delete_mfa_enforcement'',
        ''token_operation'']
     @ operations_of ''access'' [''execute_access_operation'']
     @ operations_of ''finalization'' [''execute_final_operation'']"

definition IMPLEMENTED_OPERATIONS :: "string list" where
  "IMPLEMENTED_OPERATIONS =
     [''discover_capabilities'', ''download_raft_snapshot'', ''execute_access_operation'',
      ''execute_final_operation'', ''execute_authentication_operation'',
      ''execute_secret_engine_operation'', ''ha_status'', ''initialization_status'', ''initialize'',
      ''join_raft'', ''leader_status'', ''raft_configuration'', ''remove_raft_peer'',
      ''restore_raft_snapshot'', ''seal'', ''seal_status'', ''unseal'',
      ''execute_mounted_operation'']"

definition is_implemented :: "string \<Rightarrow> bool" where
  "is_implemented name \<longleftrightarrow> List.member IMPLEMENTED_OPERATIONS name"

text \<open>\<open>_OPERATION_INDEX\<close>: a later operation of the same name would win.\<close>

definition OPERATION_INDEX :: "string \<Rightarrow> op_contract option" where
  "OPERATION_INDEX name = map_of (rev (map (\<lambda>oc. (oc_name oc, oc)) OPERATIONS)) name"

definition operation_contract :: "string \<Rightarrow> op_contract res" where
  "operation_contract name = (case OPERATION_INDEX name of
       None \<Rightarrow> Inl (ValueError ''The administration operation is unsupported.'')
     | Some oc \<Rightarrow> if \<not> is_implemented name
         then Inl (ValueError ''The administration operation is unsupported.'') else Inr oc)"

section \<open>The contract\<close>

text \<open>\<open>dataclasses.asdict\<close>\<close>

definition asdict :: "op_contract \<Rightarrow> json" where
  "asdict oc = JObj [(''name'', JStr (oc_name oc)), (''family'', JStr (oc_family oc)),
                     (''framing'', JStr (oc_framing oc))]"

definition canonical_contract :: json where
  "canonical_contract = JObj
     [(''version'', JStr CONTRACT_VERSION),
      (''operations'', JArr (map asdict (filter (\<lambda>oc. is_implemented (oc_name oc)) OPERATIONS)))]"

text \<open>The text is always there (\<open>canonical_text\<close>): the contract holds no floats.\<close>

definition CONTRACT_DIGEST :: string where
  "CONTRACT_DIGEST = sha256_hex (the (json_dumps (sort_json canonical_contract)))"

definition document_operations :: "string list \<Rightarrow> op_contract list" where
  "document_operations enabled =
     filter (\<lambda>oc. List.member enabled (oc_family oc) \<and> is_implemented (oc_name oc)) OPERATIONS"

definition contract_document :: "string list \<Rightarrow> json" where
  "contract_document enabled_families =
     (let operations = document_operations enabled_families in JObj
       [(''version'', JStr CONTRACT_VERSION),
        (''digest'', JStr CONTRACT_DIGEST),
        (''families'', JArr (map JStr (sort (remdups (map oc_family operations))))),
        (''operations'', JArr (map asdict operations))])"

section \<open>Facts\<close>

lemma operation_names_distinct: "distinct (map oc_name OPERATIONS)"
  by code_simp

lemma implemented_registered: "set IMPLEMENTED_OPERATIONS \<subseteq> oc_name ` set OPERATIONS"
proof -
  have "list_all (List.member (map oc_name OPERATIONS)) IMPLEMENTED_OPERATIONS" by code_simp
  then show ?thesis by (auto simp: list_all_iff)
qed

lemma operation_index_Some: "OPERATION_INDEX name = Some oc \<longleftrightarrow> oc \<in> set OPERATIONS \<and> oc_name oc = name"
proof -
  let ?kv = "map (\<lambda>oc. (oc_name oc, oc)) OPERATIONS"
  have "distinct (map fst (rev ?kv))"
    using operation_names_distinct by (simp add: o_def rev_map [symmetric])
  then have "map_of (rev ?kv) name = Some oc \<longleftrightarrow> (name, oc) \<in> set (rev ?kv)"
    by (rule map_of_eq_Some_iff)
  then show ?thesis by (auto simp: OPERATION_INDEX_def)
qed

lemma operation_contract_Inr:
  "operation_contract name = Inr oc \<longleftrightarrow>
     oc \<in> set OPERATIONS \<and> oc_name oc = name \<and> name \<in> set IMPLEMENTED_OPERATIONS"
proof (cases "OPERATION_INDEX name")
  case None
  then have "\<not> (oc \<in> set OPERATIONS \<and> oc_name oc = name)"
    using operation_index_Some [of name oc] by simp
  with None show ?thesis by (auto simp: operation_contract_def)
next
  case (Some oc')
  then have "oc' = oc \<longleftrightarrow> oc \<in> set OPERATIONS \<and> oc_name oc = name"
    using operation_index_Some [of name oc] by simp
  with Some show ?thesis by (auto simp: operation_contract_def is_implemented_def)
qed

lemma operation_contract_Inl: "operation_contract name = Inl e \<Longrightarrow> \<exists>m. e = ValueError m"
  by (auto simp: operation_contract_def split: option.splits if_splits)

lemma operation_contract_ok: "name \<in> set IMPLEMENTED_OPERATIONS \<Longrightarrow> \<exists>oc. operation_contract name = Inr oc"
  using implemented_registered by (force simp: operation_contract_Inr)

lemma has_float_asdict [simp]: "\<not> has_float (asdict oc)"
  by (simp add: asdict_def)

lemma has_float_sort: "has_float (sort_json v) = has_float v"
proof (induction v)
  case (JObj d)
  then have "has_float (sort_json x) = has_float x" if "(k, x) \<in> set d" for k x
    using that by (force simp: snds.simps)
  then show ?case by (force simp: list_ex_iff)
qed (auto simp: list_ex_iff)

lemma canonical_text: "\<exists>t. json_dumps (sort_json canonical_contract) = Some t"
proof (rule dumps_no_float(1))
  show "\<not> has_float (sort_json canonical_contract)"
    by (simp add: has_float_sort canonical_contract_def list_ex_iff)
qed

lemma document_operations_set:
  "oc \<in> set (document_operations fs) \<longleftrightarrow>
     oc \<in> set OPERATIONS \<and> oc_family oc \<in> set fs \<and> oc_name oc \<in> set IMPLEMENTED_OPERATIONS"
  by (auto simp: document_operations_def is_implemented_def)

lemma asdict_inject [simp]: "asdict a = asdict b \<longleftrightarrow> a = b"
  by (auto simp: asdict_def)

end
