(* ===== verification/Py_Regex.thy ===== *)
theory Py_Regex
  imports Py_Str
begin

text \<open>
  Python's \<open>re\<close> on the fragment the program uses: character classes, concatenation,
  alternation, \<open>?\<close>, \<open>*\<close> and counted repetition, always anchored and always applied with
  \<open>fullmatch\<close>. \<open>rx_matches\<close> is the declarative meaning of a pattern and
  \<open>fullmatch\<close> an executable matcher by derivatives; \<open>fullmatch_correct\<close> shows they agree,
  so that properties of a pattern table are proved by rule inversion and concrete strings are
  evaluated. (\<open>re\<close> is a backtracking matcher; for patterns without backreferences and
  assertions \<open>fullmatch\<close> decides membership in the language, which is what is modelled.)
\<close>

section \<open>Patterns\<close>

datatype rx =
    RNone
  | REps
  | RSet "(char \<times> char) list"
  | RSeq rx rx
  | RAlt rx rx
  | RStar rx
  | RRep nat nat rx

definition in_class :: "char \<Rightarrow> (char \<times> char) list \<Rightarrow> bool" where
  "in_class c rs \<longleftrightarrow> list_ex (\<lambda>(lo, hi). code lo \<le> code c \<and> code c \<le> code hi) rs"

text \<open>Building blocks of the pattern literals: a verbatim text, a sequence, a choice, an option.\<close>

primrec rlit :: "string \<Rightarrow> rx" where
  "rlit [] = REps"
| "rlit (c # cs) = RSeq (RSet [(c, c)]) (rlit cs)"

primrec rcat :: "rx list \<Rightarrow> rx" where
  "rcat [] = REps"
| "rcat (r # rs) = RSeq r (rcat rs)"

primrec ralt :: "rx list \<Rightarrow> rx" where
  "ralt [] = RNone"
| "ralt (r # rs) = RAlt r (ralt rs)"

definition ropt :: "rx \<Rightarrow> rx" where
  "ropt r = RAlt r REps"

text \<open>\<open>[A-Za-z0-9...]\<close>: the alphanumeric ranges followed by single characters.\<close>

definition alnum_and :: "string \<Rightarrow> (char \<times> char) list" where
  "alnum_and cs =
     [(CHR ''A'', CHR ''Z''), (CHR ''a'', CHR ''z''), (CHR ''0'', CHR ''9'')] @ map (\<lambda>c. (c, c)) cs"

section \<open>Meaning\<close>

inductive rx_matches :: "rx \<Rightarrow> string \<Rightarrow> bool" where
  eps: "rx_matches REps []"
| set: "in_class c rs \<Longrightarrow> rx_matches (RSet rs) [c]"
| seq: "rx_matches r u \<Longrightarrow> rx_matches q v \<Longrightarrow> rx_matches (RSeq r q) (u @ v)"
| alt1: "rx_matches r u \<Longrightarrow> rx_matches (RAlt r q) u"
| alt2: "rx_matches q u \<Longrightarrow> rx_matches (RAlt r q) u"
| star_nil: "rx_matches (RStar r) []"
| star_step: "rx_matches r u \<Longrightarrow> rx_matches (RStar r) v \<Longrightarrow> rx_matches (RStar r) (u @ v)"
| rep_nil: "rx_matches (RRep 0 hi r) []"
| rep_step: "rx_matches r u \<Longrightarrow> rx_matches (RRep (lo - 1) hi r) v \<Longrightarrow>
     rx_matches (RRep lo (Suc hi) r) (u @ v)"

inductive_simps rx_matches_none [simp]: "rx_matches RNone s"
inductive_simps rx_matches_eps [simp]: "rx_matches REps s"
inductive_simps rx_matches_set: "rx_matches (RSet rs) s"
inductive_simps rx_matches_seq: "rx_matches (RSeq r q) s"
inductive_simps rx_matches_alt [simp]: "rx_matches (RAlt r q) s"
inductive_cases rx_matches_starE: "rx_matches (RStar r) s"
inductive_cases rx_matches_repE: "rx_matches (RRep lo hi r) s"
inductive_simps rx_matches_rep0 [simp]: "rx_matches (RRep lo 0 r) s"

section \<open>The matcher\<close>

fun nullable :: "rx \<Rightarrow> bool" where
  "nullable RNone \<longleftrightarrow> False"
| "nullable REps \<longleftrightarrow> True"
| "nullable (RSet rs) \<longleftrightarrow> False"
| "nullable (RSeq r q) \<longleftrightarrow> nullable r \<and> nullable q"
| "nullable (RAlt r q) \<longleftrightarrow> nullable r \<or> nullable q"
| "nullable (RStar r) \<longleftrightarrow> True"
| "nullable (RRep lo hi r) \<longleftrightarrow> lo = 0 \<or> (nullable r \<and> lo \<le> hi)"

fun mk_seq :: "rx \<Rightarrow> rx \<Rightarrow> rx" where
  "mk_seq RNone q = RNone"
| "mk_seq REps q = q"
| "mk_seq r q = RSeq r q"

fun mk_alt :: "rx \<Rightarrow> rx \<Rightarrow> rx" where
  "mk_alt RNone q = q"
| "mk_alt r q = (if q = RNone then r else RAlt r q)"

primrec deriv :: "char \<Rightarrow> rx \<Rightarrow> rx" where
  "deriv c RNone = RNone"
| "deriv c REps = RNone"
| "deriv c (RSet rs) = (if in_class c rs then REps else RNone)"
| "deriv c (RSeq r q) =
     (if nullable r then mk_alt (mk_seq (deriv c r) q) (deriv c q) else mk_seq (deriv c r) q)"
| "deriv c (RAlt r q) = mk_alt (deriv c r) (deriv c q)"
| "deriv c (RStar r) = mk_seq (deriv c r) (RStar r)"
| "deriv c (RRep lo hi r) =
     (if hi = 0 then RNone else mk_seq (deriv c r) (RRep (lo - 1) (hi - 1) r))"

primrec derivs :: "string \<Rightarrow> rx \<Rightarrow> rx" where
  "derivs [] r = r"
| "derivs (c # cs) r = derivs cs (deriv c r)"

definition fullmatch :: "rx \<Rightarrow> string \<Rightarrow> bool" where
  "fullmatch r s \<longleftrightarrow> nullable (derivs s r)"

section \<open>Correctness of the matcher\<close>

lemma rep_bounds: "rx_matches r' w \<Longrightarrow> r' = RRep lo hi r \<Longrightarrow> lo \<le> hi \<or> lo = 0"
  by (induction arbitrary: lo hi rule: rx_matches.induct) force+

lemma rep_nullable: "rx_matches r [] \<Longrightarrow> lo \<le> hi \<Longrightarrow> rx_matches (RRep lo hi r) []"
proof (induction hi arbitrary: lo)
  case 0
  then show ?case by simp
next
  case (Suc hi)
  then have "rx_matches (RRep (lo - 1) hi r) []" by simp
  from rx_matches.rep_step [OF Suc.prems(1) this] show ?case by simp
qed

lemma rep_Nil: "rx_matches r' w \<Longrightarrow> r' = RRep lo hi r \<Longrightarrow> w = [] \<Longrightarrow> lo = 0 \<or> rx_matches r []"
  by (induction arbitrary: lo hi rule: rx_matches.induct) auto

lemma nullable_correct: "nullable r \<longleftrightarrow> rx_matches r []"
proof (induction r)
  case (RRep lo hi r)
  show ?case
  proof
    assume "nullable (RRep lo hi r)"
    then show "rx_matches (RRep lo hi r) []"
      using RRep.IH rep_nullable by (auto intro: rx_matches.rep_nil)
  next
    assume m: "rx_matches (RRep lo hi r) []"
    with rep_Nil [OF m refl refl] rep_bounds [OF m refl] RRep.IH
    show "nullable (RRep lo hi r)" by auto
  qed
qed (auto simp: rx_matches_set rx_matches_seq intro: rx_matches.star_nil)

lemma mk_seq_matches [simp]: "rx_matches (mk_seq r q) s \<longleftrightarrow> rx_matches (RSeq r q) s"
  by (cases r) (auto simp: rx_matches_seq)

lemma mk_alt_matches [simp]: "rx_matches (mk_alt r q) s \<longleftrightarrow> rx_matches (RAlt r q) s"
  by (cases r) auto

text \<open>Consuming one character of a repetition, with or without a bound.\<close>

lemma star_consume:
  "rx_matches r' w \<Longrightarrow> r' = RStar r \<Longrightarrow> w = c # s \<Longrightarrow>
   \<exists>u v. s = u @ v \<and> rx_matches r (c # u) \<and> rx_matches (RStar r) v"
proof (induction arbitrary: s rule: rx_matches.induct)
  case (star_step r1 u v)
  then show ?case by (cases u) auto
qed simp_all

lemma rep_consume:
  "rx_matches r' w \<Longrightarrow> r' = RRep lo hi r \<Longrightarrow> w = c # s \<Longrightarrow>
   \<exists>h u v. hi = Suc h \<and> s = u @ v \<and> rx_matches r (c # u) \<and> rx_matches (RRep (lo - 1) h r) v"
proof (induction arbitrary: lo hi s rule: rx_matches.induct)
  case (rep_step r1 u lo1 h1 v)
  show ?case
  proof (cases u)
    case Nil
    with rep_step.prems rep_step.IH(2) [of "lo1 - 1" h1 s]
    obtain h' u' v' where h': "h1 = Suc h'" "s = u' @ v'" "rx_matches r (c # u')"
      "rx_matches (RRep (lo1 - 1 - 1) h' r) v'" by auto
    from Nil rep_step have "rx_matches r []" by simp
    from rx_matches.rep_step [OF this h'(4)] h'(1)
    have "rx_matches (RRep (lo1 - 1) h1 r) v'" by simp
    with h' rep_step.prems show ?thesis by auto
  next
    case (Cons d u')
    with rep_step show ?thesis by auto
  qed
qed simp_all

lemma deriv_correct: "rx_matches (deriv c r) s \<longleftrightarrow> rx_matches r (c # s)"
proof (induction r arbitrary: s)
  case (RSeq r q)
  show ?case
  proof
    assume "rx_matches (deriv c (RSeq r q)) s"
    then show "rx_matches (RSeq r q) (c # s)"
      using RSeq.IH
      by (auto simp: rx_matches_seq nullable_correct Cons_eq_append_conv split: if_splits)
  next
    assume "rx_matches (RSeq r q) (c # s)"
    then obtain u v where "c # s = u @ v" "rx_matches r u" "rx_matches q v"
      by (auto simp: rx_matches_seq)
    then show "rx_matches (deriv c (RSeq r q)) s"
      using RSeq.IH
      by (cases u) (auto simp: rx_matches_seq nullable_correct)
  qed
next
  case (RStar r)
  show ?case
  proof
    assume "rx_matches (deriv c (RStar r)) s"
    then obtain u v where "s = u @ v" "rx_matches r (c # u)" "rx_matches (RStar r) v"
      using RStar.IH by (auto simp: rx_matches_seq)
    then show "rx_matches (RStar r) (c # s)"
      using rx_matches.star_step by fastforce
  next
    assume "rx_matches (RStar r) (c # s)"
    then show "rx_matches (deriv c (RStar r)) s"
      using star_consume RStar.IH by (fastforce simp: rx_matches_seq)
  qed
next
  case (RRep lo hi r)
  show ?case
  proof
    assume "rx_matches (deriv c (RRep lo hi r)) s"
    then obtain u v h where "hi = Suc h" "s = u @ v" "rx_matches r (c # u)"
      "rx_matches (RRep (lo - 1) h r) v"
      using RRep.IH by (cases hi) (auto simp: rx_matches_seq)
    then show "rx_matches (RRep lo hi r) (c # s)"
      using rx_matches.rep_step by fastforce
  next
    assume "rx_matches (RRep lo hi r) (c # s)"
    then show "rx_matches (deriv c (RRep lo hi r)) s"
      using rep_consume RRep.IH by (fastforce simp: rx_matches_seq)
  qed
qed (auto simp: rx_matches_set)

theorem fullmatch_correct: "fullmatch r s \<longleftrightarrow> rx_matches r s"
  unfolding fullmatch_def
  by (induction s arbitrary: r) (auto simp: nullable_correct deriv_correct)

section \<open>Reading off facts from a pattern\<close>

lemma rlit_matches [simp]: "rx_matches (rlit w) s \<longleftrightarrow> s = w"
proof (induction w arbitrary: s)
  case Nil
  show ?case by simp
next
  case (Cons c w)
  have "in_class d [(c, c)] \<longleftrightarrow> code d = code c" for d
    by (auto simp: in_class_def)
  then have "in_class d [(c, c)] \<longleftrightarrow> d = c" for d by simp
  with Cons show ?case by (auto simp: rx_matches_seq rx_matches_set)
qed

lemma rcat_matches_Cons:
  "rx_matches (rcat (r # rs)) s \<longleftrightarrow> (\<exists>u v. s = u @ v \<and> rx_matches r u \<and> rx_matches (rcat rs) v)"
  by (auto simp: rx_matches_seq)

lemma rcat_lit_matches:
  "rx_matches (rcat (rlit w # rs)) s \<longleftrightarrow> (\<exists>t. s = w @ t \<and> rx_matches (rcat rs) t)"
  by (auto simp: rx_matches_seq)

lemma ralt_matches: "rx_matches (ralt rs) s \<longleftrightarrow> (\<exists>r \<in> set rs. rx_matches r s)"
  by (induction rs) auto

lemma ropt_matches [simp]: "rx_matches (ropt r) s \<longleftrightarrow> s = [] \<or> rx_matches r s"
  by (auto simp: ropt_def)

text \<open>The classes of a pattern bound the characters of everything it matches.\<close>

primrec rx_class :: "rx \<Rightarrow> (char \<times> char) list" where
  "rx_class RNone = []"
| "rx_class REps = []"
| "rx_class (RSet rs) = rs"
| "rx_class (RSeq r q) = rx_class r @ rx_class q"
| "rx_class (RAlt r q) = rx_class r @ rx_class q"
| "rx_class (RStar r) = rx_class r"
| "rx_class (RRep lo hi r) = rx_class r"

lemma in_class_append [simp]: "in_class c (rs @ qs) \<longleftrightarrow> in_class c rs \<or> in_class c qs"
  by (simp add: in_class_def)

lemma rx_matches_class: "rx_matches r s \<Longrightarrow> c \<in> set s \<Longrightarrow> in_class c (rx_class r)"
  by (induction rule: rx_matches.induct) auto

lemma rep_set_length:
  "rx_matches r' w \<Longrightarrow> r' = RRep lo hi (RSet rs) \<Longrightarrow>
   lo \<le> length w \<and> length w \<le> hi \<and> (\<forall>c \<in> set w. in_class c rs)"
proof (induction arbitrary: lo hi rule: rx_matches.induct)
  case (rep_step r u lo1 h v)
  then show ?case by (fastforce simp: rx_matches_set)
qed auto

lemma rep_set_matchesI:
  "\<forall>c \<in> set w. in_class c rs \<Longrightarrow> lo \<le> length w \<Longrightarrow> length w \<le> hi \<Longrightarrow>
   rx_matches (RRep lo hi (RSet rs)) w"
proof (induction w arbitrary: lo hi)
  case Nil
  then show ?case by (simp add: rx_matches.rep_nil)
next
  case (Cons c w)
  then obtain h where hi: "hi = Suc h" by (cases hi) auto
  with Cons have "rx_matches (RRep (lo - 1) h (RSet rs)) w" by auto
  moreover have "rx_matches (RSet rs) [c]" using Cons by (simp add: rx_matches_set)
  ultimately show ?case using rx_matches.rep_step [of "RSet rs" "[c]"] hi by simp
qed

lemma rep_set_matches:
  "rx_matches (RRep lo hi (RSet rs)) w \<longleftrightarrow>
     lo \<le> length w \<and> length w \<le> hi \<and> (\<forall>c \<in> set w. in_class c rs)"
  using rep_set_length rep_set_matchesI by blast

end
