(* ===== verification/Py_Url.thy ===== *)
theory Py_Url
  imports Py_Str
begin

text \<open>
  \<open>urllib.parse.urlsplit\<close> and the parts of \<open>ipaddress\<close> it calls for a bracketed host, as far as
  the administration contract reads them: the scheme, the user information, the host name, the path,
  the query and the fragment of a leader address. On code points up to 255 the NFKC check of the
  network location never objects, so it is left out.
\<close>

section \<open>Splitting helpers\<close>

text \<open>\<open>s.partition(sep)\<close> and \<open>s.rpartition(sep)\<close>: before, whether found, after.\<close>

definition partition_on :: "char \<Rightarrow> string \<Rightarrow> string \<times> bool \<times> string" where
  "partition_on sep s = (case find_char sep s of
       None \<Rightarrow> (s, False, []) | Some i \<Rightarrow> (take i s, True, drop (Suc i) s))"

definition rpartition_on :: "char \<Rightarrow> string \<Rightarrow> string \<times> bool \<times> string" where
  "rpartition_on sep s = (case find_char sep (rev s) of
       None \<Rightarrow> ([], False, s)
     | Some i \<Rightarrow> (take (length s - Suc i) s, True, drop (length s - i) s))"

definition is_alpha :: "char \<Rightarrow> bool" where
  "is_alpha c \<longleftrightarrow> (65 \<le> code c \<and> code c \<le> 90) \<or> (97 \<le> code c \<and> code c \<le> 122)"

section \<open>Address literals\<close>

definition ipv4_octet :: "string \<Rightarrow> bool" where
  "ipv4_octet s \<longleftrightarrow> s \<noteq> [] \<and> list_all is_digit s \<and> length s \<le> 3 \<and>
     (s = ''0'' \<or> hd s \<noteq> CHR ''0'') \<and> (case digits_value s 0 of Some n \<Rightarrow> n \<le> 255 | None \<Rightarrow> False)"

definition is_ipv4 :: "string \<Rightarrow> bool" where
  "is_ipv4 s \<longleftrightarrow> (let os = split_on CHR ''.'' s in length os = 4 \<and> list_all ipv4_octet os)"

definition hextet :: "string \<Rightarrow> bool" where
  "hextet s \<longleftrightarrow> s \<noteq> [] \<and> list_all is_hex s \<and> length s \<le> 4"

text \<open>The positions strictly between the ends where nothing stands between two colons.\<close>

definition inner_gaps :: "string list \<Rightarrow> nat list" where
  "inner_gaps parts = filter (\<lambda>i. 0 < i \<and> Suc i < length parts \<and> parts ! i = []) [0..<length parts]"

text \<open>\<open>IPv6Address._ip_int_from_string\<close>, on the parts between the colons.\<close>

definition ipv6_parts_ok :: "string list \<Rightarrow> bool" where
  "ipv6_parts_ok parts =
     (if 9 < length parts then False
      else case inner_gaps parts of
        [] \<Rightarrow> length parts = 8 \<and> list_all hextet parts
      | [i] \<Rightarrow>
          (let front = (if parts ! 0 = [] then i - 1 else i);
               back = (if last parts = [] then length parts - i - 2 else length parts - i - 1)
           in (parts ! 0 = [] \<longrightarrow> front = 0) \<and> (last parts = [] \<longrightarrow> back = 0) \<and> front + back < 8
              \<and> list_all hextet (take front parts) \<and> list_all hextet (drop (length parts - back) parts))
      | _ \<Rightarrow> False)"

text \<open>
  A trailing dotted quad stands for two groups; their text is not needed to decide validity, so
  they are replaced by \<open>0\<close>.
\<close>

definition is_ipv6 :: "string \<Rightarrow> bool" where
  "is_ipv6 s =
     (let (addr, scoped, scope) = partition_on CHR ''%'' s; parts = split_on CHR '':'' addr in
      if List.member s CHR ''/'' then False
      else if scoped \<and> (scope = [] \<or> List.member scope CHR ''%'') then False
      else if addr = [] \<or> length parts < 3 then False
      else if List.member (last parts) CHR ''.''
        then is_ipv4 (last parts) \<and> ipv6_parts_ok (butlast parts @ [''0'', ''0''])
      else ipv6_parts_ok parts)"

text \<open>\<open>_check_bracketed_host\<close>: \<open>v<hex>.<text>\<close>, or an IPv6 address.\<close>

definition bracketed_host_ok :: "string \<Rightarrow> bool" where
  "bracketed_host_ok h =
     (if startswith h ''v'' then
        (let (ver, dot, rest) = partition_on CHR ''.'' (drop 1 h)
         in ver \<noteq> [] \<and> list_all is_hex ver \<and> dot \<and> rest \<noteq> [] \<and> \<not> List.member rest (char_of (10::nat)))
      else is_ipv6 h)"

definition bracketed_netloc_ok :: "string \<Rightarrow> bool" where
  "bracketed_netloc_ok netloc =
     (let (_, _, hostport) = rpartition_on CHR ''@'' netloc;
          (preceding, opened, bracketed) = partition_on CHR ''['' hostport
      in if opened then
           (let (host, _, port) = partition_on CHR '']'' bracketed
            in preceding = [] \<and> (port = [] \<or> startswith port '':'') \<and> bracketed_host_ok host)
         else (let (host, _, _) = partition_on CHR '':'' hostport in bracketed_host_ok host))"

section \<open>Splitting a URL\<close>

record split_url =
  su_scheme :: string
  su_netloc :: string
  su_path :: string
  su_query :: string
  su_fragment :: string

definition scheme_char :: "char \<Rightarrow> bool" where
  "scheme_char c \<longleftrightarrow> is_alpha c \<or> is_digit c \<or> c = CHR ''+'' \<or> c = CHR ''-'' \<or> c = CHR ''.''"

text \<open>The input without leading controls and spaces, and without tabs and line breaks.\<close>

definition clean_url :: "string \<Rightarrow> string" where
  "clean_url s = filter (\<lambda>c. code c \<noteq> 9 \<and> code c \<noteq> 10 \<and> code c \<noteq> 13) (dropWhile (\<lambda>c. code c \<le> 32) s)"

definition split_scheme :: "string \<Rightarrow> string \<times> string" where
  "split_scheme url = (case find_char CHR '':'' url of
       None \<Rightarrow> ([], url)
     | Some i \<Rightarrow>
         if 0 < i \<and> is_alpha (hd url) \<and> list_all scheme_char (take i url)
         then (lower (take i url), drop (Suc i) url) else ([], url))"

definition split_netloc :: "string \<Rightarrow> string \<times> string" where
  "split_netloc url =
     (if startswith url ''//'' then
        (let rest = drop 2 url; stop = (\<lambda>c. c = CHR ''/'' \<or> c = CHR ''?'' \<or> c = CHR ''#'')
         in (takeWhile (\<lambda>c. \<not> stop c) rest, dropWhile (\<lambda>c. \<not> stop c) rest))
      else ([], url))"

text \<open>\<open>None\<close> is a \<open>ValueError\<close>.\<close>

definition urlsplit :: "string \<Rightarrow> split_url option" where
  "urlsplit s =
     (let (scheme, url1) = split_scheme (clean_url s);
          (netloc, url2) = split_netloc url1;
          opened = List.member netloc CHR ''['';
          closed = List.member netloc CHR '']''
      in if opened \<noteq> closed then None
         else if opened \<and> closed \<and> \<not> bracketed_netloc_ok netloc then None
         else
           (let (url3, _, fragment) = partition_on CHR ''#'' url2;
                (path, _, query) = partition_on CHR ''?'' url3
            in Some \<lparr>su_scheme = scheme, su_netloc = netloc, su_path = path, su_query = query,
                     su_fragment = fragment\<rparr>))"

definition su_username :: "split_url \<Rightarrow> string" where
  "su_username u = (let (userinfo, have, _) = rpartition_on CHR ''@'' (su_netloc u)
     in if have then fst (partition_on CHR '':'' userinfo) else [])"

definition su_password :: "split_url \<Rightarrow> string" where
  "su_password u = (let (userinfo, have, _) = rpartition_on CHR ''@'' (su_netloc u)
     in if have then snd (snd (partition_on CHR '':'' userinfo)) else [])"

text \<open>The host name before it is lowered, which is all its truth value needs.\<close>

definition su_hostname :: "split_url \<Rightarrow> string" where
  "su_hostname u =
     (let (_, _, hostinfo) = rpartition_on CHR ''@'' (su_netloc u);
          (_, opened, bracketed) = partition_on CHR ''['' hostinfo
      in if opened then fst (partition_on CHR '']'' bracketed) else fst (partition_on CHR '':'' hostinfo))"

section \<open>Facts\<close>

lemma split_scheme_https:
  "split_scheme url = (''https'', rest) \<Longrightarrow> \<exists>p. lower p = ''https'' \<and> url = p @ '':'' @ rest"
proof -
  assume a: "split_scheme url = (''https'', rest)"
  then obtain i where i: "find_char CHR '':'' url = Some i" "lower (take i url) = ''https''"
    "rest = drop (Suc i) url"
    by (auto simp: split_scheme_def split: option.splits if_splits)
  from find_char_Some [OF i(1)] have "url = take i url @ CHR '':'' # drop (Suc i) url"
    by (metis id_take_nth_drop)
  with i have "lower (take i url) = ''https'' \<and> url = take i url @ '':'' @ rest" by simp
  then show ?thesis by blast
qed

end
