(* ===== verification/Admin_Arguments.thy ===== *)
theory Admin_Arguments
  imports Admin_Registry Py_Regex Py_Url
begin

text \<open>
  The validation of administration arguments in \<^verbatim>\<open>broker/administration.py\<close>: the global resource
  bounds, the exact top-level shape of each operation, the typed arguments of the cluster operations,
  and the reviewed method and path tables of the proxied families.
\<close>

section \<open>Bounds and shapes\<close>

definition MAX_ARGUMENT_BYTES :: nat where "MAX_ARGUMENT_BYTES = 1000000"
definition MAX_ARGUMENT_DEPTH :: nat where "MAX_ARGUMENT_DEPTH = 8"
definition MAX_ARGUMENT_ITEMS :: nat where "MAX_ARGUMENT_ITEMS = 2000"
definition MAX_ARGUMENT_STRING :: nat where "MAX_ARGUMENT_STRING = 512000"

text \<open>
  \<open>_validate_value\<close>, \<open>_validate_list\<close> and \<open>_validate_mapping\<close>: the number of items, or an
  error. The keys of a parsed dictionary are strings. A \<open>float\<close> is an unsupported value.
\<close>

fun validate_value :: "json \<Rightarrow> nat \<Rightarrow> nat res"
  and validate_items :: "json list \<Rightarrow> nat \<Rightarrow> nat res"
  and validate_fields :: "(string \<times> json) list \<Rightarrow> nat \<Rightarrow> nat res" where
  "validate_value v depth =
     (if MAX_ARGUMENT_DEPTH < depth
      then Inl (ValueError ''The administration arguments are too deeply nested.'')
      else case v of
        JNull \<Rightarrow> Inr 1
      | JBool b \<Rightarrow> Inr 1
      | JInt i \<Rightarrow> Inr 1
      | JStr s \<Rightarrow>
          if MAX_ARGUMENT_STRING < length s \<or> list_ex (\<lambda>c. code c < 32) s
          then Inl (ValueError ''The administration arguments contain an invalid string.'') else Inr 1
      | JArr xs \<Rightarrow>
          if MAX_ARGUMENT_ITEMS < length xs
          then Inl (ValueError ''The administration arguments contain too many items.'')
          else res_bind (validate_items xs (Suc depth)) (\<lambda>n. Inr (Suc n))
      | JObj d \<Rightarrow>
          if MAX_ARGUMENT_ITEMS < length d
          then Inl (ValueError ''The administration arguments contain too many fields.'')
          else res_bind (validate_fields d (Suc depth)) (\<lambda>n. Inr (Suc n))
      | JFloat f \<Rightarrow> Inl (ValueError ''The administration arguments contain an unsupported value.''))"
| "validate_items [] depth = Inr 0"
| "validate_items (x # xs) depth = res_bind (validate_value x depth) (\<lambda>n.
     res_bind (validate_items xs depth) (\<lambda>m. Inr (n + m)))"
| "validate_fields [] depth = Inr 0"
| "validate_fields ((k, x) # d) depth =
     (if k = [] \<or> 200 < length k
      then Inl (ValueError ''The administration arguments contain an invalid field name.'')
      else res_bind (validate_value x depth) (\<lambda>n.
           res_bind (validate_fields d depth) (\<lambda>m. Inr (n + m))))"

text \<open>\<open>_ARGUMENT_KEYS\<close> and \<open>_REQUIRED_ARGUMENT_KEYS\<close>\<close>

definition ARGUMENT_KEYS :: "(string \<times> string list) list" where
  "ARGUMENT_KEYS =
    [(''discover_capabilities'', []),
     (''execute_access_operation'', [''material'', ''method'', ''path'', ''payload'']),
     (''execute_authentication_operation'', [''method'', ''path'', ''payload'', ''token'']),
     (''execute_final_operation'', [''material'', ''method'', ''path'', ''payload'']),
     (''execute_secret_engine_operation'', [''method'', ''path'', ''payload'']),
     (''execute_mounted_operation'',
        [''body'', ''method'', ''mount_path'', ''operation_id'', ''path'', ''path_template'', ''query'']),
     (''ha_status'', []),
     (''initialization_status'', []),
     (''initialize'',
        [''pgp_keys'', ''recovery_pgp_keys'', ''recovery_shares'', ''recovery_threshold'',
         ''root_token_pgp_key'', ''secret_shares'', ''secret_threshold'', ''stored_shares'']),
     (''join_raft'',
        [''leader_api_addr'', ''leader_ca_cert'', ''leader_client_cert'', ''leader_client_key'',
         ''non_voter'', ''retry'']),
     (''leader_status'', []),
     (''raft_configuration'', []),
     (''remove_raft_peer'', [''server_id'']),
     (''seal'', []),
     (''seal_status'', []),
     (''unseal'', [''key'', ''migrate'', ''reset''])]"

definition REQUIRED_ARGUMENT_KEYS :: "(string \<times> string list) list" where
  "REQUIRED_ARGUMENT_KEYS =
    [(''execute_access_operation'', [''method'', ''path'', ''payload'']),
     (''execute_authentication_operation'', [''method'', ''path'', ''payload'']),
     (''execute_final_operation'', [''method'', ''path'', ''payload'']),
     (''execute_secret_engine_operation'', [''method'', ''path'', ''payload'']),
     (''execute_mounted_operation'',
        [''body'', ''method'', ''mount_path'', ''operation_id'', ''path'', ''path_template'', ''query'']),
     (''initialize'', [''secret_shares'', ''secret_threshold'']),
     (''join_raft'', [''leader_api_addr'']),
     (''remove_raft_peer'', [''server_id''])]"

definition required_keys :: "string \<Rightarrow> string list" where
  "required_keys operation = (case map_of REQUIRED_ARGUMENT_KEYS operation of None \<Rightarrow> [] | Some ks \<Rightarrow> ks)"

definition subset_list :: "string list \<Rightarrow> string list \<Rightarrow> bool" where
  "subset_list xs ys \<longleftrightarrow> list_all (List.member ys) xs"

section \<open>Typed arguments of the cluster operations\<close>

definition field_error :: "string \<Rightarrow> exn" where
  "field_error key = ValueError (''The administration field '' @ key @ '' is invalid.'')"

fun int_between :: "json \<Rightarrow> int \<Rightarrow> int \<Rightarrow> bool" where
  "int_between (JInt i) lo hi \<longleftrightarrow> lo \<le> i \<and> i \<le> hi"
| "int_between _ lo hi \<longleftrightarrow> False"

fun str_between :: "json \<Rightarrow> nat \<Rightarrow> nat \<Rightarrow> bool" where
  "str_between (JStr s) lo hi \<longleftrightarrow> lo \<le> length s \<and> length s \<le> hi"
| "str_between _ lo hi \<longleftrightarrow> False"

definition positive_integer :: "dict \<Rightarrow> string \<Rightarrow> bool \<Rightarrow> unit res" where
  "positive_integer arguments key required =
     (let v = dget arguments key in
      if v = JNull \<and> \<not> required then Inr ()
      else res_guard (int_between v 1 10000) (field_error key))"

definition string_list :: "dict \<Rightarrow> string \<Rightarrow> unit res" where
  "string_list arguments key = (case dget arguments key of
       JNull \<Rightarrow> Inr ()
     | JArr xs \<Rightarrow> res_guard (length xs \<le> 10000 \<and> list_all (\<lambda>x. str_between x 1 20000) xs) (field_error key)
     | _ \<Rightarrow> Inl (field_error key))"

definition optional_string :: "nat \<Rightarrow> dict \<Rightarrow> string \<Rightarrow> unit res" where
  "optional_string maximum arguments key =
     (let v = dget arguments key in
      res_guard (v = JNull \<or> str_between v 1 maximum) (field_error key))"

definition optional_boolean :: "dict \<Rightarrow> string \<Rightarrow> unit res" where
  "optional_boolean arguments key =
     res_guard (\<not> List.member (keys arguments) key \<or> is_bool (dget arguments key)) (field_error key)"

text \<open>\<open>arguments["secret_threshold"] > arguments["secret_shares"]\<close>, both integers by then.\<close>

definition validate_initialize :: "dict \<Rightarrow> unit res" where
  "validate_initialize arguments =
     res_bind (res_each (\<lambda>k. positive_integer arguments k True) [''secret_shares'', ''secret_threshold'']) (\<lambda>_.
     res_bind (res_each (\<lambda>k. positive_integer arguments k False)
                 [''stored_shares'', ''recovery_shares'', ''recovery_threshold'']) (\<lambda>_.
     res_bind (res_guard (\<not> num_val (dget arguments ''secret_shares'') < num_val (dget arguments ''secret_threshold''))
                 (ValueError ''The administration initialization threshold is invalid.'')) (\<lambda>_.
     res_bind (res_each (string_list arguments) [''pgp_keys'', ''recovery_pgp_keys'']) (\<lambda>_.
     optional_string 20000 arguments ''root_token_pgp_key''))))"

definition leader_error :: exn where
  "leader_error = ValueError ''The administration leader address is invalid.''"

text \<open>
  \<open>urlsplit\<close> raises a \<open>ValueError\<close> of its own on a malformed bracketed host.
\<close>

definition check_leader_address :: "json \<Rightarrow> unit res" where
  "check_leader_address v = (case v of
       JStr address \<Rightarrow>
         if 4096 < length address then Inl leader_error
         else (case urlsplit address of
             None \<Rightarrow> Inl (ValueError ''Invalid IPv6 URL'')
           | Some u \<Rightarrow>
               if su_scheme u \<noteq> ''https'' \<or> su_hostname u = [] \<or> su_username u \<noteq> [] \<or> su_password u \<noteq> []
               then Inl leader_error
               else if su_query u \<noteq> [] \<or> su_fragment u \<noteq> [] \<or> (su_path u \<noteq> [] \<and> su_path u \<noteq> ''/'')
               then Inl leader_error
               else Inr ())
     | _ \<Rightarrow> Inl leader_error)"

definition validate_join :: "dict \<Rightarrow> unit res" where
  "validate_join arguments =
     res_bind (dindex arguments ''leader_api_addr'') (\<lambda>address.
     res_bind (check_leader_address address) (\<lambda>_.
     res_bind (res_each (optional_string 512000 arguments)
                 [''leader_ca_cert'', ''leader_client_cert'', ''leader_client_key'']) (\<lambda>_.
     res_each (optional_boolean arguments) [''retry'', ''non_voter''])))"

definition validate_unseal :: "dict \<Rightarrow> unit res" where
  "validate_unseal arguments =
     (let key = dget arguments ''key'' in
      res_bind (res_guard (key = JNull \<or> str_between key 1 20000)
                  (ValueError ''The administration unseal key is invalid.'')) (\<lambda>_.
      res_bind (res_each (optional_boolean arguments) [''reset'', ''migrate'']) (\<lambda>_.
      res_guard (truthy key \<or> truthy (dget arguments ''reset''))
        (ValueError ''The administration unseal request needs a key or reset.''))))"

end
