(* ===== verification/Admin_Paths.thy ===== *)
theory Admin_Paths
  imports Admin_Arguments
begin

text \<open>
  The reviewed paths of \<^verbatim>\<open>broker/administration.py\<close>: the pattern tables of the proxied families,
  the validators of proxied and mounted operations, and \<open>validate_arguments\<close>, which ties the
  validation of one request together.
\<close>

section \<open>Patterns\<close>

definition alnum :: rx where
  "alnum = RSet (alnum_and [])"

definition NAME_RX :: rx where
  "NAME_RX = RSeq alnum (RRep 0 199 (RSet (alnum_and ''_.@+-'')))"

definition HEX_RX :: rx where
  "HEX_RX = RSet [(CHR ''0'', CHR ''9''), (CHR ''a'', CHR ''f''), (CHR ''A'', CHR ''F'')]"

definition UUID_RX :: rx where
  "UUID_RX = rcat [RRep 8 8 HEX_RX, RRep 3 3 (RSeq (rlit ''-'') (RRep 4 4 HEX_RX)), rlit ''-'', RRep 12 12 HEX_RX]"

definition LEASE_RX :: rx where
  "LEASE_RX = RSeq alnum (RRep 0 499 (RSet (alnum_and ''_.:/+-'')))"

definition HEADER_RX :: rx where
  "HEADER_RX = RSeq (RSet [(CHR ''A'', CHR ''Z''), (CHR ''a'', CHR ''z'')]) (RRep 0 126 (RSet (alnum_and ''-'')))"

definition MOUNT_RX :: rx where
  "MOUNT_RX = RSeq alnum (RRep 0 127 (RSet (alnum_and ''_.-'')))"

definition MOUNT_PATH_RX :: rx where
  "MOUNT_PATH_RX = RSeq MOUNT_RX (RStar (RSeq (rlit ''/'') MOUNT_RX))"

definition SERVER_ID_RX :: rx where
  "SERVER_ID_RX = RSeq alnum (RRep 0 255 (RSet (alnum_and ''_.:-'')))"

definition OPERATION_ID_RX :: rx where
  "OPERATION_ID_RX = RSeq alnum (RRep 0 199 (RSet (alnum_and ''_.:-'')))"

definition TEMPLATE_SEGMENT_RX :: rx where
  "TEMPLATE_SEGMENT_RX =
     RAlt (let cls = RSet (alnum_and ''._~-'') in RSeq cls (RStar cls))
          (rcat [rlit ''{'', RSet [(CHR ''A'', CHR ''Z''), (CHR ''a'', CHR ''z'')],
                 RRep 0 63 (RSet (alnum_and ''_'')), rlit ''}''])"

definition MOUNT_PLACEHOLDER_RX :: rx where
  "MOUNT_PLACEHOLDER_RX =
     rcat [rlit ''{'', alnum, RRep 0 450 (RSet (alnum_and ''_./'')), rlit ''_mount_path}'']"

definition ACTUAL_SEGMENT_RX :: rx where
  "ACTUAL_SEGMENT_RX = RRep 1 500 (RSet (alnum_and ''._~:@+-''))"

section \<open>The path tables\<close>

type_synonym path_table = "(string list \<times> rx) list"

text \<open>\<open>(?:/x)?\<close> at the end of a pattern\<close>

definition opt_segment :: "rx \<Rightarrow> rx" where
  "opt_segment r = ropt (RSeq (rlit ''/'') r)"

abbreviation words_rx :: "string list \<Rightarrow> rx" where
  "words_rx ws \<equiv> ralt (map rlit ws)"

abbreviation all_methods :: "string list" where
  "all_methods \<equiv> [''GET'', ''LIST'', ''POST'', ''DELETE'']"

definition ACCESS_PATHS :: path_table where
  "ACCESS_PATHS =
    [(all_methods, rcat [rlit ''/sys/policies/'', words_rx [''acl'', ''password''], opt_segment NAME_RX]),
     ([''GET''], rcat [rlit ''/sys/policies/password/'', NAME_RX, rlit ''/generate'']),
     (all_methods, rcat [rlit ''/identity/'', words_rx [''entity'', ''entity-alias'', ''group'', ''group-alias''],
        ropt (RSeq (rlit ''/id'') (opt_segment UUID_RX))]),
     ([''POST''], rcat [rlit ''/identity/entity/merge'']),
     (all_methods, rcat [rlit ''/identity/oidc/'',
        words_rx [''client'', ''key'', ''assignment'', ''provider'', ''scope''], opt_segment NAME_RX]),
     ([''POST''], rcat [rlit ''/identity/oidc/key/'', NAME_RX, rlit ''/rotate'']),
     (all_methods, rcat [rlit ''/sys/namespaces'', opt_segment NAME_RX])]"

definition FINAL_PATHS :: path_table where
  "FINAL_PATHS =
    [([''LIST''], rcat [rlit ''/sys/leases/lookup'', opt_segment LEASE_RX]),
     ([''POST''], rcat [rlit ''/sys/leases/'', words_rx [''lookup'', ''renew'', ''revoke'']]),
     ([''POST''], rcat [rlit ''/sys/leases/'', words_rx [''revoke-prefix'', ''revoke-force''], rlit ''/'', LEASE_RX]),
     ([''POST''], rcat [rlit ''/sys/wrapping/'', words_rx [''wrap'', ''lookup'', ''rewrap'', ''unwrap'']]),
     ([''POST''], rcat [rlit ''/sys/tools/hash/'', words_rx [''sha2'', ''sha3''], rlit ''-'',
        words_rx [''224'', ''256'', ''384'', ''512'']]),
     ([''POST''], rcat [rlit ''/sys/tools/random/'', words_rx [''platform'', ''all'']]),
     ([''POST''], rcat [rlit ''/auth/token/lookup'']),
     ([''LIST''], rcat [rlit ''/sys/config/ui/headers'']),
     ([''GET'', ''POST'', ''DELETE''], rcat [rlit ''/sys/config/ui/headers/'', HEADER_RX])]"

definition AUTH_PATHS :: path_table where
  "AUTH_PATHS =
    [([''LIST''], rcat [rlit ''/sys/auth'']),
     ([''GET'', ''POST'', ''DELETE''], rcat [rlit ''/sys/auth/'', MOUNT_RX, ropt (rlit ''/tune'')]),
     ([''POST''], rcat [rlit ''/sys/remount'']),
     ([''GET''], rcat [rlit ''/sys/remount/status/'', UUID_RX]),
     ([''GET'', ''POST''], rcat [rlit ''/auth/'', MOUNT_RX, rlit ''/config'']),
     (all_methods, rcat [rlit ''/auth/'', MOUNT_RX, rlit ''/'',
        words_rx [''roles'', ''users'', ''role'', ''groups'', ''certs'', ''crls''], opt_segment NAME_RX]),
     ([''GET'', ''POST''], rcat [rlit ''/auth/'', MOUNT_RX, rlit ''/role/'', NAME_RX, rlit ''/'',
        words_rx [''secret-id'', ''role-id'']]),
     ([''POST''], rcat [rlit ''/auth/'', MOUNT_RX, rlit ''/role/'', NAME_RX, rlit ''/secret-id-accessor/'',
        words_rx [''lookup'', ''destroy'']]),
     ([''GET'', ''POST''], rcat [rlit ''/auth/'', MOUNT_RX, rlit ''/login'', opt_segment NAME_RX]),
     ([''POST''], rcat [rlit ''/auth/'', MOUNT_RX, rlit ''/oidc/'', words_rx [''auth_url'', ''poll'']]),
     ([''POST''], rcat [rlit ''/sys/mfa/validate'']),
     ([''LIST''], rcat [rlit ''/identity/mfa/method'']),
     ([''GET''], rcat [rlit ''/identity/mfa/method/'', UUID_RX]),
     ([''POST'', ''DELETE''], rcat [rlit ''/identity/mfa/method/'',
        words_rx [''totp'', ''duo'', ''okta'', ''pingid''], opt_segment UUID_RX]),
     ([''POST''], rcat [rlit ''/identity/mfa/method/totp/'',
        words_rx [''generate'', ''admin-generate'', ''admin-destroy'']]),
     ([''LIST''], rcat [rlit ''/identity/mfa/login-enforcement'']),
     ([''GET'', ''POST'', ''DELETE''], rcat [rlit ''/identity/mfa/login-enforcement/'', NAME_RX]),
     ([''GET'', ''POST''], rcat [rlit ''/auth/token/'', words_rx [''lookup'', ''renew'', ''revoke''], rlit ''-'',
        words_rx [''self'', ''accessor'']])]"

definition SECRET_ENGINE_PATHS :: path_table where
  "SECRET_ENGINE_PATHS =
    [([''LIST''], rcat [rlit ''/sys/mounts'']),
     ([''GET'', ''POST'', ''DELETE''], rcat [rlit ''/sys/mounts/'', MOUNT_RX, ropt (rlit ''/tune'')]),
     ([''POST''], rcat [rlit ''/sys/remount'']),
     ([''GET''], rcat [rlit ''/sys/remount/status/'', UUID_RX])]"

definition SUBMITTED_TOKEN_PATHS :: "rx list" where
  "SUBMITTED_TOKEN_PATHS =
    [rcat [rlit ''/auth/token/'', words_rx [''lookup'', ''renew'', ''revoke''], rlit ''-self''],
     rcat [rlit ''/identity/mfa/method/totp/generate'']]"

text \<open>Declared in the source beside the other tables, and referred to nowhere.\<close>

definition UNAUTHENTICATED_PATHS :: "rx list" where
  "UNAUTHENTICATED_PATHS =
    [rcat [rlit ''/auth/'', MOUNT_RX, rlit ''/login'', opt_segment NAME_RX],
     rcat [rlit ''/auth/'', MOUNT_RX, rlit ''/oidc/'', words_rx [''auth_url'', ''poll'']],
     rcat [rlit ''/sys/mfa/validate'']]"

section \<open>Reviewed proxies\<close>

definition proxy_error :: exn where
  "proxy_error = ValueError ''The administration proxy arguments are invalid.''"

text \<open>The substrings refused in every administration path.\<close>

definition unsafe_path :: "string \<Rightarrow> bool" where
  "unsafe_path path \<longleftrightarrow> list_ex (contains path) [''%'', [CHR 0x5C], ''//'', ''..'', ''?'', ''#'']"

definition table_permits :: "path_table \<Rightarrow> string \<Rightarrow> string \<Rightarrow> bool" where
  "table_permits table method path \<longleftrightarrow>
     list_ex (\<lambda>(methods, pattern). List.member methods method \<and> fullmatch pattern path) table"

definition validate_reviewed_proxy :: "dict \<Rightarrow> path_table \<Rightarrow> unit res" where
  "validate_reviewed_proxy arguments table =
     (case (dget arguments ''method'', dget arguments ''path'', dget arguments ''payload'') of
        (JStr method, JStr path, JObj payload) \<Rightarrow>
          if \<not> is_bool (dget_or arguments ''material'' (JBool False)) then Inl proxy_error
          else if unsafe_path path then Inl (ValueError ''The administration path is invalid.'')
          else if \<not> table_permits table method path
          then Inl (ValueError ''The administration path is outside the reviewed contract.'')
          else Inr ()
      | _ \<Rightarrow> Inl proxy_error)"

text \<open>After the reviewed-proxy check \<open>arguments["path"]\<close> is a string.\<close>

definition path_argument :: "dict \<Rightarrow> string" where
  "path_argument arguments = (case dget arguments ''path'' of JStr p \<Rightarrow> p | _ \<Rightarrow> [])"

definition submitted_token_path :: "string \<Rightarrow> bool" where
  "submitted_token_path path \<longleftrightarrow> list_ex (\<lambda>r. fullmatch r path) SUBMITTED_TOKEN_PATHS"

definition validate_authentication_proxy :: "dict \<Rightarrow> unit res" where
  "validate_authentication_proxy arguments =
     res_bind (validate_reviewed_proxy arguments AUTH_PATHS) (\<lambda>_.
       let token = dget arguments ''token'';
           submitted = submitted_token_path (path_argument arguments)
       in if submitted \<and> \<not> str_between token 1 20000
          then Inl (ValueError ''The administration request-scoped token is invalid.'')
          else if \<not> submitted \<and> token \<noteq> JNull
          then Inl (ValueError ''The administration request-scoped token is not allowed.'')
          else Inr ())"

section \<open>Mounted operations\<close>

definition template_error :: exn where
  "template_error = ValueError ''The mounted operation template is invalid.''"

definition mounted_path_error :: exn where
  "mounted_path_error = ValueError ''The mounted operation path is invalid.''"

definition mismatch_error :: exn where
  "mismatch_error = ValueError ''The mounted operation path does not match its template.''"

definition mounted_template_segments :: "json \<Rightarrow> string list res" where
  "mounted_template_segments v = (case v of
       JStr template \<Rightarrow>
         if \<not> startswith template ''/'' then Inl template_error
         else (case find_char CHR ''}'' template of
             None \<Rightarrow> Inl template_error
           | Some closing \<Rightarrow>
               if closing < 2 then Inl template_error
               else
                 let placeholder = take closing (drop 1 template);
                     remainder = drop (Suc closing) template;
                     pieces = split_on CHR ''/'' (removeprefix remainder ''/'');
                     all = placeholder # pieces;
                     segments = (if last all = [] then butlast all else all)
                 in if remainder \<noteq> [] \<and> \<not> startswith remainder ''/'' then Inl template_error
                    else if \<not> (1 \<le> length segments \<and> length segments \<le> 20)
                      \<or> \<not> list_all (fullmatch TEMPLATE_SEGMENT_RX) (drop 1 segments)
                    then Inl template_error
                    else if \<not> fullmatch MOUNT_PLACEHOLDER_RX (hd segments) then Inl template_error
                    else Inr segments)
     | _ \<Rightarrow> Inl template_error)"

definition mounted_actual_segments :: "json \<Rightarrow> string list res" where
  "mounted_actual_segments v = (case v of
       JStr path \<Rightarrow>
         if unsafe_path path then Inl mounted_path_error
         else
           let segments = split_on CHR ''/'' (removeprefix path ''/'')
           in if segments = [] \<or> \<not> list_all (fullmatch ACTUAL_SEGMENT_RX) segments
              then Inl mounted_path_error else Inr segments
     | _ \<Rightarrow> Inl mounted_path_error)"

definition expected_placeholder :: "string \<Rightarrow> string" where
  "expected_placeholder mount = ''{'' @ replace_char CHR ''-'' CHR ''_'' mount @ ''_mount_path}''"

primrec list_index :: "'a \<Rightarrow> 'a list \<Rightarrow> nat option" where
  "list_index a [] = None"
| "list_index a (x # xs) = (if x = a then Some 0 else map_option Suc (list_index a xs))"

text \<open>A \<open>{path}\<close> segment stands for as many segments as the rest leaves; \<open>None\<close> if too few are there.\<close>

definition expand_template :: "string list \<Rightarrow> nat \<Rightarrow> string list option" where
  "expand_template remaining_template actual_count =
     (case list_index ''{path}'' remaining_template of
        None \<Rightarrow> Some remaining_template
      | Some i \<Rightarrow>
          let suffix = length remaining_template - i - 1
          in if actual_count < i + suffix then None
             else Some (take i remaining_template
               @ replicate (actual_count - i - suffix) ''{segment}'' @ drop (Suc i) remaining_template))"

definition segment_agrees :: "string \<Rightarrow> string \<Rightarrow> bool" where
  "segment_agrees expected actual \<longleftrightarrow> startswith expected ''{'' \<or> expected = actual"

definition validate_mounted_segments :: "string list \<Rightarrow> string list \<Rightarrow> string \<Rightarrow> unit res" where
  "validate_mounted_segments template_segments actual_segments mount =
     (if hd template_segments \<noteq> expected_placeholder mount
      then Inl (ValueError ''The mounted operation template does not match its mount.'')
      else
        let mount_segments = split_on CHR ''/'' mount;
            remaining_actual = drop (length mount_segments) actual_segments
        in if take (length mount_segments) actual_segments \<noteq> mount_segments then Inl mismatch_error
           else (case expand_template (drop 1 template_segments) (length remaining_actual) of
               None \<Rightarrow> Inl mismatch_error
             | Some expanded \<Rightarrow>
                 if length expanded \<noteq> length remaining_actual then Inl mismatch_error
                 else res_guard (list_all (\<lambda>(e, a). segment_agrees e a) (zip expanded remaining_actual))
                        mismatch_error))"

text \<open>A list or dictionary is not hashable, so that testing it against the set raises.\<close>

definition check_mounted_method :: "json \<Rightarrow> unit res" where
  "check_mounted_method v = (case v of
       JArr xs \<Rightarrow> Inl TypeError
     | JObj d \<Rightarrow> Inl TypeError
     | _ \<Rightarrow> res_guard (List.member (map JStr [''GET'', ''LIST'', ''POST'', ''PUT'', ''PATCH'', ''DELETE'']) v)
              (ValueError ''The mounted operation method is invalid.''))"

definition validate_mounted_operation :: "dict \<Rightarrow> unit res" where
  "validate_mounted_operation arguments =
     res_bind (check_mounted_method (dget arguments ''method'')) (\<lambda>_.
     case dget arguments ''mount_path'' of
       JStr mount \<Rightarrow>
         if 500 < length mount \<or> \<not> fullmatch MOUNT_PATH_RX mount
         then Inl (ValueError ''The mounted operation mount is invalid.'')
         else
           res_bind (res_guard (case dget arguments ''operation_id'' of
               JStr i \<Rightarrow> fullmatch OPERATION_ID_RX i | _ \<Rightarrow> False)
             (ValueError ''The mounted operation ID is invalid.'')) (\<lambda>_.
           res_bind (res_guard (is_dict (dget arguments ''query'') \<and> is_dict (dget arguments ''body''))
             (ValueError ''The mounted operation payload is invalid.'')) (\<lambda>_.
           res_bind (mounted_template_segments (dget arguments ''path_template'')) (\<lambda>template_segments.
           res_bind (mounted_actual_segments (dget arguments ''path'')) (\<lambda>actual_segments.
           validate_mounted_segments template_segments actual_segments mount))))
     | _ \<Rightarrow> Inl (ValueError ''The mounted operation mount is invalid.''))"

section \<open>One request\<close>

text \<open>\<open>re.Pattern.fullmatch\<close> on a value that is not a string is a \<open>TypeError\<close>.\<close>

definition check_server_id :: "dict \<Rightarrow> unit res" where
  "check_server_id arguments = res_bind (dindex arguments ''server_id'') (\<lambda>v. case v of
       JStr s \<Rightarrow> res_guard (fullmatch SERVER_ID_RX s) (ValueError ''The administration server ID is invalid.'')
     | _ \<Rightarrow> Inl TypeError)"

definition validate_operation_arguments :: "string \<Rightarrow> dict \<Rightarrow> unit res" where
  "validate_operation_arguments operation arguments =
     (if operation = ''remove_raft_peer'' then check_server_id arguments
      else if operation = ''initialize'' then validate_initialize arguments
      else if operation = ''join_raft'' then validate_join arguments
      else if operation = ''unseal'' then validate_unseal arguments
      else if operation = ''execute_authentication_operation'' then validate_authentication_proxy arguments
      else if operation = ''execute_mounted_operation'' then validate_mounted_operation arguments
      else if operation = ''execute_access_operation'' then validate_reviewed_proxy arguments ACCESS_PATHS
      else if operation = ''execute_final_operation'' then validate_reviewed_proxy arguments FINAL_PATHS
      else if operation = ''execute_secret_engine_operation''
        then validate_reviewed_proxy arguments SECRET_ENGINE_PATHS
      else Inr ())"

text \<open>
  \<open>_ARGUMENT_KEYS[operation]\<close> is a plain subscript: an implemented operation without an entry is a
  \<open>KeyError\<close>. The text \<open>json.dumps\<close> writes is ASCII, so its bytes are its characters; it exists
  because \<open>validate_value\<close> refused every float.
\<close>

definition validate_arguments :: "string \<Rightarrow> json \<Rightarrow> dict res" where
  "validate_arguments operation v =
     res_bind (operation_contract operation) (\<lambda>_.
     case v of
       JObj arguments \<Rightarrow>
         res_bind (dindex ARGUMENT_KEYS operation) (\<lambda>allowed.
         res_bind (res_guard (subset_list (keys arguments) allowed)
           (ValueError ''The administration arguments contain unsupported fields.'')) (\<lambda>_.
         res_bind (res_guard (subset_list (required_keys operation) (keys arguments))
           (ValueError ''The administration arguments are missing required fields.'')) (\<lambda>_.
         res_bind (validate_value v 0) (\<lambda>count.
         res_bind (res_guard (count \<le> MAX_ARGUMENT_ITEMS)
           (ValueError ''The administration arguments contain too many items.'')) (\<lambda>_.
         res_bind (res_guard (length (the (json_dumps v)) \<le> MAX_ARGUMENT_BYTES)
           (ValueError ''The administration arguments are too large.'')) (\<lambda>_.
         res_bind (validate_operation_arguments operation arguments) (\<lambda>_.
         Inr arguments)))))))
     | _ \<Rightarrow> Inl (ValueError ''The administration arguments must be an object.''))"

end
