(* ===== verification/Vault_Http.thy ===== *)
theory Vault_Http
  imports Vault_Client Admin_Paths
begin

text \<open>
  The administration transport of \<^verbatim>\<open>broker/vault.py\<close>: one bounded HTTP exchange with OpenBao,
  the classification of its outcome (a mutation whose effect is uncertain is reported as such), the
  raft snapshot download and upload, and the execution of a reviewed proxy operation.
\<close>

section \<open>Constants\<close>

definition MAX_SNAPSHOT_BYTES :: nat where "MAX_SNAPSHOT_BYTES = 512 * 1024 * 1024"
definition MAX_ADMINISTRATION_RESPONSE_BYTES :: nat where
  "MAX_ADMINISTRATION_RESPONSE_BYTES = 2000000"

section \<open>One exchange\<close>

text \<open>
  \<open>_administration_headers\<close>. The submitted token wins over the broker's own; the broker logs in only
  when its own token is needed.
\<close>

definition base_headers :: "broker_config \<Rightarrow> (string \<times> json) list" where
  "base_headers cfg = (''Accept'', JStr ''application/json'') #
     (case namespace cfg of
        Some n \<Rightarrow> if n = [] then [] else [(''X-Vault-Namespace'', JStr n)]
      | None \<Rightarrow> [])"

definition client_token :: "hvac_client \<Rightarrow> json" where
  "client_token client = (case hc_token client of None \<Rightarrow> JNull | Some t \<Rightarrow> t)"

definition administration_headers ::
  "world \<Rightarrow> broker_config \<Rightarrow> bool \<Rightarrow> json \<Rightarrow> (string \<times> json) list bop" where
  "administration_headers w cfg authenticated token =
     (if truthy token then ret (dput ''X-Vault-Token'' token (base_headers cfg))
      else if authenticated then
        bind_op (get w cfg) (\<lambda>client.
          ret (dput ''X-Vault-Token'' (client_token client) (base_headers cfg)))
      else ret (base_headers cfg))"

definition administration_url :: "broker_config \<Rightarrow> string \<Rightarrow> string" where
  "administration_url cfg path = rstrip_char CHR ''/'' (openbao_url cfg) @ ''/v1'' @ path"

text \<open>\<open>_translate_http_status\<close>\<close>

definition translate_http_status :: "nat \<Rightarrow> exn" where
  "translate_http_status status =
     (if status = 404 then vault_exn VaultNotFound []
      else if status = 409 then vault_exn VaultConflict []
      else if List.member [429, 500, 502, 503, 504] status then vault_exn VaultUnavailable []
      else vault_exn VaultError ''OpenBao rejected the request.'')"

text \<open>The loop over \<open>iter_content\<close>, left as soon as the content is too large.\<close>

fun read_content :: "string \<Rightarrow> string list \<Rightarrow> lib_exn option \<Rightarrow> string res" where
  "read_content content [] failure =
     (case failure of None \<Rightarrow> Inr content | Some e \<Rightarrow> Inl (raised e))"
| "read_content content (chunk # chunks) failure =
     (let content' = content @ chunk in
      if MAX_ADMINISTRATION_RESPONSE_BYTES < length content' then Inr content'
      else read_content content' chunks failure)"

text \<open>What a failure means: for a mutation, that nobody knows whether it took effect.\<close>

definition failure_exn :: "bool \<Rightarrow> exn \<Rightarrow> exn" where
  "failure_exn mutation e = (if mutation then vault_exn VaultMutationUnknown [] else e)"

definition administration_json :: "world \<Rightarrow> bool \<Rightarrow> http_response \<Rightarrow> dict res" where
  "administration_json w mutation response =
     (if rs_status response = 204 then Inr []
      else case read_content [] (rs_chunks response) (rs_failure response) of
        Inl e \<Rightarrow> Inl (if e = RequestException then failure_exn mutation (vault_exn VaultUnavailable []) else e)
      | Inr content \<Rightarrow>
          if content = [] then Inr []
          else if MAX_ADMINISTRATION_RESPONSE_BYTES < length content
          then Inl (failure_exn mutation (vault_exn VaultError ''OpenBao returned an oversized response.''))
          else (case w_json_loads w content of
              Some (JObj d) \<Rightarrow> Inr d
            | _ \<Rightarrow> Inl (failure_exn mutation (vault_exn VaultError ''OpenBao returned an unreadable response.''))))"

text \<open>The checks on an answered request, before its body is read.\<close>

definition administration_answer :: "world \<Rightarrow> bool \<Rightarrow> http_response \<Rightarrow> dict res" where
  "administration_answer w mutation response =
     (if rs_is_redirect response
      then Inl (failure_exn mutation (vault_exn VaultError ''OpenBao redirects are refused.''))
      else if 400 \<le> rs_status response
      then Inl (if mutation \<and> 500 \<le> rs_status response then vault_exn VaultMutationUnknown []
                else translate_http_status (rs_status response))
      else administration_json w mutation response)"

definition administration_http ::
  "broker_config \<Rightarrow> string \<Rightarrow> string \<Rightarrow> (string \<times> json) list \<Rightarrow> json \<Rightarrow> dict option \<Rightarrow> http_request" where
  "administration_http cfg verb path headers payload params =
     \<lparr>rq_method = verb, rq_url = administration_url cfg path, rq_headers = headers,
      rq_json = (if payload = JNull then None else Some payload), rq_data = None, rq_params = params,
      rq_timeout = (30, 30), rq_verify = verify_of cfg, rq_allow_redirects = False, rq_stream = True\<rparr>"

text \<open>
  \<open>_administration_request\<close>: the \<open>try\<close> around the headers and the request, then the
  \<open>try ... finally: response.close()\<close> around the answer.
\<close>

definition administration_request ::
  "world \<Rightarrow> broker_config \<Rightarrow> string \<Rightarrow> string \<Rightarrow> bool \<Rightarrow> json \<Rightarrow> dict option \<Rightarrow>
   (string \<times> json) list \<Rightarrow> json \<Rightarrow> bool \<Rightarrow> dict bop" where
  "administration_request w cfg verb path authenticated payload params extra_headers token mutation =
     bind_op
       (catch_op
         (bind_op (administration_headers w cfg authenticated token) (\<lambda>headers.
          send_http w (administration_http cfg verb path (dupdate headers extra_headers) payload params)))
         (\<lambda>e. throw (if e = RequestException
                     then failure_exn mutation (vault_exn VaultUnavailable []) else e)))
       (\<lambda>(i, response).
          finally_op (lift_res (administration_answer w mutation response)) (close_response i))"

section \<open>Raft snapshots\<close>

text \<open>\<open>response.headers.get(k)\<close>: header names are compared without case.\<close>

definition header_get :: "(string \<times> string) list \<Rightarrow> string \<Rightarrow> string option" where
  "header_get hs k = map_of (map (\<lambda>(a, v). (lower a, v)) hs) (lower k)"

definition snapshot_size :: "string option \<Rightarrow> int option res" where
  "snapshot_size raw_size = (case raw_size of
       None \<Rightarrow> Inr None
     | Some raw \<Rightarrow> (case py_int raw of
           None \<Rightarrow> Inl (vault_exn VaultError ''OpenBao returned an invalid snapshot response.'')
         | Some sz \<Rightarrow>
             if 0 < sz \<and> sz \<le> int MAX_SNAPSHOT_BYTES then Inr (Some sz)
             else Inl (vault_exn VaultError ''OpenBao returned an invalid snapshot response.'')))"

text \<open>\<open>SnapshotDownload\<close>: the open response, with the number that names it, and the declared size.\<close>

record snapshot_download =
  sd_id :: nat
  sd_response :: http_response
  declared_size :: "int option"

definition snapshot_http :: "broker_config \<Rightarrow> (string \<times> json) list \<Rightarrow> http_request" where
  "snapshot_http cfg headers =
     \<lparr>rq_method = ''GET'', rq_url = administration_url cfg ''/sys/storage/raft/snapshot'',
      rq_headers = dput ''Accept-Encoding'' (JStr ''identity'') headers, rq_json = None, rq_data = None,
      rq_params = None, rq_timeout = (30, 300), rq_verify = verify_of cfg,
      rq_allow_redirects = False, rq_stream = True\<rparr>"

text \<open>\<open>response.close()\<close>, then \<open>raise e\<close>\<close>

definition close_and_raise :: "nat \<Rightarrow> exn \<Rightarrow> 'a bop" where
  "close_and_raise i e = bind_op (close_op i) (\<lambda>_. throw e)"

definition identity_encoded :: "http_response \<Rightarrow> bool" where
  "identity_encoded response \<longleftrightarrow>
     List.member ['''', ''identity'']
       (lower (strip (case header_get (rs_headers response) ''Content-Encoding'' of None \<Rightarrow> '''' | Some v \<Rightarrow> v)))"

definition download_raft_snapshot :: "world \<Rightarrow> broker_config \<Rightarrow> snapshot_download bop" where
  "download_raft_snapshot w cfg =
     bind_op (administration_headers w cfg True JNull) (\<lambda>headers.
     bind_op
       (catch_op (send_http w (snapshot_http cfg headers))
         (\<lambda>e. throw (if e = RequestException then vault_exn VaultUnavailable [] else e)))
       (\<lambda>(i, response).
          if rs_is_redirect response
          then close_and_raise i (vault_exn VaultError ''OpenBao redirects are refused.'')
          else if 400 \<le> rs_status response
          then close_and_raise i (translate_http_status (rs_status response))
          else if \<not> identity_encoded response
          then close_and_raise i (vault_exn VaultError ''OpenBao returned an invalid snapshot response.'')
          else (case snapshot_size (header_get (rs_headers response) ''Content-Length'') of
              Inl e \<Rightarrow> close_and_raise i e
            | Inr sz \<Rightarrow> ret \<lparr>sd_id = i, sd_response = response, declared_size = sz\<rparr>)))"

text \<open>
  The generator \<open>chunks\<close>, as what the next call of it does: it hands out a chunk, raises, or ends.
  In the last two cases its \<open>finally\<close> closes the response.
\<close>

datatype pull = Yield string nat "string list" | PullRaise exn | PullStop

fun pull_chunk :: "int option \<Rightarrow> nat \<Rightarrow> string list \<Rightarrow> lib_exn option \<Rightarrow> pull" where
  "pull_chunk declared observed [] failure =
     (case failure of
        Some e \<Rightarrow> PullRaise (if raised e = RequestException then vault_exn VaultUnavailable [] else raised e)
      | None \<Rightarrow>
          if observed = 0 then PullRaise (vault_exn VaultError ''OpenBao returned an empty snapshot.'')
          else (case declared of
              Some n \<Rightarrow> if int observed \<noteq> n
                then PullRaise (vault_exn VaultError ''OpenBao returned an incomplete snapshot.'') else PullStop
            | None \<Rightarrow> PullStop))"
| "pull_chunk declared observed (chunk # chunks) failure =
     (if chunk = [] then pull_chunk declared observed chunks failure
      else if MAX_SNAPSHOT_BYTES < observed + length chunk
      then PullRaise (vault_exn VaultError ''OpenBao returned an oversized snapshot.'')
      else Yield chunk (observed + length chunk) chunks)"

definition restore_http ::
  "broker_config \<Rightarrow> bool \<Rightarrow> (string \<times> json) list \<Rightarrow> string \<Rightarrow> int \<Rightarrow> http_request" where
  "restore_http cfg force headers stream sz =
     \<lparr>rq_method = ''POST'',
      rq_url = administration_url cfg (''/sys/storage/raft/snapshot'' @ (if force then ''-force'' else [])),
      rq_headers = dupdate headers
        [(''Content-Type'', JStr ''application/octet-stream''), (''Content-Length'', JStr (str_int sz))],
      rq_json = None, rq_data = Some stream, rq_params = None, rq_timeout = (30, 300),
      rq_verify = verify_of cfg, rq_allow_redirects = False, rq_stream = False\<rparr>"

definition restore_answer :: "http_response \<Rightarrow> unit res" where
  "restore_answer response =
     (if rs_is_redirect response \<or> 500 \<le> rs_status response then Inl (vault_exn VaultMutationUnknown [])
      else if 400 \<le> rs_status response then Inl (translate_http_status (rs_status response))
      else Inr ())"

definition restore_raft_snapshot :: "world \<Rightarrow> broker_config \<Rightarrow> string \<Rightarrow> int \<Rightarrow> bool \<Rightarrow> unit bop" where
  "restore_raft_snapshot w cfg stream sz force =
     (if \<not> (0 < sz \<and> sz \<le> int MAX_SNAPSHOT_BYTES)
      then throw (vault_exn VaultError ''The snapshot upload is outside the allowed size.'')
      else
        bind_op (administration_headers w cfg True JNull) (\<lambda>headers.
        bind_op
          (catch_op (send_http w (restore_http cfg force headers stream sz))
            (\<lambda>e. throw (if e = RequestException then vault_exn VaultMutationUnknown [] else e)))
          (\<lambda>(i, response). finally_op (lift_res (restore_answer response)) (close_response i))))"

section \<open>Reviewed proxies\<close>

definition is_unauthenticated_auth_path :: "string \<Rightarrow> bool" where
  "is_unauthenticated_auth_path path \<longleftrightarrow>
     path = ''/sys/mfa/validate'' \<or> contains path ''/login'' \<or> contains path ''/oidc/auth_url'' \<or>
     contains path ''/oidc/poll'' \<or> endswith path ''-self'' \<or> endswith path ''/totp/generate''"

text \<open>
  A validated method, path and payload have the types the code works on (\<open>validated_proxy_typed\<close>
  below); on anything else the string operations raise.
\<close>

definition str_arg :: "dict \<Rightarrow> string \<Rightarrow> string res" where
  "str_arg d k = res_bind (dindex d k) (\<lambda>v. case v of JStr s \<Rightarrow> Inr s | _ \<Rightarrow> Inl TypeError)"

definition dict_arg :: "dict \<Rightarrow> string \<Rightarrow> dict res" where
  "dict_arg d k = res_bind (dindex d k) (\<lambda>v. case v of JObj e \<Rightarrow> Inr e | _ \<Rightarrow> Inl TypeError)"

definition LIST_PARAMS :: dict where "LIST_PARAMS = [(''list'', JStr ''true'')]"
definition MULTIVALUE_PARAMS :: dict where "MULTIVALUE_PARAMS = [(''multivalue'', JStr ''true'')]"

text \<open>The payload and the extra headers: \<open>/sys/wrapping/wrap\<close> takes its lifetime in a header.\<close>

definition proxy_payload :: "string \<Rightarrow> string \<Rightarrow> dict \<Rightarrow> (json \<times> (string \<times> json) list) res" where
  "proxy_payload operation path payload =
     (if operation = ''execute_final_operation'' \<and> path = ''/sys/wrapping/wrap'' then
        res_bind (dindex payload ''data'') (\<lambda>data.
        let ttl = dget payload ''ttl'' in
        Inr (data, if truthy ttl then [(''X-Vault-Wrap-TTL'', ttl)] else []))
      else Inr (JObj payload, []))"

definition proxy_params :: "string \<Rightarrow> string \<Rightarrow> string \<Rightarrow> dict option" where
  "proxy_params operation verb path =
     (if operation = ''execute_final_operation'' \<and> verb = ''GET'' \<and> startswith path ''/sys/config/ui/headers/''
      then Some MULTIVALUE_PARAMS
      else if verb = ''LIST'' then Some LIST_PARAMS else None)"

definition execute_reviewed_proxy :: "world \<Rightarrow> broker_config \<Rightarrow> string \<Rightarrow> dict \<Rightarrow> dict bop" where
  "execute_reviewed_proxy w cfg operation arguments =
     bind_op (lift_res (str_arg arguments ''method'')) (\<lambda>verb.
     bind_op (lift_res (str_arg arguments ''path'')) (\<lambda>path.
     bind_op (lift_res (dict_arg arguments ''payload'')) (\<lambda>payload.
     let token = dget_or arguments ''token'' (JStr []);
         authenticated = (operation \<noteq> ''execute_authentication_operation''
            \<or> \<not> is_unauthenticated_auth_path path) \<and> \<not> truthy token in
     bind_op (lift_res (proxy_payload operation path payload)) (\<lambda>(data, extra_headers).
     administration_request w cfg (if verb = ''LIST'' then ''GET'' else verb) path authenticated
       (if verb = ''POST'' then data else JNull) (proxy_params operation verb path) extra_headers token
       (List.member [''POST'', ''DELETE''] verb)))))"

section \<open>What an exchange does to the state\<close>

lemma failure_exn_closed: "closed_exn e \<Longrightarrow> closed_exn (failure_exn mutation e)"
  by (simp add: failure_exn_def)

lemma vault_exn_not_deadlock [simp]: "vault_exn k m \<noteq> Deadlock" "vault_exn k m \<noteq> RequestException"
  by (simp_all add: vault_exn_def)

lemma failure_exn_not_deadlock: "e \<noteq> Deadlock \<Longrightarrow> failure_exn mutation e \<noteq> Deadlock"
  by (simp add: failure_exn_def)

lemma translate_http_status_not_deadlock [simp]: "translate_http_status n \<noteq> Deadlock"
  by (simp add: translate_http_status_def)

lemma translate_http_status_closed [simp]: "closed_exn (translate_http_status n)"
  by (simp add: translate_http_status_def)

lemma closed_http_texts [simp]:
  "closed_exn (vault_exn VaultError ''OpenBao redirects are refused.'')"
  "closed_exn (vault_exn VaultError ''OpenBao returned an oversized response.'')"
  "closed_exn (vault_exn VaultError ''OpenBao returned an unreadable response.'')"
  "closed_exn (vault_exn VaultError ''OpenBao returned an invalid snapshot response.'')"
  "closed_exn (vault_exn VaultError ''OpenBao returned an oversized snapshot.'')"
  "closed_exn (vault_exn VaultError ''OpenBao returned an empty snapshot.'')"
  "closed_exn (vault_exn VaultError ''OpenBao returned an incomplete snapshot.'')"
  "closed_exn (vault_exn VaultError ''The snapshot upload is outside the allowed size.'')"
  by (rule closed_vault_exn, simp add: VAULT_TEXTS_def)+

lemma read_content_error: "read_content c chunks failure = Inl e \<Longrightarrow> \<exists>le. failure = Some le \<and> e = raised le"
  by (induction c chunks failure rule: read_content.induct)
    (auto simp: Let_def split: option.splits if_split_asm)

lemma administration_json_error:
  assumes "administration_json w mutation rs = Inl e"
  shows "closed_exn e \<and> e \<noteq> Deadlock"
proof -
  have "closed_exn e' \<and> e' \<noteq> Deadlock" if "read_content [] (rs_chunks rs) (rs_failure rs) = Inl e'" for e'
    using read_content_error [OF that] by auto
  then show ?thesis
    using assms
    by (auto simp: administration_json_def failure_exn_def
        split: if_split_asm sum.splits option.splits json.splits)
qed

lemma administration_answer_error:
  "administration_answer w mutation rs = Inl e \<Longrightarrow> closed_exn e \<and> e \<noteq> Deadlock"
  by (auto simp: administration_answer_def failure_exn_def
      dest: administration_json_error split: if_split_asm)

lemma administration_answer_returns [simp]: "administration_answer w mutation rs \<noteq> Inl Deadlock"
  using administration_answer_error by blast

lemma restore_answer_error: "restore_answer rs = Inl e \<Longrightarrow> closed_exn e \<and> e \<noteq> Deadlock"
  by (auto simp: restore_answer_def split: if_split_asm)

lemma restore_answer_returns [simp]: "restore_answer rs \<noteq> Inl Deadlock"
  using restore_answer_error by blast

context client_preorder
begin

lemma administration_headers_rel [client_ops]: "op_rel R (administration_headers w cfg auth token)"
  unfolding administration_headers_def by (intro op_rules client_ops)

end

text \<open>The request a reviewed proxy may send.\<close>

definition proxy_http :: "broker_config \<Rightarrow> string \<Rightarrow> dict \<Rightarrow> http_request \<Rightarrow> bool" where
  "proxy_http cfg operation arguments rq \<longleftrightarrow> (\<exists>verb path.
     str_arg arguments ''method'' = Inr verb \<and> str_arg arguments ''path'' = Inr path \<and>
     rq_method rq = (if verb = ''LIST'' then ''GET'' else verb) \<and>
     rq_url rq = administration_url cfg path \<and> rq_params rq = proxy_params operation verb path)"

context exchange_preorder
begin

lemma administration_request_rel [client_ops]:
  "(\<And>h. allowed (HttpCall (administration_http cfg verb path h payload params))) \<Longrightarrow>
   op_rel R (administration_request w cfg verb path auth payload params extra token mutation)"
  unfolding administration_request_def
  by (rule exchange_rel [OF administration_headers_rel]) simp_all

lemma restore_raft_snapshot_rel [client_ops]:
  "(\<And>h. allowed (HttpCall (restore_http cfg force h stream n))) \<Longrightarrow>
   op_rel R (restore_raft_snapshot w cfg stream n force)"
  unfolding restore_raft_snapshot_def
  by (intro op_rules client_ops send_close_rel) simp_all

lemma execute_reviewed_proxy_rel [client_ops]:
  assumes "\<And>rq. proxy_http cfg operation arguments rq \<Longrightarrow> allowed (HttpCall rq)"
  shows "op_rel R (execute_reviewed_proxy w cfg operation arguments)"
proof (cases "str_arg arguments ''method''")
  case (Inl e)
  then show ?thesis by (simp add: execute_reviewed_proxy_def op_rel_def bind_op_run R_refl)
next
  case verb: (Inr verb)
  show ?thesis
  proof (cases "str_arg arguments ''path''")
    case (Inl e)
    with verb show ?thesis by (simp add: execute_reviewed_proxy_def op_rel_def bind_op_run R_refl)
  next
    case (Inr path)
    with verb assms have "allowed (HttpCall (administration_http cfg (if verb = ''LIST'' then ''GET'' else verb)
        path h payload (proxy_params operation verb path)))" for h payload
      by (simp add: proxy_http_def administration_http_def)
    then have "op_rel R (administration_request w cfg (if verb = ''LIST'' then ''GET'' else verb) path auth
        payload (proxy_params operation verb path) extra token mutation)" for auth payload extra token mutation
      by (intro client_ops)
    moreover have "bind_op (lift_res (Inr x)) f = f x" for x :: string and f :: "string \<Rightarrow> dict bop"
      by (simp add: bind_op_def fun_eq_iff)
    ultimately show ?thesis
      unfolding execute_reviewed_proxy_def verb Inr Let_def
      by (auto split: prod.splits intro!: op_rules)
  qed
qed

end

lemma download_unaudited [client_ops]: "op_rel audit_same (download_raft_snapshot w cfg)"
proof -
  have "op_rel audit_same (close_and_raise i e)" for i e
    unfolding close_and_raise_def by (intro unaudited.op_rules client_ops)
  then show ?thesis
    unfolding download_raft_snapshot_def
    by (intro unaudited.op_rules client_ops)
      (auto split: prod.splits sum.splits intro!: unaudited.op_rules)
qed

section \<open>Errors\<close>

lemma administration_headers_closed [raises_rules]:
  "raises_only closed_exn (administration_headers w cfg auth token)"
  unfolding administration_headers_def by (intro raises_rules)

lemma send_close_closed:
  assumes "\<And>rs e. f rs = Inl e \<Longrightarrow> closed_exn e"
  shows "raises_only closed_exn (case p of (i, rs) \<Rightarrow> finally_op (lift_res (f rs)) (close_response i))"
  using assms by (cases p) (auto intro!: raises_rules)

lemma administration_request_closed [raises_rules]:
  "raises_only closed_exn (administration_request w cfg verb path auth payload params extra token mutation)"
proof -
  have "raises_only closed_exn (catch_op
      (bind_op (administration_headers w cfg auth token) (\<lambda>headers. send_http w (rq headers)))
      (\<lambda>e. throw (if e = RequestException then failure_exn mutation (vault_exn VaultUnavailable []) else e)))"
    for rq
    by (rule raises_catch_only [where Y = closed_exn]; (intro raises_rules)?) (simp_all add: failure_exn_closed)
  then show ?thesis
    unfolding administration_request_def
    by (rule raises_bind) (rule send_close_closed, auto dest: administration_answer_error)
qed

lemma restore_raft_snapshot_closed [raises_rules]:
  "raises_only closed_exn (restore_raft_snapshot w cfg stream n force)"
proof -
  have "raises_only closed_exn (catch_op (send_http w rq)
      (\<lambda>e. throw (if e = RequestException then vault_exn VaultMutationUnknown [] else e)))" for rq
    by (rule raises_catch_only [where Y = closed_exn]; (intro raises_rules)?) simp_all
  then show ?thesis
    unfolding restore_raft_snapshot_def
    by (intro raises_if raises_bind administration_headers_closed send_close_closed)
      (auto intro!: raises_basic dest: restore_answer_error)
qed

lemma snapshot_size_error:
  "snapshot_size raw = Inl e \<Longrightarrow> e = vault_exn VaultError ''OpenBao returned an invalid snapshot response.''"
  by (auto simp: snapshot_size_def split: option.splits if_split_asm)

lemma snapshot_size_Inr:
  "snapshot_size raw = Inr (Some n) \<Longrightarrow> 0 < n \<and> n \<le> int MAX_SNAPSHOT_BYTES"
  by (auto simp: snapshot_size_def split: option.splits if_split_asm)

lemma download_raft_snapshot_closed [raises_rules]:
  "raises_only closed_exn (download_raft_snapshot w cfg)"
proof -
  have send: "raises_only closed_exn (catch_op (send_http w rq)
      (\<lambda>e. throw (if e = RequestException then vault_exn VaultUnavailable [] else e)))" for rq
    by (rule raises_catch_only [where Y = closed_exn]; (intro raises_rules)?) simp_all
  have close: "raises_only closed_exn (close_and_raise i e)" if "closed_exn e" for i e
    unfolding close_and_raise_def using that by (intro raises_rules)
  show ?thesis
    unfolding download_raft_snapshot_def
    by (intro raises_bind administration_headers_closed send)
      (auto split: prod.splits sum.splits dest: snapshot_size_error intro!: raises_rules close)
qed

lemma str_arg_error: "str_arg d k = Inl e \<Longrightarrow> e = KeyError \<or> e = TypeError"
  by (auto simp: str_arg_def res_bind_Inl dindex_def split: option.splits json.splits)

lemma dict_arg_error: "dict_arg d k = Inl e \<Longrightarrow> e = KeyError \<or> e = TypeError"
  by (auto simp: dict_arg_def res_bind_Inl dindex_def split: option.splits json.splits)

lemma proxy_payload_error: "proxy_payload operation path payload = Inl e \<Longrightarrow> e = KeyError"
  by (auto simp: proxy_payload_def res_bind_Inl dindex_def Let_def split: option.splits if_split_asm)

lemma execute_reviewed_proxy_closed [raises_rules]:
  "raises_only closed_exn (execute_reviewed_proxy w cfg operation arguments)"
  unfolding execute_reviewed_proxy_def Let_def
  by (intro raises_rules)
    (auto split: prod.splits intro!: raises_rules dest!: str_arg_error dict_arg_error proxy_payload_error)

section \<open>The lock\<close>

lemma lock_free_headers [lock_rules]: "lock_free (administration_headers w cfg auth token)"
  unfolding administration_headers_def by (intro lock_rules)

lemma lock_free_close: "lock_free (case p of (i, rs) \<Rightarrow> finally_op (lift_res (f rs)) (close_response i))"
  by (cases p) (auto intro!: lock_rules)

lemma lock_free_request [lock_rules]:
  "lock_free (administration_request w cfg verb path auth payload params extra token mutation)"
  unfolding administration_request_def by (intro lock_rules lock_free_close)

lemma lock_free_restore [lock_rules]: "lock_free (restore_raft_snapshot w cfg stream n force)"
  unfolding restore_raft_snapshot_def by (intro lock_rules lock_free_close)

lemma lock_free_download [lock_rules]: "lock_free (download_raft_snapshot w cfg)"
  unfolding download_raft_snapshot_def close_and_raise_def
  by (intro lock_rules) (auto split: prod.splits sum.splits intro!: lock_rules)

lemma lock_free_proxy [lock_rules]: "lock_free (execute_reviewed_proxy w cfg operation arguments)"
  unfolding execute_reviewed_proxy_def Let_def
  by (intro lock_rules) (auto split: prod.splits intro!: lock_rules)

lemma str_arg_dget:
  assumes "str_arg d k = Inr x"
  shows "dget d k = JStr x"
proof (cases "map_of d k")
  case None
  with assms show ?thesis by (simp add: str_arg_def dindex_def)
next
  case (Some v)
  with assms show ?thesis by (cases v) (simp_all add: str_arg_def dindex_def dget_def)
qed

end
