(* ===== verification/Vault_Outcome.thy ===== *)
theory Vault_Outcome
  imports Vault_Http
begin

text \<open>
  What an administration exchange promises its caller, stated on the answer of the network and not on
  the code: a mutation whose effect cannot be known is reported as unknown and only then, a query
  never is, one request is sent and never a second one, and a decoded answer is the whole bounded
  body of a successful response.
\<close>

section \<open>Bodies\<close>

text \<open>The whole body of a response, when the transport delivered it.\<close>

definition body_of :: "http_response \<Rightarrow> string" where
  "body_of rs = concat (rs_chunks rs)"

lemma read_content_small:
  "length (content @ concat chunks) \<le> MAX_ADMINISTRATION_RESPONSE_BYTES \<Longrightarrow>
   read_content content chunks failure =
     (case failure of None \<Rightarrow> Inr (content @ concat chunks) | Some e \<Rightarrow> Inl (raised e))"
  by (induction content chunks failure rule: read_content.induct)
    (auto simp: Let_def split: option.splits)

lemma read_content_large:
  "MAX_ADMINISTRATION_RESPONSE_BYTES < length (content @ concat chunks) \<Longrightarrow>
   length content \<le> MAX_ADMINISTRATION_RESPONSE_BYTES \<Longrightarrow>
   \<exists>big. read_content content chunks failure = Inr big \<and> MAX_ADMINISTRATION_RESPONSE_BYTES < length big"
  by (induction content chunks failure rule: read_content.induct) (auto simp: Let_def)

text \<open>The memory the loop may use: one chunk more than the bound.\<close>

lemma read_content_bounded:
  "read_content content chunks failure = Inr result \<Longrightarrow>
   (\<And>c. c \<in> set chunks \<Longrightarrow> length c \<le> n) \<Longrightarrow> length content \<le> MAX_ADMINISTRATION_RESPONSE_BYTES \<Longrightarrow>
   length result \<le> MAX_ADMINISTRATION_RESPONSE_BYTES + n"
proof (induction content chunks failure rule: read_content.induct)
  case (1 content failure)
  then show ?case by (auto split: option.splits)
next
  case (2 content chunk chunks failure)
  have "length chunk \<le> n" by (rule 2) simp
  with 2 show ?case by (fastforce simp: Let_def split: if_split_asm)
qed

text \<open>A successful response that carries a JSON object of bounded size, or no content at all.\<close>

definition decoded_body :: "world \<Rightarrow> http_response \<Rightarrow> dict option" where
  "decoded_body w rs =
     (if rs_status rs = 204 then Some []
      else if rs_failure rs \<noteq> None \<or> MAX_ADMINISTRATION_RESPONSE_BYTES < length (body_of rs) then None
      else if body_of rs = [] then Some []
      else case w_json_loads w (body_of rs) of Some (JObj d) \<Rightarrow> Some d | _ \<Rightarrow> None)"

lemma administration_json_decoded:
  "administration_json w mutation rs = Inr d \<longleftrightarrow> decoded_body w rs = Some d"
proof (cases "length (body_of rs) \<le> MAX_ADMINISTRATION_RESPONSE_BYTES")
  case True
  then have "read_content [] (rs_chunks rs) (rs_failure rs) =
      (case rs_failure rs of None \<Rightarrow> Inr (body_of rs) | Some e \<Rightarrow> Inl (raised e))"
    using read_content_small [of "[]" "rs_chunks rs" "rs_failure rs"]
    by (auto simp: body_of_def split: option.splits)
  with True show ?thesis
    by (auto simp: administration_json_def decoded_body_def split: option.splits json.splits)
next
  case False
  then obtain big where "read_content [] (rs_chunks rs) (rs_failure rs) = Inr big"
    and "MAX_ADMINISTRATION_RESPONSE_BYTES < length big"
    using read_content_large [of "[]" "rs_chunks rs" "rs_failure rs"] by (auto simp: body_of_def)
  moreover from this have "big \<noteq> []" by auto
  ultimately show ?thesis using False by (simp add: administration_json_def decoded_body_def)
qed

section \<open>Outcomes\<close>

text \<open>
  A foreign exception on the way (neither a transport failure nor an answer) is passed on as it is.
\<close>

definition foreign :: "lib_exn + http_response \<Rightarrow> exn option" where
  "foreign reply = (case reply of
       Inl e \<Rightarrow> if e = LibRequest then None else Some (raised e)
     | Inr rs \<Rightarrow>
         if \<not> rs_is_redirect rs \<and> rs_status rs < 400 \<and> rs_status rs \<noteq> 204
            \<and> length (body_of rs) \<le> MAX_ADMINISTRATION_RESPONSE_BYTES
         then (case rs_failure rs of None \<Rightarrow> None
               | Some e \<Rightarrow> if e = LibRequest then None else Some (raised e))
         else None)"

text \<open>
  Nobody can tell whether the request took effect: the connection failed, OpenBao redirected or failed
  itself, or said something that is not the answer of its API.
\<close>

definition indeterminate :: "world \<Rightarrow> lib_exn + http_response \<Rightarrow> bool" where
  "indeterminate w reply \<longleftrightarrow> foreign reply = None \<and> (case reply of
       Inl e \<Rightarrow> True
     | Inr rs \<Rightarrow> rs_is_redirect rs \<or> 500 \<le> rs_status rs \<or> (rs_status rs < 400 \<and> decoded_body w rs = None))"

definition unknown_exn :: "exn \<Rightarrow> bool" where
  "unknown_exn e \<longleftrightarrow> (\<exists>m. e = VaultExn VaultMutationUnknown m)"

lemma unknown_vault_exn [simp]: "unknown_exn (vault_exn k m) \<longleftrightarrow> k = VaultMutationUnknown"
  by (simp add: unknown_exn_def vault_exn_def)

lemma unknown_raised [simp]: "\<not> unknown_exn (raised e)"
  by (cases e) (simp_all add: unknown_exn_def)

lemma unknown_translated [simp]: "\<not> unknown_exn (translate_http_status n)"
  by (simp add: translate_http_status_def)

lemma raised_request [simp]: "raised e = RequestException \<longleftrightarrow> e = LibRequest"
  by (cases e) simp_all

definition exchange_result :: "world \<Rightarrow> bool \<Rightarrow> lib_exn + http_response \<Rightarrow> dict res" where
  "exchange_result w mutation reply = (case reply of
       Inl e \<Rightarrow> Inl (if e = LibRequest then failure_exn mutation (vault_exn VaultUnavailable []) else raised e)
     | Inr rs \<Rightarrow> administration_answer w mutation rs)"

lemma administration_request_run:
  "administration_request w cfg verb path auth payload params extra token mutation s =
     (case administration_headers w cfg auth token s of
        (Inl e, s1) \<Rightarrow>
          (Inl (if e = RequestException then failure_exn mutation (vault_exn VaultUnavailable []) else e), s1)
      | (Inr h, s1) \<Rightarrow>
          let rq = administration_http cfg verb path (dupdate h extra) payload params;
              reply = w_http w (bs_calls s1) rq
          in (exchange_result w mutation reply,
              case reply of Inl e \<Rightarrow> log_call (HttpCall rq) s1
              | Inr rs \<Rightarrow> close_response (length (bs_calls s1))
                  (log_call (HttpCall rq) s1\<lparr>bs_open := length (bs_calls s1) # bs_open s1\<rparr>)))"
  by (auto simp: administration_request_def bind_op_run catch_op_run finally_op_run send_http_def
      exchange_result_def Let_def split: prod.splits sum.splits)

lemma exchange_unknown:
  "(\<exists>e. exchange_result w True reply = Inl e \<and> unknown_exn e) \<longleftrightarrow> indeterminate w reply"
proof (cases reply)
  case (Inl e)
  then show ?thesis
    by (cases "e = LibRequest") (simp_all add: exchange_result_def indeterminate_def foreign_def failure_exn_def)
next
  case (Inr rs)
  show ?thesis
  proof (cases "rs_is_redirect rs \<or> 400 \<le> rs_status rs")
    case True
    with Inr show ?thesis
      by (auto simp: exchange_result_def administration_answer_def indeterminate_def foreign_def
          failure_exn_def)
  next
    case False
    have "(\<exists>e. administration_json w True rs = Inl e \<and> unknown_exn e) \<longleftrightarrow>
        foreign reply = None \<and> decoded_body w rs = None"
    proof (cases "length (body_of rs) \<le> MAX_ADMINISTRATION_RESPONSE_BYTES")
      case True
      then have "read_content [] (rs_chunks rs) (rs_failure rs) =
          (case rs_failure rs of None \<Rightarrow> Inr (body_of rs) | Some e \<Rightarrow> Inl (raised e))"
        using read_content_small [of "[]" "rs_chunks rs" "rs_failure rs"]
    by (auto simp: body_of_def split: option.splits)
      with True False Inr show ?thesis
        by (auto simp: administration_json_def decoded_body_def foreign_def failure_exn_def
            split: option.splits json.splits)
    next
      case large: False
      then obtain big where "read_content [] (rs_chunks rs) (rs_failure rs) = Inr big"
        and "MAX_ADMINISTRATION_RESPONSE_BYTES < length big"
        using read_content_large [of "[]" "rs_chunks rs" "rs_failure rs"] by (auto simp: body_of_def)
      moreover from this have "big \<noteq> []" by auto
      ultimately show ?thesis using large False Inr
        by (auto simp: administration_json_def decoded_body_def foreign_def failure_exn_def)
    qed
    with False Inr show ?thesis
      by (simp add: exchange_result_def administration_answer_def indeterminate_def)
  qed
qed

lemma exchange_known:
  "exchange_result w False reply = Inl e \<Longrightarrow> \<not> unknown_exn e"
proof (cases reply)
  case (Inl x)
  then show "exchange_result w False reply = Inl e \<Longrightarrow> ?thesis"
    by (auto simp: exchange_result_def failure_exn_def split: if_split_asm)
next
  case (Inr rs)
  have "\<not> unknown_exn e'" if "administration_json w False rs = Inl e'" for e'
    using that
    by (auto simp: administration_json_def failure_exn_def
        dest: read_content_error split: if_split_asm sum.splits option.splits json.splits)
  with Inr show "exchange_result w False reply = Inl e \<Longrightarrow> ?thesis"
    by (auto simp: exchange_result_def administration_answer_def failure_exn_def split: if_split_asm)
qed

section \<open>Errors of the login\<close>

text \<open>What \<open>_get\<close> may raise: a text of its own, or the missing attribute of a malformed login answer.\<close>

definition login_exn :: "exn \<Rightarrow> bool" where
  "login_exn e \<longleftrightarrow> e = Deadlock \<or> e = AttributeError \<or>
     (\<exists>k m. e = VaultExn k m \<and> k \<noteq> VaultMutationUnknown)"

lemma login_exn_vault [simp]: "login_exn (vault_exn k m) \<longleftrightarrow> k \<noteq> VaultMutationUnknown"
  by (auto simp: login_exn_def vault_exn_def)

lemma login_exn_simps [simp]: "login_exn Deadlock" "login_exn AttributeError"
  by (simp_all add: login_exn_def)

lemma login_exn_known: "login_exn e \<Longrightarrow> \<not> unknown_exn e \<and> e \<noteq> RequestException"
  by (auto simp: login_exn_def unknown_exn_def)

lemma translate_login: "translate e s = (Inr e', s') \<Longrightarrow> login_exn e'"
  by (cases e)
    (auto simp: translate_def bind_op_run split: hvac_kind.splits prod.splits sum.splits if_splits)

lemma translating_login: "raises_only login_exn (translating m)"
proof -
  have "raises_only login_exn (bind_op (translate e) throw)" for e
    by (rule raises_onlyI)
      (auto simp: bind_op_run dest: translate_login translate_only_deadlock split: prod.splits sum.splits)
  then show ?thesis unfolding translating_def by (intro raises_catch) simp_all
qed

definition login_or_config :: "exn \<Rightarrow> bool" where
  "login_or_config e \<longleftrightarrow> login_exn e \<or> (\<exists>m. e = ConfigError m)"

lemma raises_weaken: "raises_only X m \<Longrightarrow> (\<And>e. X e \<Longrightarrow> Y e) \<Longrightarrow> raises_only Y m"
  by (auto intro!: raises_onlyI dest: raises_onlyD)

lemma login_raises: "raises_only login_or_config (login w cfg)"
proof -
  have secret: "raises_only login_or_config (read_secret w n)" for n
    by (rule raises_onlyI) (auto simp: read_secret_run login_or_config_def dest: read_secret_env_error)
  have send: "raises_only login_or_config (translating m)" for m :: "json bop"
    by (rule raises_weaken [OF translating_login]) (simp add: login_or_config_def)
  show ?thesis
    unfolding login_def Let_def
    by (intro raises_if raises_bind raises_basic secret send)
      (auto simp: login_or_config_def dest: client_token_error)
qed

lemma get_raises [raises_rules]: "raises_only login_exn (get w cfg)"
proof -
  have "raises_only login_exn (catch_op (login w cfg) (\<lambda>e. case e of
      ConfigError m \<Rightarrow> throw (vault_exn VaultMisconfigured []) | _ \<Rightarrow> throw e))"
  proof (rule raises_catch_only [OF login_raises])
    fix e assume "login_or_config e"
    then consider "e = Deadlock" | "e = AttributeError" | k m where "e = VaultExn k m" "login_exn e"
      | m where "e = ConfigError m"
      unfolding login_or_config_def login_exn_def by blast
    then show "raises_only login_exn (case e of
        ConfigError m \<Rightarrow> throw (vault_exn VaultMisconfigured []) | _ \<Rightarrow> throw e)"
      by cases (auto intro!: raises_basic)
  qed simp
  moreover have "raises_only login_exn get_client" "raises_only login_exn (set_client c)" for c
    by (auto intro!: raises_onlyI simp: get_client_def set_client_def)
  ultimately have "raises_only login_exn (get_body w cfg)"
    unfolding get_body_def
    by (intro raises_bind) (auto intro!: raises_bind raises_basic split: option.splits)
  then show ?thesis
    unfolding get_def
    by (auto intro!: raises_onlyI simp: with_lock_def dest: raises_onlyD split: if_splits prod.splits)
qed

lemma administration_headers_raises: "raises_only login_exn (administration_headers w cfg auth token)"
  unfolding administration_headers_def by (intro raises_if raises_bind raises_basic get_raises)

section \<open>The contract of an exchange\<close>

text \<open>The request that is sent, and what was sent before it (at most a login).\<close>

definition sends :: "world \<Rightarrow> broker_config \<Rightarrow> bool \<Rightarrow> json \<Rightarrow> broker_state \<Rightarrow>
    (string \<times> json) list \<Rightarrow> broker_state \<Rightarrow> bool" where
  "sends w cfg auth token s headers s1 \<longleftrightarrow> administration_headers w cfg auth token s = (Inr headers, s1)"

lemma request_unknown_iff:
  "(\<exists>e. fst (administration_request w cfg verb path auth payload params extra token True s) = Inl e \<and>
        unknown_exn e) \<longleftrightarrow>
   (\<exists>headers s1. sends w cfg auth token s headers s1 \<and>
      indeterminate w (w_http w (bs_calls s1)
        (administration_http cfg verb path (dupdate headers extra) payload params)))"
proof -
  obtain r s1 where run: "administration_headers w cfg auth token s = (r, s1)"
    by (cases "administration_headers w cfg auth token s")
  show ?thesis
  proof (cases r)
    case (Inl e)
    with run have "login_exn e" by (auto dest: raises_onlyD [OF administration_headers_raises])
    then have "\<not> unknown_exn e \<and> e \<noteq> RequestException" by (rule login_exn_known)
    with run Inl show ?thesis by (simp add: administration_request_run sends_def)
  next
    case (Inr h)
    with run show ?thesis
      by (simp add: administration_request_run sends_def Let_def exchange_unknown)
  qed
qed

lemma query_known:
  assumes "administration_request w cfg verb path auth payload params extra token False s = (Inl e, s')"
  shows "\<not> unknown_exn e"
proof -
  obtain r s1 where run: "administration_headers w cfg auth token s = (r, s1)"
    by (cases "administration_headers w cfg auth token s")
  show ?thesis
  proof (cases r)
    case (Inl e1)
    with run have "login_exn e1" by (auto dest: raises_onlyD [OF administration_headers_raises])
    with run Inl assms show ?thesis
      by (auto simp: administration_request_run dest: login_exn_known)
  next
    case (Inr h)
    with run assms show ?thesis
      by (auto simp: administration_request_run Let_def dest: exchange_known)
  qed
qed

section \<open>The enforcement rules\<close>

text \<open>A reviewed path that contains \<open>/login\<close> without being a login.\<close>

lemma enforcement_permitted:
  assumes "fullmatch NAME_RX name"
  shows "table_permits AUTH_PATHS ''POST'' (''/identity/mfa/login-enforcement/'' @ name)"
proof -
  have "([''GET'', ''POST'', ''DELETE''], rcat [rlit ''/identity/mfa/login-enforcement/'', NAME_RX]) \<in> set AUTH_PATHS"
    unfolding AUTH_PATHS_def by simp
  moreover have "fullmatch (rcat [rlit ''/identity/mfa/login-enforcement/'', NAME_RX]) (''/identity/mfa/login-enforcement/'' @ name)"
    using assms by (simp add: fullmatch_correct rcat_lit_matches rx_matches_seq del: rlit.simps)
  ultimately show ?thesis
    unfolding table_permits_def list_ex_iff by force
qed

lemma enforcement_not_declared:
  "\<not> list_ex (\<lambda>r. fullmatch r (''/identity/mfa/login-enforcement/'' @ name)) UNAUTHENTICATED_PATHS"
  unfolding UNAUTHENTICATED_PATHS_def
  by (simp add: fullmatch_correct rcat_lit_matches del: rcat.simps rlit.simps)

lemma enforcement_counted: "is_unauthenticated_auth_path (''/identity/mfa/login-enforcement/'' @ name)"
  unfolding is_unauthenticated_auth_path_def contains_iff
  by (intro disjI2 disjI1 exI [of _ "''/identity/mfa''"] exI [of _ "''-enforcement/'' @ name"]) simp

lemma unauthenticated_proxy_run:
  assumes counted: "is_unauthenticated_auth_path path"
    and arguments: "arguments = [(''method'', JStr ''POST''), (''path'', JStr path), (''payload'', JObj payload)]"
  shows "\<exists>rq. bs_calls (snd (execute_reviewed_proxy w cfg ''execute_authentication_operation'' arguments s)) =
        bs_calls s @ [HttpCall rq] \<and> ''X-Vault-Token'' \<notin> set (keys (rq_headers rq))"
proof -
  let ?rq = "administration_http cfg ''POST'' path (dupdate (base_headers cfg) []) (JObj payload) None"
  have token: "''X-Vault-Token'' \<notin> set (keys (rq_headers ?rq))"
    by (auto simp: administration_http_def base_headers_def keys_def split: option.split)
  have "bs_calls (snd (execute_reviewed_proxy w cfg ''execute_authentication_operation'' arguments s)) =
      bs_calls s @ [HttpCall ?rq]"
    by (auto simp: arguments execute_reviewed_proxy_def str_arg_def dict_arg_def dindex_def dget_or_def bind_op_run
        counted proxy_payload_def proxy_params_def administration_request_run administration_headers_def Let_def
        split: sum.split)
  with token show ?thesis by blast
qed

lemmas enforcement_unauthenticated = unauthenticated_proxy_run [OF enforcement_counted]

end
