(* ===== verification/Openapi.thy ===== *)
theory Openapi
  imports Vault_Http
begin

text \<open>
  The validation of a mounted operation against the OpenAPI document OpenBao advertises, in
  \<^verbatim>\<open>broker/vault.py\<close>: the mount parameter, the query, the body, and the bounded recursive check of
  a value against a schema. The document is OpenBao's, so every shape it may have is a case here; a
  shape the code does not guard against raises what Python raises (an unhashable \<open>type\<close> is a
  \<open>TypeError\<close>, a \<open>components\<close> that is not a dictionary an \<open>AttributeError\<close>).
\<close>

section \<open>Errors\<close>

definition invalid_operation :: exn where
  "invalid_operation = vault_exn VaultError ''OpenBao advertised an invalid mounted operation.''"

definition violates_schema :: exn where
  "violates_schema = vault_exn VaultError ''The mounted value violates the OpenBao schema.''"

definition MAX_ADMINISTRATION_SCHEMA_ITEMS :: int where "MAX_ADMINISTRATION_SCHEMA_ITEMS = 2000"

section \<open>Text formats\<close>

text \<open>\<open>s.replace(pat, "")\<close> for a pattern that is not empty.\<close>

primrec remove_skip :: "string \<Rightarrow> string \<Rightarrow> nat \<Rightarrow> string" where
  "remove_skip pat [] k = []"
| "remove_skip pat (c # cs) k =
     (if 0 < k then remove_skip pat cs (k - 1)
      else if startswith (c # cs) pat then remove_skip pat cs (length pat - 1)
      else c # remove_skip pat cs 0)"

definition strip_chars :: "string \<Rightarrow> string \<Rightarrow> string" where
  "strip_chars cs s = rev (dropWhile (List.member cs) (rev (dropWhile (List.member cs) s)))"

fun hex_run :: "string \<Rightarrow> bool" where
  "hex_run [] \<longleftrightarrow> False"
| "hex_run [c] \<longleftrightarrow> is_hex c"
| "hex_run (c # d # cs) \<longleftrightarrow> is_hex c \<and> (if d = CHR ''_'' then hex_run cs else hex_run (d # cs))"

text \<open>\<open>int(s, 16)\<close> raises no \<open>ValueError\<close>: space around, a sign, a prefix \<open>0x\<close> and underscores.\<close>

definition is_int16 :: "string \<Rightarrow> bool" where
  "is_int16 s \<longleftrightarrow>
     (let t = strip s;
          u = (if startswith t ''+'' \<or> startswith t ''-'' then drop 1 t else t);
          v = (if startswith u ''0x'' \<or> startswith u ''0X''
               then (if startswith (drop 2 u) ''_'' then drop 3 u else drop 2 u) else u)
      in hex_run v)"

text \<open>
  \<open>uuid.UUID(s)\<close>. A minus sign has been removed with the dashes, so the number is never negative, and
  32 characters never exceed 128 bits.
\<close>

definition is_uuid_text :: "string \<Rightarrow> bool" where
  "is_uuid_text s \<longleftrightarrow>
     (let h = remove_skip ''-''
        (strip_chars ''{}'' (remove_skip ''uuid:'' (remove_skip ''urn:'' s 0) 0)) 0
      in length h = 32 \<and> is_int16 h)"

definition utc_text :: "string \<Rightarrow> string" where
  "utc_text s = concat (map (\<lambda>c. if c = CHR ''Z'' then ''+00:00'' else [c]) s)"

section \<open>Scalars\<close>

fun int_of_json :: "json \<Rightarrow> int option" where
  "int_of_json (JInt i) = Some i"
| "int_of_json (JBool b) = Some (of_bool b)"
| "int_of_json _ = None"

definition openapi_scalar_matches :: "json \<Rightarrow> json \<Rightarrow> bool" where
  "openapi_scalar_matches expected v \<longleftrightarrow>
     (if expected = JNull then True
      else if expected = JStr ''string'' then is_str v
      else if expected = JStr ''boolean'' then is_bool v
      else if expected = JStr ''integer'' then is_int v \<and> \<not> is_bool v
      else if expected = JStr ''number'' then is_number v \<and> \<not> is_bool v
      else if expected = JStr ''null'' then v = JNull
      else False)"

text \<open>\<open>_validate_openapi_string\<close>\<close>

definition openapi_string :: "world \<Rightarrow> dict \<Rightarrow> string \<Rightarrow> unit res" where
  "openapi_string w schema s =
     (case (int_of_json (dget_or schema ''minLength'' (JInt 0)),
            int_of_json (dget_or schema ''maxLength'' (JInt (int MAX_ADMINISTRATION_RESPONSE_BYTES)))) of
        (Some minimum, Some maximum) \<Rightarrow>
          if \<not> (minimum \<le> int (length s) \<and> int (length s) \<le> maximum) then Inl violates_schema
          else
            let value_format = dget schema ''format'' in
            if value_format \<noteq> JNull \<and> \<not> is_str value_format then Inl invalid_operation
            else if value_format = JStr ''uuid'' \<and> \<not> is_uuid_text s then Inl violates_schema
            else if value_format = JStr ''date-time'' \<and> \<not> w_fromisoformat w (utc_text s)
            then Inl violates_schema
            else Inr ()
      | _ \<Rightarrow> Inl invalid_operation)"

text \<open>\<open>_validate_openapi_number\<close>\<close>

definition openapi_number :: "dict \<Rightarrow> json \<Rightarrow> unit res" where
  "openapi_number schema v =
     (let minimum = dget schema ''minimum''; maximum = dget schema ''maximum'' in
      if minimum \<noteq> JNull \<and> \<not> is_number minimum then Inl invalid_operation
      else if maximum \<noteq> JNull \<and> \<not> is_number maximum then Inl invalid_operation
      else if minimum \<noteq> JNull \<and> num_val v < num_val minimum then Inl violates_schema
      else if maximum \<noteq> JNull \<and> num_val maximum < num_val v then Inl violates_schema
      else Inr ())"

definition openapi_scalar_constraints :: "world \<Rightarrow> dict \<Rightarrow> json \<Rightarrow> unit res" where
  "openapi_scalar_constraints w schema v =
     (case v of
        JStr s \<Rightarrow> openapi_string w schema s
      | JInt i \<Rightarrow> openapi_number schema v
      | JFloat f \<Rightarrow> openapi_number schema v
      | _ \<Rightarrow> Inr ())"

section \<open>Schemas\<close>

text \<open>
  \<open>_resolve_advertised_schema\<close>: one local reference is followed; the schema found is not resolved
  again. \<open>JNull\<close> is Python's \<open>None\<close>.
\<close>

definition SCHEMA_PREFIX :: string where "SCHEMA_PREFIX = ''#/components/schemas/''"

definition resolve_advertised_schema :: "dict \<Rightarrow> json \<Rightarrow> json res" where
  "resolve_advertised_schema document schema = (case schema of
       JObj d \<Rightarrow>
         if \<not> List.member (keys d) ''$ref'' then Inr schema
         else (case dget d ''$ref'' of
             JStr reference \<Rightarrow>
               if \<not> startswith reference SCHEMA_PREFIX then Inr JNull
               else
                 let components = dget document ''components'' in
                 res_bind (get_attr (if truthy components then components else JObj []) ''schemas'') (\<lambda>schemas.
                 Inr (case schemas of JObj e \<Rightarrow> dget e (removeprefix reference SCHEMA_PREFIX) | _ \<Rightarrow> JNull))
           | _ \<Rightarrow> Inr JNull)
     | _ \<Rightarrow> Inr schema)"

text \<open>
  The recursive check is passed to the parts as \<open>go\<close>: the same function, one level deeper.
\<close>

type_synonym checker = "json \<Rightarrow> json \<Rightarrow> unit res"

text \<open>\<open>_validate_openapi_common_keywords\<close>\<close>

definition openapi_common_keywords :: "checker \<Rightarrow> dict \<Rightarrow> json \<Rightarrow> unit res" where
  "openapi_common_keywords go schema v =
     res_bind (case dget schema ''enum'' of
         JNull \<Rightarrow> Inr ()
       | JArr choices \<Rightarrow>
           if choices = [] then Inl invalid_operation else res_guard (py_in v choices) violates_schema
       | _ \<Rightarrow> Inl invalid_operation) (\<lambda>_.
     case dget_or schema ''allOf'' (JArr []) of
       JArr combined \<Rightarrow> res_each (\<lambda>member. go member v) combined
     | _ \<Rightarrow> Inl invalid_operation)"

text \<open>\<open>_validate_openapi_alternatives\<close>: only a \<open>VaultError\<close> counts as a mismatch.\<close>

fun count_matches :: "(json \<Rightarrow> unit res) \<Rightarrow> json list \<Rightarrow> nat res" where
  "count_matches check [] = Inr 0"
| "count_matches check (a # alternatives) =
     (case check a of
        Inl (VaultExn k m) \<Rightarrow> count_matches check alternatives
      | Inl e \<Rightarrow> Inl e
      | Inr _ \<Rightarrow> res_bind (count_matches check alternatives) (\<lambda>n. Inr (Suc n)))"

definition openapi_alternatives :: "checker \<Rightarrow> json \<Rightarrow> json \<Rightarrow> bool \<Rightarrow> unit res" where
  "openapi_alternatives go alternatives v exact = (case alternatives of
       JArr xs \<Rightarrow>
         if xs = [] then Inl invalid_operation
         else res_bind (count_matches (\<lambda>a. go a v) xs) (\<lambda>n.
           res_guard (\<not> (n = 0 \<or> (exact \<and> n \<noteq> 1))) violates_schema)
     | _ \<Rightarrow> Inl invalid_operation)"

text \<open>\<open>_validate_openapi_object\<close>: the schema of one field of a body, or why it has none.\<close>

definition field_schema :: "dict \<Rightarrow> json \<Rightarrow> string \<Rightarrow> json option res" where
  "field_schema properties additional name =
     (let child = dget properties name in
      if child \<noteq> JNull then Inr (Some child)
      else if additional = JBool True then Inr None
      else if \<not> is_dict additional
      then Inl (vault_exn VaultError ''The mounted body is not advertised by OpenBao.'')
      else Inr (Some additional))"

definition openapi_object :: "checker \<Rightarrow> dict \<Rightarrow> json \<Rightarrow> unit res" where
  "openapi_object go schema v = (case v of
       JObj entries \<Rightarrow>
         (case (dget_or schema ''properties'' (JObj []), dget_or schema ''required'' (JArr [])) of
            (JObj properties, JArr required) \<Rightarrow>
              if \<not> list_all is_str required then Inl invalid_operation
              else if \<not> list_all (\<lambda>name. List.member (map JStr (keys entries)) name) required
              then Inl (vault_exn VaultError ''The mounted body is missing a required field.'')
              else
                let additional = dget_or schema ''additionalProperties'' (JBool False) in
                if \<not> (is_bool additional \<or> is_dict additional) then Inl invalid_operation
                else res_each (\<lambda>(name, item).
                  res_bind (field_schema properties additional name) (\<lambda>child.
                  case child of None \<Rightarrow> Inr () | Some c \<Rightarrow> go c item)) entries
          | _ \<Rightarrow> Inl invalid_operation)
     | _ \<Rightarrow> Inl violates_schema)"

text \<open>\<open>_validate_openapi_array\<close>\<close>

definition openapi_array :: "checker \<Rightarrow> dict \<Rightarrow> json \<Rightarrow> unit res" where
  "openapi_array go schema v = (case v of
       JArr xs \<Rightarrow>
         (case dget schema ''items'' of
            JObj items \<Rightarrow>
              (case (int_of_json (dget_or schema ''minItems'' (JInt 0)),
                     int_of_json (dget_or schema ''maxItems'' (JInt MAX_ADMINISTRATION_SCHEMA_ITEMS))) of
                 (Some minimum, Some maximum) \<Rightarrow>
                   if minimum \<le> int (length xs) \<and> int (length xs) \<le> maximum
                   then res_each (go (JObj items)) xs else Inl violates_schema
               | _ \<Rightarrow> Inl violates_schema)
          | _ \<Rightarrow> Inl invalid_operation)
     | _ \<Rightarrow> Inl violates_schema)"

text \<open>\<open>_validate_openapi_typed_value\<close>: a list or a dictionary cannot be tested against the set.\<close>

definition SCHEMA_TYPES :: "string list" where
  "SCHEMA_TYPES = [''object'', ''array'', ''string'', ''boolean'', ''integer'', ''number'', ''null'']"

definition openapi_typed_value :: "world \<Rightarrow> checker \<Rightarrow> dict \<Rightarrow> json \<Rightarrow> unit res" where
  "openapi_typed_value w go schema v =
     (let expected = dget schema ''type'' in
      if is_list expected \<or> is_dict expected then Inl TypeError
      else if expected \<noteq> JNull \<and> \<not> List.member (map JStr SCHEMA_TYPES) expected then Inl invalid_operation
      else if expected = JStr ''object'' \<or> List.member (keys schema) ''properties'' then openapi_object go schema v
      else if expected = JStr ''array'' then openapi_array go schema v
      else if \<not> openapi_scalar_matches expected v then Inl violates_schema
      else openapi_scalar_constraints w schema v)"

text \<open>The body of \<open>_validate_openapi_value\<close> once the depth is known to be allowed.\<close>

definition openapi_value_body :: "world \<Rightarrow> checker \<Rightarrow> dict \<Rightarrow> json \<Rightarrow> json \<Rightarrow> unit res" where
  "openapi_value_body w go document schema v =
     res_bind (resolve_advertised_schema document schema) (\<lambda>resolved. case resolved of
       JObj d \<Rightarrow>
         if v = JNull \<and> dget d ''nullable'' = JBool True then Inr ()
         else
           res_bind (openapi_common_keywords go d v) (\<lambda>_.
           let one_of = dget d ''oneOf''; any_of = dget d ''anyOf'' in
           if one_of \<noteq> JNull \<and> any_of \<noteq> JNull then Inl invalid_operation
           else if one_of \<noteq> JNull then openapi_alternatives go one_of v True
           else if any_of \<noteq> JNull then openapi_alternatives go any_of v False
           else openapi_typed_value w go d v)
     | _ \<Rightarrow> Inl invalid_operation)"

text \<open>
  \<open>_validate_openapi_value\<close>. Every recursive call is one level deeper and the ninth level raises, so the
  check returns on every document, reference cycles included.
\<close>

function validate_openapi_value :: "world \<Rightarrow> dict \<Rightarrow> json \<Rightarrow> json \<Rightarrow> nat \<Rightarrow> unit res" where
  "validate_openapi_value w document schema v depth =
     (if 8 < depth then Inl invalid_operation
      else openapi_value_body w (\<lambda>schema' v'. validate_openapi_value w document schema' v' (Suc depth))
             document schema v)"
  by pat_completeness auto
termination
  by (relation "measure (\<lambda>(w, document, schema, v, depth). 9 - depth)") auto

declare validate_openapi_value.simps [simp del]

section \<open>The advertised operation\<close>

definition parameters_of :: "dict \<Rightarrow> dict \<Rightarrow> json list res" where
  "parameters_of path_item advertised =
     (case (dget_or path_item ''parameters'' (JArr []), dget_or advertised ''parameters'' (JArr [])) of
        (JArr inherited, JArr own) \<Rightarrow> Inr (inherited @ own)
      | _ \<Rightarrow> Inl invalid_operation)"

text \<open>\<open>_validate_advertised_mount\<close>\<close>

definition mount_mismatch :: exn where
  "mount_mismatch = vault_exn VaultError ''The mounted operation template does not match its mount.''"

definition is_mount_parameter :: "string \<Rightarrow> json \<Rightarrow> bool" where
  "is_mount_parameter placeholder item = (case item of
       JObj d \<Rightarrow> dget d ''in'' = JStr ''path'' \<and> dget d ''name'' = JStr placeholder
     | _ \<Rightarrow> False)"

definition check_mount_schema :: "json \<Rightarrow> string \<Rightarrow> unit res" where
  "check_mount_schema schema mount_path = (case schema of
       JObj d \<Rightarrow> (case (dget d ''type'', dget d ''default'') of
           (JStr t, JStr mount_default) \<Rightarrow>
             res_guard (t = ''string'' \<and> rstrip_char CHR ''/'' mount_default = rstrip_char CHR ''/'' mount_path)
               mount_mismatch
         | _ \<Rightarrow> Inl mount_mismatch)
     | _ \<Rightarrow> Inl mount_mismatch)"

definition validate_advertised_mount :: "dict \<Rightarrow> dict \<Rightarrow> string \<Rightarrow> string \<Rightarrow> unit res" where
  "validate_advertised_mount path_item advertised placeholder mount_path =
     res_bind (parameters_of path_item advertised) (\<lambda>parameters.
     case filter (is_mount_parameter placeholder) parameters of
       [JObj parameter] \<Rightarrow>
         if dget parameter ''required'' \<noteq> JBool True then Inl invalid_operation
         else check_mount_schema (dget parameter ''schema'') mount_path
     | _ \<Rightarrow> Inl invalid_operation)"

text \<open>\<open>_validate_advertised_query\<close>: a name declared twice is refused, so the dictionary is the list.\<close>

fun query_parameter :: "json \<Rightarrow> (string \<times> dict) option" where
  "query_parameter (JObj d) =
     (if dget d ''in'' = JStr ''query'' then (case dget d ''name'' of JStr n \<Rightarrow> Some (n, d) | _ \<Rightarrow> None)
      else None)"
| "query_parameter _ = None"

definition declared_query :: "json list \<Rightarrow> (string \<times> dict) list" where
  "declared_query parameters = List.map_filter query_parameter parameters"

definition query_schema :: "dict \<Rightarrow> json" where
  "query_schema item = (let schema = dget item ''schema'' in if truthy schema then schema else JObj item)"

definition validate_advertised_query :: "world \<Rightarrow> dict \<Rightarrow> json list \<Rightarrow> dict \<Rightarrow> unit res" where
  "validate_advertised_query w document parameters query =
     (let declared = declared_query parameters;
          required = map fst (filter (\<lambda>(name, item). dget item ''required'' = JBool True) declared) in
      if \<not> distinct (map fst declared) then Inl invalid_operation
      else if \<not> list_all (List.member (map fst declared)) (keys query)
      then Inl (vault_exn VaultError ''The mounted query is not advertised by OpenBao.'')
      else if \<not> list_all (List.member (keys query)) required
      then Inl (vault_exn VaultError ''The mounted query is missing a required field.'')
      else res_each (\<lambda>(name, v).
        res_bind (dindex declared name) (\<lambda>item.
        validate_openapi_value w document (query_schema item) v 0)) query)"

text \<open>\<open>_validate_advertised_body\<close>\<close>

definition validate_advertised_body :: "world \<Rightarrow> dict \<Rightarrow> dict \<Rightarrow> dict \<Rightarrow> unit res" where
  "validate_advertised_body w document advertised body = (case dget advertised ''requestBody'' of
       JNull \<Rightarrow> res_guard (body = []) (vault_exn VaultError ''The mounted body is not advertised by OpenBao.'')
     | JObj request_body \<Rightarrow>
         let media = (case dget request_body ''content'' of JObj c \<Rightarrow> dget c ''application/json'' | _ \<Rightarrow> JNull);
             schema = (case media of JObj m \<Rightarrow> dget m ''schema'' | _ \<Rightarrow> JNull)
         in validate_openapi_value w document schema (JObj body) 0
     | _ \<Rightarrow> Inl invalid_operation)"

definition mounted_query :: "string \<Rightarrow> dict \<Rightarrow> dict" where
  "mounted_query verb query = (if verb = ''LIST'' then dput ''list'' (JStr ''true'') query else query)"

text \<open>\<open>_validate_advertised_arguments\<close>\<close>

definition validate_advertised_arguments ::
  "world \<Rightarrow> dict \<Rightarrow> dict \<Rightarrow> dict \<Rightarrow> string \<Rightarrow> dict \<Rightarrow> dict \<Rightarrow> unit res" where
  "validate_advertised_arguments w document path_item advertised verb query body =
     res_bind (parameters_of path_item advertised) (\<lambda>parameters.
     if \<not> list_all is_dict parameters then Inl invalid_operation
     else
       res_bind (validate_advertised_query w document parameters (mounted_query verb query)) (\<lambda>_.
       validate_advertised_body w document advertised body))"

section \<open>Errors the check may raise\<close>

definition schema_exn :: "exn \<Rightarrow> bool" where
  "schema_exn e \<longleftrightarrow> e = TypeError \<or> e = AttributeError \<or> (\<exists>m \<in> set VAULT_TEXTS. e = vault_exn VaultError m)"

lemma schema_exn_closed: "schema_exn e \<Longrightarrow> closed_exn e \<and> e \<noteq> Deadlock"
  by (auto simp: schema_exn_def closed_vault_exn)

lemma schema_exn_texts [simp]:
  "schema_exn TypeError" "schema_exn AttributeError"
  "schema_exn invalid_operation" "schema_exn violates_schema" "schema_exn mount_mismatch"
  "schema_exn (vault_exn VaultError ''The mounted body is not advertised by OpenBao.'')"
  "schema_exn (vault_exn VaultError ''The mounted body is missing a required field.'')"
  "schema_exn (vault_exn VaultError ''The mounted query is not advertised by OpenBao.'')"
  "schema_exn (vault_exn VaultError ''The mounted query is missing a required field.'')"
  "schema_exn (vault_exn VaultError ''The mounted operation is not advertised by OpenBao.'')"
  unfolding invalid_operation_def violates_schema_def mount_mismatch_def
  by (simp_all only: schema_exn_def simp_thms) (rule disjI2 bexI refl; code_simp)+

definition schema_errors :: "'a res \<Rightarrow> bool" where
  "schema_errors r \<longleftrightarrow> (\<forall>e. r = Inl e \<longrightarrow> schema_exn e)"

named_theorems schema_rules \<open>errors of the parts of the schema check\<close>

lemma schema_errors_basic [schema_rules]:
  "schema_errors (Inr x)" "schema_exn e \<Longrightarrow> schema_errors (Inl e)"
  "schema_exn e \<Longrightarrow> schema_errors (res_guard c e)"
  "schema_errors r \<Longrightarrow> (\<And>x. r = Inr x \<Longrightarrow> schema_errors (f x)) \<Longrightarrow> schema_errors (res_bind r f)"
  "(\<And>x. x \<in> set xs \<Longrightarrow> schema_errors (g x)) \<Longrightarrow> schema_errors (res_each g xs)"
  by (auto simp: schema_errors_def res_bind_Inl dest: res_each_Inl)

lemma schema_errors_if [schema_rules]:
  "(c \<Longrightarrow> schema_errors a) \<Longrightarrow> (\<not> c \<Longrightarrow> schema_errors b) \<Longrightarrow> schema_errors (if c then a else b)"
  by simp

lemma openapi_scalar_errors [schema_rules]: "schema_errors (openapi_scalar_constraints w schema v)"
  by (auto simp: openapi_scalar_constraints_def openapi_string_def openapi_number_def Let_def
      intro!: schema_rules split: json.splits option.splits)

lemma count_matches_errors: "(\<And>a. schema_errors (check a)) \<Longrightarrow> schema_errors (count_matches check xs)"
  by (induction check xs rule: count_matches.induct)
    (auto simp: schema_errors_def res_bind_Inl split: sum.splits exn.splits)

lemma resolve_errors [schema_rules]: "schema_errors (resolve_advertised_schema document schema)"
  by (auto simp: resolve_advertised_schema_def schema_errors_def res_bind_Inl Let_def
      dest: get_attr_error split: json.splits if_split_asm)

text \<open>
  What the parts of the check rely on: the check one level deeper raises only the errors of a schema.
\<close>

locale schema_checker =
  fixes go :: checker
  assumes go: "schema_errors (go schema v)"
begin

lemma common_errors: "schema_errors (openapi_common_keywords go schema v)"
  unfolding openapi_common_keywords_def
  by (intro schema_rules) (auto intro!: schema_rules go split: json.splits)

lemma alternatives_errors: "schema_errors (openapi_alternatives go alternatives v exact)"
  unfolding openapi_alternatives_def
  by (auto intro!: schema_rules count_matches_errors go split: json.splits)

lemma field_errors: "schema_errors (field_schema properties additional name)"
  unfolding field_schema_def Let_def by (intro schema_rules) simp_all

lemma object_errors: "schema_errors (openapi_object go schema v)"
proof -
  have child: "schema_errors (case child of None \<Rightarrow> Inr () | Some c \<Rightarrow> go c item)" for child item
    by (cases child) (auto intro: schema_rules go)
  have "schema_errors (res_each (\<lambda>(name, item).
      res_bind (field_schema properties additional name) (\<lambda>child.
      case child of None \<Rightarrow> Inr () | Some c \<Rightarrow> go c item)) entries)" for properties additional entries
    by (auto intro!: schema_errors_basic(4,5) field_errors child split: prod.split)
  then show ?thesis
    unfolding openapi_object_def Let_def
    by (auto intro!: schema_errors_basic(2) split: json.splits)
qed

lemma array_errors: "schema_errors (openapi_array go schema v)"
  unfolding openapi_array_def by (auto intro!: schema_rules go split: json.splits option.splits)

lemma typed_errors: "schema_errors (openapi_typed_value w go schema v)"
  unfolding openapi_typed_value_def Let_def
  by (intro schema_rules object_errors array_errors) simp_all

lemma value_body_errors: "schema_errors (openapi_value_body w go document schema v)"
proof -
  have "schema_errors (res_bind (openapi_common_keywords go d v) (\<lambda>_.
      let one_of = dget d ''oneOf''; any_of = dget d ''anyOf'' in
      if one_of \<noteq> JNull \<and> any_of \<noteq> JNull then Inl invalid_operation
      else if one_of \<noteq> JNull then openapi_alternatives go one_of v True
      else if any_of \<noteq> JNull then openapi_alternatives go any_of v False
      else openapi_typed_value w go d v))" for d
    unfolding Let_def by (intro schema_rules common_errors alternatives_errors typed_errors) simp
  then show ?thesis
    unfolding openapi_value_body_def
    by (intro schema_rules) (auto intro!: schema_errors_basic(1,2) split: json.split)
qed

end

lemma validate_openapi_errors [schema_rules]:
  "schema_errors (validate_openapi_value w document schema v depth)"
proof (induction w document schema v depth rule: validate_openapi_value.induct)
  case (1 w document schema v depth)
  show ?case
  proof (cases "8 < depth")
    case True
    then show ?thesis by (subst validate_openapi_value.simps) (simp add: schema_rules)
  next
    case False
    then have "schema_checker (\<lambda>schema' v'. validate_openapi_value w document schema' v' (Suc depth))"
      by (intro schema_checker.intro) (rule 1)
    from schema_checker.value_body_errors [OF this] False show ?thesis
      by (subst validate_openapi_value.simps) simp
  qed
qed

interpretation advertised: schema_checker "\<lambda>schema v. validate_openapi_value w document schema v depth"
  for w document depth
  by unfold_locales (rule validate_openapi_errors)

lemma parameters_errors [schema_rules]: "schema_errors (parameters_of path_item advertised)"
  by (auto simp: parameters_of_def intro!: schema_rules split: json.splits)

lemma mount_errors [schema_rules]:
  "schema_errors (validate_advertised_mount path_item advertised placeholder mount_path)"
proof -
  have "schema_errors (check_mount_schema schema mount_path)" for schema
    unfolding check_mount_schema_def by (auto intro!: schema_errors_basic(2,3) split: json.split)
  then show ?thesis
    unfolding validate_advertised_mount_def
    by (intro schema_rules) (auto intro!: schema_errors_basic(2) split: list.split json.split)
qed

lemma query_errors [schema_rules]: "schema_errors (validate_advertised_query w document parameters query)"
proof -
  let ?declared = "declared_query parameters"
  have "schema_errors (res_each (\<lambda>(name, v). res_bind (dindex ?declared name) (\<lambda>item.
      validate_openapi_value w document (query_schema item) v 0)) query)"
    if "list_all (List.member (map fst ?declared)) (keys query)"
  proof (rule schema_errors_basic(5), clarify)
    fix name v assume "(name, v) \<in> set query"
    with that have "name \<in> set (keys ?declared)"
      by (force simp: list_all_iff keys_def)
    then obtain item where "dindex ?declared name = Inr item"
      using dindex_present by blast
    then show "schema_errors (res_bind (dindex ?declared name) (\<lambda>item.
      validate_openapi_value w document (query_schema item) v 0))"
      by (simp add: schema_rules)
  qed
  then show ?thesis
    unfolding validate_advertised_query_def Let_def
    by (intro schema_errors_if schema_errors_basic(2)) simp_all
qed

lemma body_errors [schema_rules]: "schema_errors (validate_advertised_body w document advertised body)"
  unfolding validate_advertised_body_def Let_def
  by (auto intro!: schema_errors_basic(2,3) validate_openapi_errors split: json.split)

lemma advertised_arguments_errors [schema_rules]:
  "schema_errors (validate_advertised_arguments w document path_item advertised verb query body)"
  unfolding validate_advertised_arguments_def by (intro schema_rules) simp

end
