(* ===== verification/Openapi_Spec.thy ===== *)
theory Openapi_Spec
  imports Openapi
begin

text \<open>
  What accepting a value against an advertised schema means: a declarative reading of the schema
  language, which the check implements soundly; that exactly one alternative of a \<open>oneOf\<close> accepts; and
  that a schema that refers to itself is refused rather than followed for ever.
\<close>

section \<open>Conformance\<close>

definition enum_allows :: "dict \<Rightarrow> json \<Rightarrow> bool" where
  "enum_allows d v \<longleftrightarrow> dget d ''enum'' = JNull \<or> (\<exists>choices. dget d ''enum'' = JArr choices \<and> py_in v choices)"

definition all_members :: "dict \<Rightarrow> json list" where
  "all_members d = (case dget_or d ''allOf'' (JArr []) of JArr ms \<Rightarrow> ms | _ \<Rightarrow> [])"

definition additional_of :: "dict \<Rightarrow> json" where
  "additional_of d = dget_or d ''additionalProperties'' (JBool False)"

definition object_schema :: "dict \<Rightarrow> bool" where
  "object_schema d \<longleftrightarrow> dget d ''type'' = JStr ''object'' \<or> ''properties'' \<in> set (keys d)"

text \<open>
  A field is declared by the schema, or covered by its additional properties; what covers it also has
  to accept its value.
\<close>

inductive conforms :: "world \<Rightarrow> dict \<Rightarrow> json \<Rightarrow> json \<Rightarrow> bool" for w document where
  conforms_null:
    "resolve_advertised_schema document schema = Inr (JObj d) \<Longrightarrow> dget d ''nullable'' = JBool True \<Longrightarrow>
     conforms w document schema JNull"
| conforms_alternative:
    "resolve_advertised_schema document schema = Inr (JObj d) \<Longrightarrow> enum_allows d v \<Longrightarrow>
     (\<And>m. m \<in> set (all_members d) \<Longrightarrow> conforms w document m v) \<Longrightarrow>
     k \<in> {''oneOf'', ''anyOf''} \<Longrightarrow> dget d k = JArr alternatives \<Longrightarrow>
     a \<in> set alternatives \<Longrightarrow> conforms w document a v \<Longrightarrow> conforms w document schema v"
| conforms_object:
    "resolve_advertised_schema document schema = Inr (JObj d) \<Longrightarrow> enum_allows d (JObj entries) \<Longrightarrow>
     (\<And>m. m \<in> set (all_members d) \<Longrightarrow> conforms w document m (JObj entries)) \<Longrightarrow> object_schema d \<Longrightarrow>
     dget_or d ''properties'' (JObj []) = JObj properties \<Longrightarrow>
     dget_or d ''required'' (JArr []) = JArr required \<Longrightarrow>
     set required \<subseteq> set (map JStr (keys entries)) \<Longrightarrow>
     (\<And>name x. (name, x) \<in> set entries \<Longrightarrow> dget properties name \<noteq> JNull \<Longrightarrow>
        conforms w document (dget properties name) x) \<Longrightarrow>
     (\<And>name x. (name, x) \<in> set entries \<Longrightarrow> dget properties name = JNull \<Longrightarrow>
        additional_of d = JBool True \<or> conforms w document (additional_of d) x) \<Longrightarrow>
     conforms w document schema (JObj entries)"
| conforms_array:
    "resolve_advertised_schema document schema = Inr (JObj d) \<Longrightarrow> enum_allows d (JArr xs) \<Longrightarrow>
     (\<And>m. m \<in> set (all_members d) \<Longrightarrow> conforms w document m (JArr xs)) \<Longrightarrow>
     dget d ''type'' = JStr ''array'' \<Longrightarrow> dget d ''items'' = JObj items \<Longrightarrow>
     int_of_json (dget_or d ''minItems'' (JInt 0)) = Some least \<Longrightarrow>
     int_of_json (dget_or d ''maxItems'' (JInt MAX_ADMINISTRATION_SCHEMA_ITEMS)) = Some most \<Longrightarrow>
     least \<le> int (length xs) \<Longrightarrow> int (length xs) \<le> most \<Longrightarrow>
     (\<And>x. x \<in> set xs \<Longrightarrow> conforms w document (JObj items) x) \<Longrightarrow>
     conforms w document schema (JArr xs)"
| conforms_scalar:
    "resolve_advertised_schema document schema = Inr (JObj d) \<Longrightarrow> enum_allows d v \<Longrightarrow>
     (\<And>m. m \<in> set (all_members d) \<Longrightarrow> conforms w document m v) \<Longrightarrow>
     openapi_scalar_matches (dget d ''type'') v \<Longrightarrow> openapi_scalar_constraints w d v = Inr () \<Longrightarrow>
     conforms w document schema v"

lemma common_keywords_Inr:
  "openapi_common_keywords go d v = Inr () \<longleftrightarrow>
     (dget d ''enum'' = JNull \<or> (\<exists>choices. dget d ''enum'' = JArr choices \<and> choices \<noteq> [] \<and> py_in v choices)) \<and>
     (\<exists>ms. dget_or d ''allOf'' (JArr []) = JArr ms \<and> (\<forall>m \<in> set ms. go m v = Inr ()))"
  by (auto simp: openapi_common_keywords_def res_bind_Inr res_each_Inr split: json.splits)

lemma common_keywords_accept:
  assumes "openapi_common_keywords go d v = Inr ()"
  shows "enum_allows d v" and "m \<in> set (all_members d) \<Longrightarrow> go m v = Inr ()"
  using assms by (auto simp: common_keywords_Inr enum_allows_def all_members_def)

lemma count_matches_Inr:
  "count_matches check xs = Inr n \<Longrightarrow> n = length (filter (\<lambda>a. check a = Inr ()) xs)"
  by (induction check xs arbitrary: n rule: count_matches.induct)
    (auto simp: res_bind_Inr split: sum.splits exn.splits)

lemma alternatives_accept:
  "openapi_alternatives go alternatives v exact = Inr () \<Longrightarrow>
   \<exists>xs. alternatives = JArr xs \<and> filter (\<lambda>a. go a v = Inr ()) xs \<noteq> [] \<and>
     (exact \<longrightarrow> length (filter (\<lambda>a. go a v = Inr ()) xs) = 1)"
  by (auto simp: openapi_alternatives_def res_bind_Inr dest!: count_matches_Inr
      split: json.splits if_split_asm)

lemma alternatives_member:
  assumes "openapi_alternatives go alternatives v exact = Inr ()"
  obtains xs a where "alternatives = JArr xs" and "a \<in> set xs" and "go a v = Inr ()"
  using alternatives_accept [OF assms] by (auto simp: filter_empty_conv)

lemma field_schema_Inr:
  "field_schema properties additional name = Inr child \<longleftrightarrow>
     (if dget properties name \<noteq> JNull then child = Some (dget properties name)
      else if additional = JBool True then child = None
      else is_dict additional \<and> child = Some additional)"
  by (auto simp: field_schema_def Let_def)

lemma object_accept:
  assumes "openapi_object go d v = Inr ()"
  obtains entries properties required where "v = JObj entries"
    and "dget_or d ''properties'' (JObj []) = JObj properties"
    and "dget_or d ''required'' (JArr []) = JArr required"
    and "set required \<subseteq> set (map JStr (keys entries))"
    and "\<And>name x. (name, x) \<in> set entries \<Longrightarrow> dget properties name \<noteq> JNull \<Longrightarrow>
      go (dget properties name) x = Inr ()"
    and "\<And>name x. (name, x) \<in> set entries \<Longrightarrow> dget properties name = JNull \<Longrightarrow>
      additional_of d = JBool True \<or> go (additional_of d) x = Inr ()"
proof -
  from assms obtain entries where v: "v = JObj entries"
    by (auto simp: openapi_object_def split: json.splits)
  from assms v obtain properties where p: "dget_or d ''properties'' (JObj []) = JObj properties"
    by (auto simp: openapi_object_def split: json.splits)
  from assms v p obtain required where r: "dget_or d ''required'' (JArr []) = JArr required"
    by (auto simp: openapi_object_def split: json.splits)
  let ?add = "additional_of d"
  from assms v p r have present: "list_all (List.member (map JStr (keys entries))) required"
    and each: "res_each (\<lambda>(name, item). res_bind (field_schema properties ?add name) (\<lambda>child.
        case child of None \<Rightarrow> Inr () | Some c \<Rightarrow> go c item)) entries = Inr ()"
    by (simp_all add: openapi_object_def Let_def additional_of_def split: if_split_asm)
  have field: "\<exists>child. field_schema properties ?add name = Inr child \<and>
      (case child of None \<Rightarrow> Inr () | Some c \<Rightarrow> go c x) = Inr ()" if "(name, x) \<in> set entries" for name x
    using each that by (force simp: res_each_Inr res_bind_Inr)
  show ?thesis
  proof (rule that [OF v p r])
    show "set required \<subseteq> set (map JStr (keys entries))"
      using present by (auto simp: list_all_iff)
    show "go (dget properties name) x = Inr ()"
      if "(name, x) \<in> set entries" "dget properties name \<noteq> JNull" for name x
      using field [OF that(1)] that(2) by (auto simp: field_schema_Inr)
    show "?add = JBool True \<or> go ?add x = Inr ()"
      if "(name, x) \<in> set entries" "dget properties name = JNull" for name x
      using field [OF that(1)] that(2) by (auto simp: field_schema_Inr split: if_split_asm)
  qed
qed

lemma array_accept:
  assumes "openapi_array go d v = Inr ()"
  obtains xs items least most where "v = JArr xs" and "dget d ''items'' = JObj items"
    and "int_of_json (dget_or d ''minItems'' (JInt 0)) = Some least"
    and "int_of_json (dget_or d ''maxItems'' (JInt MAX_ADMINISTRATION_SCHEMA_ITEMS)) = Some most"
    and "least \<le> int (length xs)" and "int (length xs) \<le> most"
    and "\<And>x. x \<in> set xs \<Longrightarrow> go (JObj items) x = Inr ()"
  using assms
  by (auto simp: openapi_array_def res_each_Inr split: json.splits option.splits if_split_asm)

lemma value_body_conforms:
  assumes body: "openapi_value_body w go document schema v = Inr ()"
    and go: "\<And>s x. go s x = Inr () \<Longrightarrow> conforms w document s x"
  shows "conforms w document schema v"
proof -
  from body obtain resolved where "resolve_advertised_schema document schema = Inr resolved"
    by (auto simp: openapi_value_body_def res_bind_Inr)
  with body obtain d where d: "resolve_advertised_schema document schema = Inr (JObj d)"
    by (cases resolved) (auto simp: openapi_value_body_def)
  show ?thesis
  proof (cases "v = JNull \<and> dget d ''nullable'' = JBool True")
    case True
    with d show ?thesis by (auto intro: conforms_null)
  next
    case False
    with body d have common: "openapi_common_keywords go d v = Inr ()"
      and rest: "(let one_of = dget d ''oneOf''; any_of = dget d ''anyOf'' in
          if one_of \<noteq> JNull \<and> any_of \<noteq> JNull then Inl invalid_operation
          else if one_of \<noteq> JNull then openapi_alternatives go one_of v True
          else if any_of \<noteq> JNull then openapi_alternatives go any_of v False
          else openapi_typed_value w go d v) = Inr ()"
      by (auto simp: openapi_value_body_def res_bind_Inr)
    note accepted = common_keywords_accept [OF common]
    note members = go [OF accepted(2)]
    from rest consider (alternative) k exact where "k \<in> {''oneOf'', ''anyOf''}"
        "openapi_alternatives go (dget d k) v exact = Inr ()"
      | (typed) "openapi_typed_value w go d v = Inr ()"
      by (auto simp: Let_def split: if_split_asm)
    then show ?thesis
    proof cases
      case alternative
      then obtain xs a where "dget d k = JArr xs" "a \<in> set xs" "go a v = Inr ()"
        by (blast elim: alternatives_member)
      then show ?thesis
        using conforms_alternative [OF d accepted(1) members alternative(1)] go by blast
    next
      case typed
      then consider (object) "object_schema d" "openapi_object go d v = Inr ()"
        | (array) "dget d ''type'' = JStr ''array''" "openapi_array go d v = Inr ()"
        | (scalar) "openapi_scalar_matches (dget d ''type'') v" "openapi_scalar_constraints w d v = Inr ()"
        by (auto simp: openapi_typed_value_def Let_def object_schema_def split: if_split_asm)
      then show ?thesis
      proof cases
        case object
        from object(2) accepted(1) members go show ?thesis
          by (elim object_accept) (fastforce intro!: conforms_object [OF d _ _ object(1)])
      next
        case array
        from array(2) accepted(1) members go show ?thesis
          by (elim array_accept) (auto intro!: conforms_array [OF d _ _ array(1)])
      next
        case scalar
        with d accepted(1) members show ?thesis by (blast intro: conforms_scalar)
      qed
    qed
  qed
qed

lemma validate_step:
  "depth \<le> 8 \<Longrightarrow> validate_openapi_value w document schema v depth =
     openapi_value_body w (\<lambda>s x. validate_openapi_value w document s x (Suc depth)) document schema v"
  by (subst validate_openapi_value.simps) simp

lemma validate_deep: "8 < depth \<Longrightarrow> validate_openapi_value w document schema v depth = Inl invalid_operation"
  by (subst validate_openapi_value.simps) simp

lemma validate_conforms:
  "validate_openapi_value w document schema v depth = Inr () \<Longrightarrow> conforms w document schema v"
proof (induction w document schema v depth rule: validate_openapi_value.induct)
  case (1 w document schema v depth)
  then have "depth \<le> 8" by (auto simp: validate_deep not_less [symmetric])
  with 1 show ?case
    by (auto simp: validate_step intro: value_body_conforms)
qed

section \<open>Schemas that refer to themselves\<close>

lemma self_reference_step:
  assumes resolved: "resolve_advertised_schema document schema = Inr (JObj d)"
    and members: "dget_or d ''allOf'' (JArr []) = JArr ms" and self: "schema \<in> set ms"
    and v: "v \<noteq> JNull" and accepted: "validate_openapi_value w document schema v depth = Inr ()"
  shows "depth \<le> 8 \<and> validate_openapi_value w document schema v (Suc depth) = Inr ()"
proof -
  from accepted have "depth \<le> 8" by (auto simp: validate_deep not_less [symmetric])
  with accepted resolved v have "openapi_common_keywords
      (\<lambda>s x. validate_openapi_value w document s x (Suc depth)) d v = Inr ()"
    by (auto simp: validate_step openapi_value_body_def res_bind_Inr)
  from common_keywords_accept(2) [OF this, of schema] members self
  have "validate_openapi_value w document schema v (Suc depth) = Inr ()"
    by (simp add: all_members_def)
  with \<open>depth \<le> 8\<close> show ?thesis by simp
qed

lemma self_reference_refused:
  assumes "resolve_advertised_schema document schema = Inr (JObj d)"
    and "dget_or d ''allOf'' (JArr []) = JArr ms" and "schema \<in> set ms" and "v \<noteq> JNull"
  shows "validate_openapi_value w document schema v depth \<noteq> Inr ()"
proof (induction "9 - depth" arbitrary: depth)
  case 0
  then show ?case by (simp add: validate_deep)
next
  case (Suc n)
  then have "validate_openapi_value w document schema v (Suc depth) \<noteq> Inr ()" by simp
  with self_reference_step [OF assms] show ?case by blast
qed

end
