(* ===== verification/Vault_Admin.thy ===== *)
theory Vault_Admin
  imports Vault_Outcome Openapi_Spec
begin

text \<open>
  \<open>execute_administration\<close> of \<^verbatim>\<open>broker/vault.py\<close>: the dispatch of one validated operation to its
  server-owned path, to a reviewed proxy, or to a mounted operation that OpenBao itself advertises.
\<close>

section \<open>Mounted operations\<close>

text \<open>\<open>arguments["path_template"][2:placeholder_end]\<close>, where the index of a missing brace is \<open>-1\<close>.\<close>

definition placeholder_of :: "string \<Rightarrow> string" where
  "placeholder_of template =
     drop 2 (take (case find_char CHR ''}'' template of Some n \<Rightarrow> n | None \<Rightarrow> length template - 1) template)"

definition mount_placeholder :: "string \<Rightarrow> string" where
  "mount_placeholder mount_path = replace_char CHR ''-'' CHR ''_'' mount_path @ ''_mount_path''"

text \<open>The path item and the operation of the document, if it advertises them.\<close>

definition advertised_item :: "dict \<Rightarrow> string \<Rightarrow> json" where
  "advertised_item document template =
     (case dget document ''paths'' of JObj paths \<Rightarrow> dget paths template | _ \<Rightarrow> JNull)"

definition raw_method :: "string \<Rightarrow> string" where
  "raw_method verb = (if verb = ''LIST'' then ''get'' else lower verb)"

definition advertised_operation :: "dict \<Rightarrow> string \<Rightarrow> string \<Rightarrow> string \<Rightarrow> (dict \<times> dict) res" where
  "advertised_operation document template verb operation_id =
     (case advertised_item document template of
        JObj path_item \<Rightarrow> (case dget path_item (raw_method verb) of
            JObj advertised \<Rightarrow>
              if dget advertised ''operationId'' = JStr operation_id then Inr (path_item, advertised)
              else Inl (vault_exn VaultError ''The mounted operation is not advertised by OpenBao.'')
          | _ \<Rightarrow> Inl (vault_exn VaultError ''The mounted operation is not advertised by OpenBao.''))
      | _ \<Rightarrow> Inl (vault_exn VaultError ''The mounted operation is not advertised by OpenBao.''))"

text \<open>A validated mounted operation, with the types its validation established.\<close>

record mounted_arguments =
  ma_method :: string
  ma_template :: string
  ma_mount :: string
  ma_operation_id :: string
  ma_path :: string
  ma_query :: dict
  ma_body :: dict

definition mounted_arguments_of :: "dict \<Rightarrow> mounted_arguments res" where
  "mounted_arguments_of arguments =
     res_bind (str_arg arguments ''path_template'') (\<lambda>template.
     res_bind (str_arg arguments ''mount_path'') (\<lambda>mount.
     res_bind (str_arg arguments ''method'') (\<lambda>verb.
     res_bind (str_arg arguments ''operation_id'') (\<lambda>operation_id.
     res_bind (dict_arg arguments ''query'') (\<lambda>query.
     res_bind (dict_arg arguments ''body'') (\<lambda>body.
     res_bind (str_arg arguments ''path'') (\<lambda>path.
     Inr \<lparr>ma_method = verb, ma_template = template, ma_mount = mount, ma_operation_id = operation_id,
          ma_path = path, ma_query = query, ma_body = body\<rparr>)))))))"

definition check_mounted :: "world \<Rightarrow> dict \<Rightarrow> mounted_arguments \<Rightarrow> unit res" where
  "check_mounted w document m =
     (if placeholder_of (ma_template m) \<noteq> mount_placeholder (ma_mount m) then Inl mount_mismatch
      else
        res_bind (advertised_operation document (ma_template m) (ma_method m) (ma_operation_id m))
          (\<lambda>(path_item, advertised).
        res_bind (validate_advertised_mount path_item advertised (placeholder_of (ma_template m)) (ma_mount m)) (\<lambda>_.
        validate_advertised_arguments w document path_item advertised (ma_method m) (ma_query m) (ma_body m))))"

text \<open>\<open>query or None\<close>\<close>

definition params_of :: "dict \<Rightarrow> dict option" where
  "params_of query = (if query = [] then None else Some query)"

definition fetch_document :: "world \<Rightarrow> broker_config \<Rightarrow> dict bop" where
  "fetch_document w cfg =
     administration_request w cfg ''GET'' ''/sys/internal/specs/openapi'' True JNull
       (Some [(''generic_mount_paths'', JStr ''true'')]) [] (JStr []) False"

definition send_mounted :: "world \<Rightarrow> broker_config \<Rightarrow> mounted_arguments \<Rightarrow> dict bop" where
  "send_mounted w cfg m =
     (let verb = ma_method m; has_body = List.member [''POST'', ''PUT'', ''PATCH''] verb in
      administration_request w cfg (if verb = ''LIST'' then ''GET'' else verb) (ma_path m) True
        (if has_body then JObj (ma_body m) else JNull)
        (params_of (mounted_query verb (ma_query m)))
        (if verb = ''PATCH'' then [(''Content-Type'', JStr ''application/merge-patch+json'')] else [])
        (JStr []) (has_body \<or> verb = ''DELETE''))"

definition execute_mounted_operation :: "world \<Rightarrow> broker_config \<Rightarrow> dict \<Rightarrow> dict bop" where
  "execute_mounted_operation w cfg arguments =
     bind_op (fetch_document w cfg) (\<lambda>document.
     bind_op (lift_res (mounted_arguments_of arguments)) (\<lambda>m.
     bind_op (lift_res (check_mounted w document m)) (\<lambda>_.
     send_mounted w cfg m)))"

section \<open>Dispatch\<close>

text \<open>The table \<open>specifications\<close>: method, path, authenticated, mutation and parameters.\<close>

record admin_endpoint =
  sp_method :: string
  sp_path :: string
  sp_authenticated :: bool
  sp_mutation :: bool
  sp_params :: "dict option"

definition endpoint_of :: "string \<Rightarrow> string \<Rightarrow> bool \<Rightarrow> bool \<Rightarrow> dict option \<Rightarrow> admin_endpoint" where
  "endpoint_of verb path authenticated mutation params =
     \<lparr>sp_method = verb, sp_path = path, sp_authenticated = authenticated, sp_mutation = mutation,
      sp_params = params\<rparr>"

definition SPECIFICATIONS :: "(string \<times> admin_endpoint) list" where
  "SPECIFICATIONS =
    [(''discover_capabilities'', endpoint_of ''GET'' ''/sys/internal/specs/openapi'' True False
        (Some [(''generic_mount_paths'', JStr ''true'')])),
     (''initialization_status'', endpoint_of ''GET'' ''/sys/init'' False False None),
     (''seal_status'', endpoint_of ''GET'' ''/sys/seal-status'' False False None),
     (''leader_status'', endpoint_of ''GET'' ''/sys/leader'' True False None),
     (''ha_status'', endpoint_of ''GET'' ''/sys/ha-status'' True False None),
     (''raft_configuration'', endpoint_of ''GET'' ''/sys/storage/raft/configuration'' True False None),
     (''initialize'', endpoint_of ''PUT'' ''/sys/init'' False True None),
     (''join_raft'', endpoint_of ''POST'' ''/sys/storage/raft/join'' False True None),
     (''unseal'', endpoint_of ''PUT'' ''/sys/unseal'' False True None),
     (''seal'', endpoint_of ''PUT'' ''/sys/seal'' True True None),
     (''remove_raft_peer'', endpoint_of ''POST'' ''/sys/storage/raft/remove-peer'' True True None)]"

definition PROXY_OPERATIONS :: "string list" where
  "PROXY_OPERATIONS =
    [''execute_access_operation'', ''execute_authentication_operation'', ''execute_final_operation'',
     ''execute_secret_engine_operation'']"

definition execute_specification :: "world \<Rightarrow> broker_config \<Rightarrow> admin_endpoint \<Rightarrow> dict \<Rightarrow> dict bop" where
  "execute_specification w cfg sp arguments =
     administration_request w cfg (sp_method sp) (sp_path sp) (sp_authenticated sp)
       (if List.member [''POST'', ''PUT''] (sp_method sp) then JObj arguments else JNull)
       (sp_params sp) [] (JStr []) (sp_mutation sp)"

definition execute_administration :: "world \<Rightarrow> broker_config \<Rightarrow> string \<Rightarrow> dict \<Rightarrow> dict bop" where
  "execute_administration w cfg operation arguments =
     (if List.member PROXY_OPERATIONS operation then execute_reviewed_proxy w cfg operation arguments
      else if operation = ''execute_mounted_operation'' then execute_mounted_operation w cfg arguments
      else case map_of SPECIFICATIONS operation of
          None \<Rightarrow> throw (vault_exn VaultError ''The administration operation is unsupported.'')
        | Some sp \<Rightarrow> execute_specification w cfg sp arguments)"

section \<open>The contract of the client\<close>

text \<open>The requests a mounted operation and the dispatcher may send.\<close>

definition document_http :: "broker_config \<Rightarrow> http_request \<Rightarrow> bool" where
  "document_http cfg rq \<longleftrightarrow> rq_method rq = ''GET'' \<and>
     rq_url rq = administration_url cfg ''/sys/internal/specs/openapi''"

definition mounted_http :: "broker_config \<Rightarrow> dict \<Rightarrow> http_request \<Rightarrow> bool" where
  "mounted_http cfg arguments rq \<longleftrightarrow> (\<exists>m. mounted_arguments_of arguments = Inr m \<and>
     rq_method rq = (if ma_method m = ''LIST'' then ''GET'' else ma_method m) \<and>
     rq_url rq = administration_url cfg (ma_path m))"

definition specified_http :: "broker_config \<Rightarrow> string \<Rightarrow> http_request \<Rightarrow> bool" where
  "specified_http cfg operation rq \<longleftrightarrow> (\<exists>sp. map_of SPECIFICATIONS operation = Some sp \<and>
     rq_method rq = sp_method sp \<and> rq_url rq = administration_url cfg (sp_path sp))"

definition administration_call :: "broker_config \<Rightarrow> string \<Rightarrow> dict \<Rightarrow> http_request \<Rightarrow> bool" where
  "administration_call cfg operation arguments rq \<longleftrightarrow>
     (if List.member PROXY_OPERATIONS operation then proxy_http cfg operation arguments rq
      else if operation = ''execute_mounted_operation'' then document_http cfg rq \<or> mounted_http cfg arguments rq
      else specified_http cfg operation rq)"

context exchange_preorder
begin

lemma execute_mounted_rel [client_ops]:
  assumes "\<And>rq. document_http cfg rq \<or> mounted_http cfg arguments rq \<Longrightarrow> allowed (HttpCall rq)"
  shows "op_rel R (execute_mounted_operation w cfg arguments)"
proof -
  have fetch: "op_rel R (fetch_document w cfg)"
    unfolding fetch_document_def
    by (intro client_ops assms) (simp add: document_http_def administration_http_def)
  have "op_rel R (bind_op (lift_res (mounted_arguments_of arguments)) (\<lambda>m.
     bind_op (lift_res (check_mounted w document m)) (\<lambda>_. send_mounted w cfg m)))" for document
  proof (cases "mounted_arguments_of arguments")
    case (Inl e)
    then show ?thesis by (simp add: op_rel_def bind_op_run R_refl)
  next
    case (Inr m)
    have "op_rel R (send_mounted w cfg m)"
      unfolding send_mounted_def Let_def
      by (intro client_ops assms) (simp add: Inr mounted_http_def administration_http_def)
    then have "op_rel R (bind_op (lift_res (check_mounted w document m)) (\<lambda>_. send_mounted w cfg m))"
      by (intro op_rules)
    with Inr show ?thesis by (simp add: op_rel_def bind_op_run)
  qed
  with fetch show ?thesis
    unfolding execute_mounted_operation_def by (rule bind_rel)
qed

lemma execute_administration_rel [client_ops]:
  assumes "\<And>rq. administration_call cfg operation arguments rq \<Longrightarrow> allowed (HttpCall rq)"
  shows "op_rel R (execute_administration w cfg operation arguments)"
proof -
  have "op_rel R (execute_specification w cfg sp arguments)"
    if "map_of SPECIFICATIONS operation = Some sp" "\<not> List.member PROXY_OPERATIONS operation"
      "operation \<noteq> ''execute_mounted_operation''" for sp
    unfolding execute_specification_def
    by (intro client_ops assms) (use that in \<open>simp add: administration_call_def specified_http_def administration_http_def\<close>)
  moreover have "op_rel R (execute_mounted_operation w cfg arguments)"
    if "operation = ''execute_mounted_operation''" "\<not> List.member PROXY_OPERATIONS operation"
    by (intro client_ops assms) (use that in \<open>simp add: administration_call_def\<close>)
  moreover have "op_rel R (execute_reviewed_proxy w cfg operation arguments)"
    if "List.member PROXY_OPERATIONS operation"
    by (intro client_ops assms) (use that in \<open>simp add: administration_call_def\<close>)
  ultimately show ?thesis
    unfolding execute_administration_def
    by (auto split: option.split intro: throw_rel)
qed

end

lemma advertised_operation_errors [schema_rules]:
  "schema_errors (advertised_operation document template verb operation_id)"
  unfolding advertised_operation_def
  by (auto intro!: schema_errors_basic(1,2) split: json.split)

lemma check_mounted_errors [schema_rules]: "schema_errors (check_mounted w document m)"
  unfolding check_mounted_def
  by (intro schema_rules) (auto intro!: schema_rules split: prod.split)

lemma mounted_arguments_error: "mounted_arguments_of arguments = Inl e \<Longrightarrow> e = KeyError \<or> e = TypeError"
  by (auto simp: mounted_arguments_of_def res_bind_Inl dest!: str_arg_error dict_arg_error)

lemma execute_mounted_closed [raises_rules]:
  "raises_only closed_exn (execute_mounted_operation w cfg arguments)"
  unfolding execute_mounted_operation_def fetch_document_def send_mounted_def Let_def
  by (intro raises_rules)
    (use check_mounted_errors in \<open>auto simp: schema_errors_def dest!: mounted_arguments_error schema_exn_closed\<close>)

lemma unsupported_closed [simp]:
  "closed_exn (vault_exn VaultError ''The administration operation is unsupported.'')"
  by (rule closed_vault_exn) (simp add: VAULT_TEXTS_def)

lemma execute_administration_closed [raises_rules]:
  "raises_only closed_exn (execute_administration w cfg operation arguments)"
  unfolding execute_administration_def execute_specification_def
  by (auto intro!: raises_rules split: option.splits)

lemma lock_free_mounted [lock_rules]: "lock_free (execute_mounted_operation w cfg arguments)"
  unfolding execute_mounted_operation_def fetch_document_def send_mounted_def Let_def
  by (intro lock_rules)

lemma lock_free_administration [lock_rules]: "lock_free (execute_administration w cfg operation arguments)"
  unfolding execute_administration_def execute_specification_def
  by (intro lock_rules)

end
