(* ===== verification/Broker_App.thy ===== *)
theory Broker_App
  imports Vault_Admin
begin

text \<open>
  The HTTP surface of \<^verbatim>\<open>broker/app.py\<close>, less the two snapshot routes: identifying the caller,
  authorizing a path, running an authorized operation with its audit record, the six secret routes,
  the health probe and the administration routes. The framework is outside the model: it parses the
  body into a request record that satisfies the field constraints, resolves the \<open>caller\<close> dependency
  before it calls the handler (\<open>endpoint\<close>), and turns an \<open>HTTPException\<close> into a response. The
  request id, a fresh UUID in the code, is an argument.
\<close>

section \<open>Requests\<close>

record path_request =
  rp_path :: string

record read_request = path_request +
  rr_version :: "int option"

record write_request = path_request +
  wr_data :: dict
  wr_cas :: "int option"

record delete_request = path_request +
  dr_versions :: "int list option"

record metadata_request = path_request +
  mr_custom_metadata :: dict

record administration_body =
  ab_contract_digest :: string
  ab_operation :: string
  ab_arguments :: dict

text \<open>The constraints of the \<open>Field\<close> declarations.\<close>

definition MAX_PATH_LENGTH :: nat where "MAX_PATH_LENGTH = 500"

definition valid_path_request :: "'a path_request_scheme \<Rightarrow> bool" where
  "valid_path_request r \<longleftrightarrow> length (rp_path r) \<le> MAX_PATH_LENGTH"

definition valid_read_request :: "read_request \<Rightarrow> bool" where
  "valid_read_request r \<longleftrightarrow> valid_path_request r \<and> (case rr_version r of None \<Rightarrow> True | Some v \<Rightarrow> 1 \<le> v)"

definition valid_write_request :: "write_request \<Rightarrow> bool" where
  "valid_write_request r \<longleftrightarrow> valid_path_request r \<and> (case wr_cas r of None \<Rightarrow> True | Some v \<Rightarrow> 0 \<le> v)"

definition DIGEST_RX :: rx where
  "DIGEST_RX = RRep 64 64 (RSet [(CHR ''0'', CHR ''9''), (CHR ''a'', CHR ''f'')])"

definition OPERATION_RX :: rx where
  "OPERATION_RX = RSeq (RSet [(CHR ''a'', CHR ''z'')])
     (RStar (RSet [(CHR ''a'', CHR ''z''), (CHR ''0'', CHR ''9''), (CHR ''_'', CHR ''_'')]))"

definition valid_administration_body :: "administration_body \<Rightarrow> bool" where
  "valid_administration_body r \<longleftrightarrow> fullmatch DIGEST_RX (ab_contract_digest r) \<and>
     1 \<le> length (ab_operation r) \<and> length (ab_operation r) \<le> 100 \<and> fullmatch OPERATION_RX (ab_operation r)"

section \<open>The caller\<close>

record caller =
  ca_instance :: instance_policy
  ca_request_id :: string

text \<open>The call of \<open>audit.record\<close> by an identified caller; the reason and the version have defaults.\<close>

definition audit_entry_of ::
  "caller \<Rightarrow> string \<Rightarrow> string option \<Rightarrow> string \<Rightarrow> string option \<Rightarrow> json \<Rightarrow> audit_entry" where
  "audit_entry_of who operation path outcome reason version =
     \<lparr>ae_instance = JStr (ip_name (ca_instance who)), ae_operation = operation, ae_path = path,
      ae_outcome = outcome, ae_reason = reason, ae_request_id = ca_request_id who, ae_version = version\<rparr>"

text \<open>\<open>audit.record(outcome="denied", ...)\<close>, then \<open>raise HTTPException\<close>\<close>

definition deny :: "caller \<Rightarrow> string \<Rightarrow> string option \<Rightarrow> string \<Rightarrow> nat \<Rightarrow> string \<Rightarrow> 'a bop" where
  "deny who operation path reason status detail =
     bind_op (audit_record (audit_entry_of who operation path ''denied'' (Some reason) JNull))
       (\<lambda>_. throw (HTTPException status detail []))"

text \<open>A list or a dictionary is not hashable, so that it cannot be looked up.\<close>

definition instance_named :: "broker_config \<Rightarrow> json \<Rightarrow> instance_policy option res" where
  "instance_named cfg name = (case name of
       JStr n \<Rightarrow> Inr (config_instance cfg n)
     | JArr xs \<Rightarrow> Inl TypeError
     | JObj d \<Rightarrow> Inl TypeError
     | _ \<Rightarrow> Inr None)"

definition identify_entry :: "json \<Rightarrow> string \<Rightarrow> string \<Rightarrow> audit_entry" where
  "identify_entry name reason rid =
     \<lparr>ae_instance = name, ae_operation = ''identify'', ae_path = None, ae_outcome = ''denied'',
      ae_reason = Some reason, ae_request_id = rid, ae_version = JNull\<rparr>"

definition caller_of :: "broker_config \<Rightarrow> string \<Rightarrow> dict \<Rightarrow> caller bop" where
  "caller_of cfg rid scope = (case identity_from_scope scope of
       Inl (IdentityError m) \<Rightarrow>
         bind_op (audit_record (identify_entry JNull m rid)) (\<lambda>_. throw (HTTPException 401 m []))
     | Inl e \<Rightarrow> throw e
     | Inr name \<Rightarrow>
         bind_op (lift_res (instance_named cfg name)) (\<lambda>policy. case policy of
             None \<Rightarrow>
               bind_op (audit_record (identify_entry name ''instance not configured'' rid))
                 (\<lambda>_. throw (HTTPException 403 ''This client is not a configured instance.'' []))
           | Some p \<Rightarrow> ret \<lparr>ca_instance = p, ca_request_id = rid\<rparr>))"

section \<open>Authorizing a path\<close>

definition authorize :: "caller \<Rightarrow> string \<Rightarrow> string \<Rightarrow> bool \<Rightarrow> bool \<Rightarrow> string bop" where
  "authorize who raw_path operation write delete = (case normalize_path (JStr raw_path) of
       Inl (ValueError m) \<Rightarrow>
         deny who operation None (''invalid path: '' @ m) 400 (''Invalid path: '' @ m)
     | Inl e \<Rightarrow> throw e
     | Inr path \<Rightarrow>
         if \<not> permits_path (ca_instance who) path
         then deny who operation (Some path) ''outside permitted prefixes'' 403
                ''Path is outside this instance's prefixes.''
         else if write \<and> \<not> may_write (ca_instance who)
         then deny who operation (Some path) ''instance is read-only'' 403 ''This instance may not write.''
         else if delete \<and> \<not> may_delete (ca_instance who)
         then deny who operation (Some path) ''instance may not delete'' 403 ''This instance may not delete.''
         else ret path)"

section \<open>Running an operation\<close>

text \<open>The three handlers of \<open>run\<close>; the last takes every exception that is left.\<close>

definition run_error :: "caller \<Rightarrow> string \<Rightarrow> string \<Rightarrow> json \<Rightarrow> exn \<Rightarrow> 'a bop" where
  "run_error who operation path version e = (case e of
       VaultExn VaultMutationUnknown m \<Rightarrow>
         bind_op (audit_record (audit_entry_of who operation (Some path) ''unknown''
                    (Some ''mutation outcome unknown'') version))
           (\<lambda>_. throw (HTTPException (status_code VaultMutationUnknown) m [(''X-OpenBao-Outcome'', ''unknown'')]))
     | VaultExn k m \<Rightarrow>
         bind_op (audit_record (audit_entry_of who operation (Some path) ''error'' (Some m) version))
           (\<lambda>_. throw (HTTPException (status_code k) m []))
     | _ \<Rightarrow>
         bind_op (audit_record (audit_entry_of who operation (Some path) ''error'' (Some ''internal error'') version))
           (\<lambda>_. throw (HTTPException 500 ''Internal error.'' [])))"

definition run :: "caller \<Rightarrow> string \<Rightarrow> string \<Rightarrow> json bop \<Rightarrow> json \<Rightarrow> bool \<Rightarrow> json bop" where
  "run who operation path action version version_from_result =
     bind_op (catch_op action (run_error who operation path version)) (\<lambda>result.
       let version' = (if version_from_result \<and> is_int result then result else version) in
       bind_op (audit_record (audit_entry_of who operation (Some path) ''ok'' (Some []) version'))
         (\<lambda>_. ret result))"

section \<open>The secret routes\<close>

definition opt_int :: "int option \<Rightarrow> json" where
  "opt_int v = (case v of None \<Rightarrow> JNull | Some i \<Rightarrow> JInt i)"

definition returning_none :: "unit bop \<Rightarrow> json bop" where
  "returning_none m = bind_op m (\<lambda>_. ret JNull)"

definition read_secret_route :: "world \<Rightarrow> broker_config \<Rightarrow> read_request \<Rightarrow> caller \<Rightarrow> json bop" where
  "read_secret_route w cfg body who =
     bind_op (authorize who (rp_path body) ''read'' False False) (\<lambda>path.
     bind_op (run who ''read'' path (vault_read w cfg path (rr_version body)) (opt_int (rr_version body)) False)
       (\<lambda>data. ret (JObj [(''data'', data)])))"

definition write_secret_route :: "world \<Rightarrow> broker_config \<Rightarrow> write_request \<Rightarrow> caller \<Rightarrow> json bop" where
  "write_secret_route w cfg body who =
     bind_op (authorize who (rp_path body) ''write'' True False) (\<lambda>path.
     bind_op (run who ''write'' path (vault_write w cfg path (wr_data body) (wr_cas body)) JNull True)
       (\<lambda>version. ret (JObj [(''version'', version)])))"

definition delete_secret_route :: "world \<Rightarrow> broker_config \<Rightarrow> delete_request \<Rightarrow> caller \<Rightarrow> json bop" where
  "delete_secret_route w cfg body who =
     bind_op (authorize who (rp_path body) ''delete'' False True) (\<lambda>path.
     bind_op (run who ''delete'' path (returning_none (vault_delete w cfg path (dr_versions body))) JNull False)
       (\<lambda>_. ret (JObj [(''deleted'', JBool True)])))"

definition list_versions_route :: "world \<Rightarrow> broker_config \<Rightarrow> path_request \<Rightarrow> caller \<Rightarrow> json bop" where
  "list_versions_route w cfg body who =
     bind_op (authorize who (rp_path body) ''versions'' False False) (\<lambda>path.
     bind_op (run who ''versions'' path (vault_list_versions w cfg path) JNull False)
       (\<lambda>versions. ret (JObj [(''versions'', versions)])))"

definition read_metadata_route :: "world \<Rightarrow> broker_config \<Rightarrow> path_request \<Rightarrow> caller \<Rightarrow> json bop" where
  "read_metadata_route w cfg body who =
     bind_op (authorize who (rp_path body) ''metadata_read'' False False) (\<lambda>path.
     bind_op (run who ''metadata_read'' path (vault_read_metadata w cfg path) JNull False)
       (\<lambda>metadata. ret (JObj [(''metadata'', metadata)])))"

definition write_metadata_route :: "world \<Rightarrow> broker_config \<Rightarrow> metadata_request \<Rightarrow> caller \<Rightarrow> json bop" where
  "write_metadata_route w cfg body who =
     bind_op (authorize who (rp_path body) ''metadata_write'' True False) (\<lambda>path.
     bind_op (run who ''metadata_write'' path
         (returning_none (vault_set_metadata w cfg path (mr_custom_metadata body))) JNull False)
       (\<lambda>_. ret (JObj [(''updated'', JBool True)])))"

text \<open>\<open>healthz\<close>: no caller, no audit record.\<close>

definition healthz_route :: "world \<Rightarrow> broker_config \<Rightarrow> json bop" where
  "healthz_route w cfg = bind_op (vault_health w cfg) (\<lambda>status.
     ret (JObj [(''ok'', JBool True), (''openbao'', status)]))"

section \<open>The administration routes\<close>

definition administration_contract_route :: "caller \<Rightarrow> json bop" where
  "administration_contract_route who =
     (let families = administration_families (ca_instance who) in
      if families = []
      then deny who ''administration_contract'' None ''administration disabled'' 403
             ''Administration is disabled for this instance.''
      else
        bind_op (audit_record (audit_entry_of who ''administration_contract'' None ''ok'' (Some []) JNull))
          (\<lambda>_. ret (contract_document families)))"

text \<open>
  The \<open>try\<close> around the two validations takes a \<open>ValueError\<close> only: what else they raise leaves the
  handler without an audit record.
\<close>

definition admitted_operation :: "string \<Rightarrow> dict \<Rightarrow> (op_contract \<times> dict) res" where
  "admitted_operation operation arguments =
     res_bind (operation_contract operation) (\<lambda>contract.
     res_bind (validate_arguments operation (JObj arguments)) (\<lambda>checked. Inr (contract, checked)))"

definition administration_request_route ::
  "world \<Rightarrow> broker_config \<Rightarrow> administration_body \<Rightarrow> caller \<Rightarrow> json bop" where
  "administration_request_route w cfg body who =
     (if ab_contract_digest body \<noteq> CONTRACT_DIGEST
      then deny who ''administration_request'' None ''contract digest mismatch'' 409
             ''The administration contract is stale.''
      else case admitted_operation (ab_operation body) (ab_arguments body) of
          Inl (ValueError m) \<Rightarrow>
            deny who ''administration_request'' None ''invalid administration operation'' 422
              ''Invalid administration request.''
        | Inl e \<Rightarrow> throw e
        | Inr (contract, arguments) \<Rightarrow>
            if \<not> permits_administration (ca_instance who) (oc_family contract)
            then deny who (''administration.'' @ ab_operation body) None ''administration family denied'' 403
                   ''The administration family is disabled.''
            else
              bind_op (run who (''administration.'' @ ab_operation body) []
                  (bind_op (execute_administration w cfg (ab_operation body) arguments) (\<lambda>d. ret (JObj d)))
                  JNull False)
                (\<lambda>result. ret (JObj [(''data'', result)])))"

section \<open>Malformed requests\<close>

text \<open>The handler of \<open>RequestValidationError\<close>: the response is generic, whatever was sent.\<close>

definition malformed_request :: "string \<Rightarrow> dict \<Rightarrow> (nat \<times> json) bop" where
  "malformed_request rid scope =
     bind_op (lift_res (case identity_from_scope scope of
         Inl (IdentityError m) \<Rightarrow> Inr JNull | r \<Rightarrow> r)) (\<lambda>name.
     bind_op (audit_record \<lparr>ae_instance = name, ae_operation = ''malformed'', ae_path = None,
         ae_outcome = ''denied'', ae_reason = Some ''request failed validation'', ae_request_id = rid,
         ae_version = JNull\<rparr>)
       (\<lambda>_. ret (422, JObj [(''detail'', JStr ''Invalid request.'')])))"

section \<open>One request\<close>

datatype route_request =
    ReadSecret read_request
  | WriteSecret write_request
  | DeleteSecret delete_request
  | ListVersions path_request
  | ReadMetadata path_request
  | WriteMetadata metadata_request
  | AdministrationContract
  | AdministrationRequest administration_body

fun route :: "world \<Rightarrow> broker_config \<Rightarrow> route_request \<Rightarrow> caller \<Rightarrow> json bop" where
  "route w cfg (ReadSecret body) who = read_secret_route w cfg body who"
| "route w cfg (WriteSecret body) who = write_secret_route w cfg body who"
| "route w cfg (DeleteSecret body) who = delete_secret_route w cfg body who"
| "route w cfg (ListVersions body) who = list_versions_route w cfg body who"
| "route w cfg (ReadMetadata body) who = read_metadata_route w cfg body who"
| "route w cfg (WriteMetadata body) who = write_metadata_route w cfg body who"
| "route w cfg AdministrationContract who = administration_contract_route who"
| "route w cfg (AdministrationRequest body) who = administration_request_route w cfg body who"

text \<open>\<open>who: Caller = Depends(caller)\<close>: the caller first, then the handler.\<close>

definition endpoint :: "world \<Rightarrow> broker_config \<Rightarrow> string \<Rightarrow> dict \<Rightarrow> route_request \<Rightarrow> json bop" where
  "endpoint w cfg rid scope request = bind_op (caller_of cfg rid scope) (route w cfg request)"

end
