(* ===== verification/App_Secrets.thy ===== *)
theory App_Secrets
  imports Broker_App
begin

text \<open>
  What the handlers of \<^verbatim>\<open>broker/app.py\<close> promise. The interface between \<open>run\<close> and the vault
  client is the locale \<open>vault_action\<close>: an action keeps the audit log, leaks no response, raises only
  errors the handlers of \<open>run\<close> expect, gives the lock back, and contacts OpenBao for stated calls only.
  It is interpreted on every operation a handler runs, and the secret routes follow from it once, in the
  locale \<open>secret_route\<close>.
\<close>

section \<open>Calls a secret route may make\<close>

fun kv_path :: "kv_call \<Rightarrow> string" where
  "kv_path (KvReadSecretVersion path v m) = path"
| "kv_path (KvCreateOrUpdateSecret path d c m) = path"
| "kv_path (KvDeleteSecretVersions path vs m) = path"
| "kv_path (KvDeleteMetadataAndAllVersions path m) = path"
| "kv_path (KvReadSecretMetadata path m) = path"
| "kv_path (KvUpdateMetadata path d m) = path"

fun kv_mount_point :: "kv_call \<Rightarrow> string" where
  "kv_mount_point (KvReadSecretVersion path v m) = m"
| "kv_mount_point (KvCreateOrUpdateSecret path d c m) = m"
| "kv_mount_point (KvDeleteSecretVersions path vs m) = m"
| "kv_mount_point (KvDeleteMetadataAndAllVersions path m) = m"
| "kv_mount_point (KvReadSecretMetadata path m) = m"
| "kv_mount_point (KvUpdateMetadata path d m) = m"

fun kv_writes :: "kv_call \<Rightarrow> bool" where
  "kv_writes (KvCreateOrUpdateSecret path d c m) = True"
| "kv_writes (KvUpdateMetadata path d m) = True"
| "kv_writes _ = False"

fun kv_deletes :: "kv_call \<Rightarrow> bool" where
  "kv_deletes (KvDeleteSecretVersions path vs m) = True"
| "kv_deletes (KvDeleteMetadataAndAllVersions path m) = True"
| "kv_deletes _ = False"

text \<open>A call on one path of the configured mount, of the kind the route is for.\<close>

definition kv_on :: "broker_config \<Rightarrow> string \<Rightarrow> bool \<Rightarrow> bool \<Rightarrow> call \<Rightarrow> bool" where
  "kv_on cfg path write delete c \<longleftrightarrow> (\<exists>client kv. c = KvCall client kv \<and> kv_path kv = path \<and>
     kv_mount_point kv = kv_mount cfg \<and> (kv_writes kv \<longrightarrow> write) \<and> (kv_deletes kv \<longrightarrow> delete))"

section \<open>The interface of \<open>run\<close>\<close>

locale vault_action =
  fixes action :: "json bop" and reaches :: "call \<Rightarrow> bool"
  assumes keeps_audit: "op_rel audit_same action"
    and keeps_open: "op_rel open_same action"
    and reaches_only: "op_rel (calls_within (login_or reaches)) action"
    and raises: "raises_only closed_exn action"
    and gives_back: "lock_free action"

text \<open>The texts a caller may see: those of the vault client, and one for everything else.\<close>

definition fixed_detail :: "string \<Rightarrow> bool" where
  "fixed_detail d \<longleftrightarrow> d = ''Internal error.'' \<or> (\<exists>k. fixed_text k d)"

text \<open>One audit record that says how the operation ended.\<close>

definition answered :: "caller \<Rightarrow> string \<Rightarrow> string \<Rightarrow> json res \<Rightarrow> audit_entry \<Rightarrow> bool" where
  "answered who operation path r e \<longleftrightarrow>
     ae_instance e = JStr (ip_name (ca_instance who)) \<and> ae_operation e = operation \<and>
     ae_path e = Some path \<and> ae_request_id e = ca_request_id who \<and>
     (case r of
        Inr x \<Rightarrow> ae_outcome e = ''ok''
      | Inl (HTTPException status detail headers) \<Rightarrow> fixed_detail detail \<and>
          (if headers = [] then ae_outcome e = ''error''
           else ae_outcome e = ''unknown'' \<and> status = 503 \<and> headers = [(''X-OpenBao-Outcome'', ''unknown'')])
      | Inl e' \<Rightarrow> False)"

definition log_record :: "audit_entry \<Rightarrow> broker_state \<Rightarrow> broker_state" where
  "log_record e s = s\<lparr>bs_audit := bs_audit s @ [e]\<rparr>"

lemma log_record_simps [simp]:
  "bs_client (log_record e s) = bs_client s" "bs_locked (log_record e s) = bs_locked s"
  "bs_calls (log_record e s) = bs_calls s" "bs_open (log_record e s) = bs_open s"
  "bs_audit (log_record e s) = bs_audit s @ [e]"
  by (simp_all add: log_record_def)

lemma log_record_inject [simp]: "log_record e s = log_record e' s \<longleftrightarrow> e = e'"
proof
  assume "log_record e s = log_record e' s"
  then have "bs_audit (log_record e s) = bs_audit (log_record e' s)" by simp
  then show "e = e'" by simp
qed simp

lemma audit_record_run [simp]: "audit_record e s = (Inr (), log_record e s)"
  by (simp add: audit_record_def log_record_def)

lemma audit_entry_of_sel [simp]:
  "ae_instance (audit_entry_of who operation path outcome reason version) = JStr (ip_name (ca_instance who))"
  "ae_operation (audit_entry_of who operation path outcome reason version) = operation"
  "ae_path (audit_entry_of who operation path outcome reason version) = path"
  "ae_outcome (audit_entry_of who operation path outcome reason version) = outcome"
  "ae_reason (audit_entry_of who operation path outcome reason version) = reason"
  "ae_request_id (audit_entry_of who operation path outcome reason version) = ca_request_id who"
  "ae_version (audit_entry_of who operation path outcome reason version) = version"
  by (simp_all add: audit_entry_of_def)

text \<open>What the handlers of \<open>run\<close> do with an error: one record, one \<open>HTTPException\<close>.\<close>

fun error_reply :: "exn \<Rightarrow> exn" where
  "error_reply (VaultExn k m) = HTTPException (status_code k) m
     (if k = VaultMutationUnknown then [(''X-OpenBao-Outcome'', ''unknown'')] else [])"
| "error_reply _ = HTTPException 500 ''Internal error.'' []"

fun error_entry :: "caller \<Rightarrow> string \<Rightarrow> string \<Rightarrow> json \<Rightarrow> exn \<Rightarrow> audit_entry" where
  "error_entry who operation path version (VaultExn k m) =
     (if k = VaultMutationUnknown
      then audit_entry_of who operation (Some path) ''unknown'' (Some ''mutation outcome unknown'') version
      else audit_entry_of who operation (Some path) ''error'' (Some m) version)"
| "error_entry who operation path version _ =
     audit_entry_of who operation (Some path) ''error'' (Some ''internal error'') version"

lemma run_error_run:
  "run_error who operation path version e s =
     (Inl (error_reply e), log_record (error_entry who operation path version e) s)"
  by (cases e) (simp_all add: run_error_def bind_op_run split: vault_kind.split)

lemma error_answered:
  "closed_exn e \<Longrightarrow> answered who operation path (Inl (error_reply e)) (error_entry who operation path version e)"
  by (cases e) (auto simp: answered_def fixed_detail_def)

lemma answered_outcome: "answered who operation path r e \<Longrightarrow> (\<exists>x. r = Inr x) \<longleftrightarrow> ae_outcome e = ''ok''"
  by (cases r) (auto simp: answered_def split: exn.splits if_split_asm)

lemma error_reply_not_deadlock [simp]: "error_reply e \<noteq> Deadlock"
  by (cases e) simp_all

text \<open>\<open>run\<close> in terms of how its action ended.\<close>

lemma run_run:
  "run who operation path action version from_result s = (case action s of
       (Inr x, s1) \<Rightarrow> (Inr x, log_record (audit_entry_of who operation (Some path) ''ok''
          (Some []) (if from_result \<and> is_int x then x else version)) s1)
     | (Inl e, s1) \<Rightarrow> if e = Deadlock then (Inl Deadlock, s1)
         else (Inl (error_reply e), log_record (error_entry who operation path version e) s1))"
  by (simp add: run_def bind_op_run catch_op_run run_error_run Let_def split: prod.split sum.split)

context vault_action
begin

text \<open>Every run that returns writes exactly one record, after the action's calls and in their favour.\<close>

lemma run_outcome:
  assumes run: "run who operation path action version from_result s = (r, s')"
  shows "(r = Inl Deadlock \<and> bs_audit s' = bs_audit s) \<or>
    (\<exists>e. bs_audit s' = bs_audit s @ [e] \<and> answered who operation path r e)"
proof -
  obtain r1 s1 where act: "action s = (r1, s1)" by (cases "action s")
  with keeps_audit have same: "bs_audit s1 = bs_audit s" by (auto dest: op_relD simp: audit_same_def)
  show ?thesis
  proof (cases r1)
    case (Inr x)
    with act run same show ?thesis by (auto simp: run_run answered_def)
  next
    case (Inl e)
    with act raises have "closed_exn e" by (auto dest: raises_onlyD)
    with act run same Inl show ?thesis
      by (auto simp: run_run intro: error_answered split: if_split_asm)
  qed
qed

lemma run_rel:
  assumes step: "\<And>s e. R s (log_record e s)"
    and trans: "\<And>s t u. R s t \<Longrightarrow> R t u \<Longrightarrow> R s u" and act: "op_rel R action"
  shows "op_rel R (run who operation path action version from_result)"
proof (rule op_relI)
  fix s r s' assume run: "run who operation path action version from_result s = (r, s')"
  obtain r1 s1 where s1: "action s = (r1, s1)" by (cases "action s")
  with act have first: "R s s1" by (blast dest: op_relD)
  from run s1 have "s' = s1 \<or> (\<exists>e. s' = log_record e s1)"
    by (auto simp: run_run split: sum.splits if_split_asm)
  with first step trans show "R s s'" by metis
qed

lemma run_reaches: "op_rel (calls_within (login_or reaches)) (run who operation path action version from_result)"
  by (rule run_rel [OF calls_within_same calls_within_trans reaches_only]) auto

lemma run_grows: "op_rel logs_grow (run who operation path action version from_result)"
  by (rule run_rel [OF _ growing.R_trans unaudited_growing [OF keeps_audit]]) (auto simp: logs_grow_def)

lemma run_unleaked: "op_rel open_same (run who operation path action version from_result)"
  by (rule run_rel [OF _ unleaked.R_trans keeps_open]) (auto simp: open_same_def open_wf_def)

lemma run_error_lock: "lock_free (run_error who operation path version e)"
  by (rule lock_freeI) (auto simp: run_error_run)

lemma run_lock: "lock_free (run who operation path action version from_result)"
  unfolding run_def Let_def by (intro lock_rules gives_back run_error_lock)

end

section \<open>The actions of the handlers\<close>

lemma returning_none_rules:
  "op_rel audit_same m \<Longrightarrow> op_rel audit_same (returning_none m)"
  "op_rel open_same m \<Longrightarrow> op_rel open_same (returning_none m)"
  "op_rel (calls_within (login_or P)) m \<Longrightarrow> op_rel (calls_within (login_or P)) (returning_none m)"
  "raises_only closed_exn m \<Longrightarrow> raises_only closed_exn (returning_none m)"
  "lock_free m \<Longrightarrow> lock_free (returning_none m)"
  unfolding returning_none_def
  by (intro unaudited.op_rules unleaked.op_rules confined.op_rules raises_rules lock_rules; assumption)+

interpretation vread: vault_action "vault_read w cfg path version" "kv_on cfg path False False"
  for w cfg path version
  by unfold_locales (auto intro!: client_ops raises_rules lock_rules simp: kv_on_def)

interpretation vwrite: vault_action "vault_write w cfg path data cas" "kv_on cfg path True False"
  for w cfg path data cas
  by unfold_locales (auto intro!: client_ops raises_rules lock_rules simp: kv_on_def)

interpretation vdelete: vault_action "returning_none (vault_delete w cfg path versions)"
    "kv_on cfg path False True"
  for w cfg path versions
  by unfold_locales (auto intro!: returning_none_rules client_ops raises_rules lock_rules simp: kv_on_def)

interpretation vversions: vault_action "vault_list_versions w cfg path" "kv_on cfg path False False"
  for w cfg path
  by unfold_locales (auto intro!: client_ops raises_rules lock_rules simp: kv_on_def)

interpretation vmeta: vault_action "vault_read_metadata w cfg path" "kv_on cfg path False False"
  for w cfg path
  by unfold_locales (auto intro!: client_ops raises_rules lock_rules simp: kv_on_def)

interpretation vsetmeta: vault_action "returning_none (vault_set_metadata w cfg path custom)"
    "kv_on cfg path True False"
  for w cfg path custom
  by unfold_locales (auto intro!: returning_none_rules client_ops raises_rules lock_rules simp: kv_on_def)

section \<open>Authorization\<close>

text \<open>What the policy allows on a path: the decision of \<open>authorize\<close>.\<close>

definition permitted :: "instance_policy \<Rightarrow> string \<Rightarrow> bool \<Rightarrow> bool \<Rightarrow> bool" where
  "permitted p path writes deletes \<longleftrightarrow> canonical_path path \<and> permits_path p path \<and>
     (writes \<longrightarrow> may_write p) \<and> (deletes \<longrightarrow> may_delete p)"

definition denied_entry :: "caller \<Rightarrow> string \<Rightarrow> audit_entry \<Rightarrow> bool" where
  "denied_entry who operation e \<longleftrightarrow> ae_instance e = JStr (ip_name (ca_instance who)) \<and>
     ae_operation e = operation \<and> ae_outcome e = ''denied'' \<and> ae_request_id e = ca_request_id who"

text \<open>A request that ended as a refusal: a status, and one record of it; nothing else has changed.\<close>

definition refused :: "(audit_entry \<Rightarrow> bool) \<Rightarrow> broker_state \<Rightarrow> 'a res \<Rightarrow> broker_state \<Rightarrow> bool" where
  "refused Q s r s' \<longleftrightarrow> (\<exists>status detail e. r = Inl (HTTPException status detail []) \<and>
     status \<in> {400, 401, 403, 409, 413, 415, 422} \<and> s' = log_record e s \<and>
     ae_outcome e = ''denied'' \<and> Q e)"

lemma deny_run:
  "deny who operation path reason status detail s = (Inl (HTTPException status detail []),
     log_record (audit_entry_of who operation path ''denied'' (Some reason) JNull) s)"
  by (simp add: deny_def bind_op_run)

lemma deny_refused:
  "deny who operation path reason status detail s = (r, s') \<Longrightarrow> status \<in> {400, 401, 403, 409, 413, 415, 422} \<Longrightarrow>
   refused (denied_entry who operation) s r s'"
  by (fastforce simp: deny_run refused_def denied_entry_def)

lemma authorize_permitted:
  "permitted (ca_instance who) path writes deletes \<Longrightarrow> authorize who path operation writes deletes s = (Inr path, s)"
  by (auto simp: authorize_def permitted_def normalize_path_complete)

lemma authorize_refused:
  assumes no: "\<not> permitted (ca_instance who) path writes deletes"
    and run: "authorize who path operation writes deletes s = (r, s')"
  shows "refused (denied_entry who operation) s r s'"
proof (cases "normalize_path (JStr path)")
  case (Inl e)
  then obtain m where "e = ValueError m" using normalize_path_Inl by blast
  with Inl run show ?thesis by (auto simp: authorize_def intro: deny_refused)
next
  case (Inr p)
  then have p: "p = path" "canonical_path path" by (simp_all add: normalize_path_canonical)
  with Inr run no show ?thesis
    by (auto simp: authorize_def permitted_def intro: deny_refused split: if_split_asm)
qed

lemma authorize_Inr:
  "authorize who path operation writes deletes s = (Inr q, s') \<Longrightarrow>
   q = path \<and> s' = s \<and> permitted (ca_instance who) path writes deletes"
  using authorize_refused [of who path writes deletes operation s "Inr q" s']
    authorize_permitted [of who path writes deletes operation s]
  by (cases "permitted (ca_instance who) path writes deletes") (auto simp: refused_def)

section \<open>Secret routes\<close>

text \<open>The shape the six handlers share.\<close>

definition authorized_run ::
  "caller \<Rightarrow> string \<Rightarrow> string \<Rightarrow> bool \<Rightarrow> bool \<Rightarrow> (string \<Rightarrow> json bop) \<Rightarrow> json \<Rightarrow> bool \<Rightarrow> (json \<Rightarrow> json) \<Rightarrow> json bop" where
  "authorized_run who path operation writes deletes action version from_result wrap =
     bind_op (authorize who path operation writes deletes) (\<lambda>q.
     bind_op (run who operation q (action q) version from_result) (\<lambda>x. ret (wrap x)))"

text \<open>How a secret route may end.\<close>

definition secret_outcome ::
  "caller \<Rightarrow> string \<Rightarrow> string \<Rightarrow> bool \<Rightarrow> bool \<Rightarrow> broker_state \<Rightarrow> json res \<Rightarrow> broker_state \<Rightarrow> bool" where
  "secret_outcome who path operation writes deletes s r s' \<longleftrightarrow>
     (if permitted (ca_instance who) path writes deletes
      then (r = Inl Deadlock \<and> bs_audit s' = bs_audit s) \<or>
        (\<exists>e. bs_audit s' = bs_audit s @ [e] \<and> answered who operation path r e)
      else refused (denied_entry who operation) s r s')"

locale secret_route =
  fixes action :: "string \<Rightarrow> json bop" and cfg :: broker_config and writes :: bool and deletes :: bool
  assumes act: "vault_action (action path) (kv_on cfg path writes deletes)"
begin

lemma route_outcome:
  assumes run: "authorized_run who path operation writes deletes action version from_result wrap s = (r, s')"
  shows "secret_outcome who path operation writes deletes s r s'"
proof (cases "permitted (ca_instance who) path writes deletes")
  case True
  obtain r1 s1 where inner: "run who operation path (action path) version from_result s = (r1, s1)"
    by (cases "run who operation path (action path) version from_result s")
  with True run have s1: "s' = s1" "r = (case r1 of Inl e \<Rightarrow> Inl e | Inr x \<Rightarrow> Inr (wrap x))"
    by (auto simp: authorized_run_def bind_op_run authorize_permitted split: sum.splits)
  from vault_action.run_outcome [OF act inner] True s1 show ?thesis
    by (auto simp: secret_outcome_def answered_def split: sum.splits exn.splits)
next
  case False
  obtain r1 s1 where first: "authorize who path operation writes deletes s = (r1, s1)"
    by (cases "authorize who path operation writes deletes s")
  from authorize_refused [OF False first] have "refused (denied_entry who operation) s r1 s1" .
  with run first False show ?thesis
    by (auto simp: secret_outcome_def refused_def authorized_run_def bind_op_run)
qed

lemma route_rel:
  assumes "op_rel R (run who operation path (action path) version from_result)"
    and "\<And>s e. R s (log_record e s)"
  shows "op_rel R (authorized_run who path operation writes deletes action version from_result wrap)"
proof (rule op_relI)
  fix s r s'
  assume run: "authorized_run who path operation writes deletes action version from_result wrap s = (r, s')"
  show "R s s'"
  proof (cases "permitted (ca_instance who) path writes deletes")
    case True
    obtain r1 s1 where inner: "run who operation path (action path) version from_result s = (r1, s1)"
      by (cases "run who operation path (action path) version from_result s")
    with True run have "s' = s1"
      by (auto simp: authorized_run_def bind_op_run authorize_permitted split: sum.splits)
    with inner assms(1) show ?thesis by (auto dest: op_relD)
  next
    case False
    with route_outcome [OF run] assms(2) show ?thesis by (auto simp: secret_outcome_def refused_def)
  qed
qed

lemma route_reaches:
  "op_rel (calls_within (login_or (\<lambda>c. permitted (ca_instance who) path writes deletes \<and>
      kv_on cfg path writes deletes c)))
     (authorized_run who path operation writes deletes action version from_result wrap)"
proof (cases "permitted (ca_instance who) path writes deletes")
  case True
  then show ?thesis
    by (intro route_rel) (use vault_action.run_reaches [OF act] in \<open>simp_all add: calls_within_same\<close>)
next
  case False
  show ?thesis
  proof (rule op_relI)
    fix s r s'
    assume "authorized_run who path operation writes deletes action version from_result wrap s = (r, s')"
    from route_outcome [OF this] False
    show "calls_within (login_or (\<lambda>c. permitted (ca_instance who) path writes deletes \<and>
        kv_on cfg path writes deletes c)) s s'"
      by (auto simp: secret_outcome_def refused_def intro: calls_within_same)
  qed
qed

lemma route_grows:
  "op_rel logs_grow (authorized_run who path operation writes deletes action version from_result wrap)"
  by (rule route_rel [OF vault_action.run_grows [OF act]]) (simp add: logs_grow_def)

lemma route_unleaked:
  "op_rel open_same (authorized_run who path operation writes deletes action version from_result wrap)"
  by (rule route_rel [OF vault_action.run_unleaked [OF act]]) (simp add: open_same_def open_wf_def)

lemma route_lock:
  "lock_free (authorized_run who path operation writes deletes action version from_result wrap)"
proof (rule lock_freeI)
  fix s r s'
  assume unlocked: "\<not> bs_locked s" and ret: "r \<noteq> Inl Deadlock"
    and run: "authorized_run who path operation writes deletes action version from_result wrap s = (r, s')"
  show "\<not> bs_locked s'"
  proof (cases "permitted (ca_instance who) path writes deletes")
    case True
    obtain r1 s1 where inner: "run who operation path (action path) version from_result s = (r1, s1)"
      by (cases "run who operation path (action path) version from_result s")
    with True run ret have "s' = s1" "r1 \<noteq> Inl Deadlock"
      by (auto simp: authorized_run_def bind_op_run authorize_permitted split: sum.splits)
    with lock_freeD [OF vault_action.run_lock [OF act] unlocked inner] show ?thesis by simp
  next
    case False
    with route_outcome [OF run] unlocked show ?thesis by (auto simp: secret_outcome_def refused_def)
  qed
qed

end

interpretation rread: secret_route "\<lambda>path. vault_read w cfg path version" cfg False False
  for w cfg version by unfold_locales
interpretation rwrite: secret_route "\<lambda>path. vault_write w cfg path data cas" cfg True False
  for w cfg data cas by unfold_locales
interpretation rdelete: secret_route "\<lambda>path. returning_none (vault_delete w cfg path versions)" cfg False True
  for w cfg versions by unfold_locales
interpretation rversions: secret_route "\<lambda>path. vault_list_versions w cfg path" cfg False False
  for w cfg by unfold_locales
interpretation rmeta: secret_route "\<lambda>path. vault_read_metadata w cfg path" cfg False False
  for w cfg by unfold_locales
interpretation rsetmeta: secret_route "\<lambda>path. returning_none (vault_set_metadata w cfg path custom)" cfg True False
  for w cfg custom by unfold_locales

section \<open>The six routes\<close>

text \<open>What a secret request asks for: a path, and leave to write or to delete there.\<close>

fun secret_request :: "route_request \<Rightarrow> (string \<times> string \<times> bool \<times> bool) option" where
  "secret_request (ReadSecret body) = Some (rp_path body, ''read'', False, False)"
| "secret_request (WriteSecret body) = Some (rp_path body, ''write'', True, False)"
| "secret_request (DeleteSecret body) = Some (rp_path body, ''delete'', False, True)"
| "secret_request (ListVersions body) = Some (rp_path body, ''versions'', False, False)"
| "secret_request (ReadMetadata body) = Some (rp_path body, ''metadata_read'', False, False)"
| "secret_request (WriteMetadata body) = Some (rp_path body, ''metadata_write'', True, False)"
| "secret_request _ = None"

lemma secret_routes:
  "read_secret_route w cfg rb who = authorized_run who (rp_path rb) ''read'' False False
     (\<lambda>path. vault_read w cfg path (rr_version rb)) (opt_int (rr_version rb)) False (\<lambda>x. JObj [(''data'', x)])"
  "write_secret_route w cfg wb who = authorized_run who (rp_path wb) ''write'' True False
     (\<lambda>path. vault_write w cfg path (wr_data wb) (wr_cas wb)) JNull True (\<lambda>x. JObj [(''version'', x)])"
  "delete_secret_route w cfg db who = authorized_run who (rp_path db) ''delete'' False True
     (\<lambda>path. returning_none (vault_delete w cfg path (dr_versions db))) JNull False (\<lambda>x. JObj [(''deleted'', JBool True)])"
  "list_versions_route w cfg pb who = authorized_run who (rp_path pb) ''versions'' False False
     (\<lambda>path. vault_list_versions w cfg path) JNull False (\<lambda>x. JObj [(''versions'', x)])"
  "read_metadata_route w cfg pb who = authorized_run who (rp_path pb) ''metadata_read'' False False
     (\<lambda>path. vault_read_metadata w cfg path) JNull False (\<lambda>x. JObj [(''metadata'', x)])"
  "write_metadata_route w cfg mb who = authorized_run who (rp_path mb) ''metadata_write'' True False
     (\<lambda>path. returning_none (vault_set_metadata w cfg path (mr_custom_metadata mb))) JNull False
     (\<lambda>x. JObj [(''updated'', JBool True)])"
  by (simp_all add: read_secret_route_def write_secret_route_def delete_secret_route_def
      list_versions_route_def read_metadata_route_def write_metadata_route_def authorized_run_def)

lemmas secret_outcomes = rread.route_outcome rwrite.route_outcome rdelete.route_outcome
  rversions.route_outcome rmeta.route_outcome rsetmeta.route_outcome
lemmas secret_reaches = rread.route_reaches rwrite.route_reaches rdelete.route_reaches
  rversions.route_reaches rmeta.route_reaches rsetmeta.route_reaches
lemmas secret_grows = rread.route_grows rwrite.route_grows rdelete.route_grows
  rversions.route_grows rmeta.route_grows rsetmeta.route_grows
lemmas secret_unleaked = rread.route_unleaked rwrite.route_unleaked rdelete.route_unleaked
  rversions.route_unleaked rmeta.route_unleaked rsetmeta.route_unleaked
lemmas secret_lock = rread.route_lock rwrite.route_lock rdelete.route_lock
  rversions.route_lock rmeta.route_lock rsetmeta.route_lock

lemma secret_route_outcome:
  assumes "secret_request request = Some (path, operation, writes, deletes)"
    and "route w cfg request who s = (r, s')"
  shows "secret_outcome who path operation writes deletes s r s'"
  using assms by (cases request) (auto simp: secret_routes intro: secret_outcomes)

lemma secret_route_reaches:
  assumes "secret_request request = Some (path, operation, writes, deletes)"
  shows "op_rel (calls_within (login_or (\<lambda>c. permitted (ca_instance who) path writes deletes \<and>
      kv_on cfg path writes deletes c))) (route w cfg request who)"
proof (cases request)
  case (ReadSecret b)
  with assms rread.route_reaches [of who path cfg "''read''"] show ?thesis by (simp add: secret_routes)
next
  case (WriteSecret b)
  with assms rwrite.route_reaches [of who path cfg "''write''"] show ?thesis by (simp add: secret_routes)
next
  case (DeleteSecret b)
  with assms rdelete.route_reaches [of who path cfg "''delete''"] show ?thesis by (simp add: secret_routes)
next
  case (ListVersions b)
  with assms rversions.route_reaches [of who path cfg "''versions''"] show ?thesis by (simp add: secret_routes)
next
  case (ReadMetadata b)
  with assms rmeta.route_reaches [of who path cfg "''metadata_read''"] show ?thesis by (simp add: secret_routes)
next
  case (WriteMetadata b)
  with assms rsetmeta.route_reaches [of who path cfg "''metadata_write''"] show ?thesis by (simp add: secret_routes)
qed (use assms in simp_all)

lemma secret_route_lock: "secret_request request \<noteq> None \<Longrightarrow> lock_free (route w cfg request who)"
  by (cases request) (simp_all add: secret_routes secret_lock)

lemma secret_route_unleaked: "secret_request request \<noteq> None \<Longrightarrow> op_rel open_same (route w cfg request who)"
  by (cases request) (simp_all add: secret_routes secret_unleaked)

end
