(* ===== verification/App_Requests.thy ===== *)
theory App_Requests
  imports App_Secrets
begin

text \<open>
  Whole requests: the caller is identified by its certificate, then the handler runs. The scope of a
  request is the one the TLS layer publishes (\<open>tls_scope\<close>).
\<close>

section \<open>The caller\<close>

text \<open>
  The scope of a connection with a certificate whose common names are strings, which is what the
  \<open>ssl\<close> module returns.
\<close>

definition string_names :: "json \<Rightarrow> bool" where
  "string_names cert \<longleftrightarrow> (\<forall>v. has_common_name cert v \<longrightarrow> is_str v)"

definition tls_scope :: "json \<Rightarrow> dict \<Rightarrow> bool" where
  "tls_scope cert scope \<longleftrightarrow> string_names cert \<and> (\<exists>so p value p'. ssl_peercert so = cert \<and>
     tp_ssl_object p = Some so \<and> set_scope value p = Inr p' \<and> tp_scope p' = Some scope)"

lemma tls_identity:
  assumes "tls_scope cert scope"
  shows "identity_from_scope scope = common_name_from_peer_cert cert"
  using assms identity_of_set_scope unfolding tls_scope_def by fastforce

lemma tls_identity_cases:
  assumes "tls_scope cert scope"
  obtains (anonymous) m where "identity_from_scope scope = Inl (IdentityError m)"
  | (named) name where "identity_from_scope scope = Inr (JStr name)" "has_common_name cert (JStr name)"
proof (cases "common_name_from_peer_cert cert")
  case (Inl e)
  with that(1) common_name_total [OF Inl] tls_identity [OF assms] show thesis by auto
next
  case (Inr v)
  then have "has_common_name cert v" using common_name_sound by blast
  moreover from this assms have "is_str v" by (simp add: tls_scope_def string_names_def)
  ultimately show thesis using that(2) Inr tls_identity [OF assms] by (auto simp: is_str_iff)
qed

definition identify_refusal :: "string \<Rightarrow> audit_entry \<Rightarrow> bool" where
  "identify_refusal rid e \<longleftrightarrow> ae_operation e = ''identify'' \<and> ae_request_id e = rid"

text \<open>The caller of a request, if its certificate names a configured instance.\<close>

definition known_caller :: "broker_config \<Rightarrow> dict \<Rightarrow> instance_policy \<Rightarrow> bool" where
  "known_caller cfg scope p \<longleftrightarrow> (\<exists>name. identity_from_scope scope = Inr (JStr name) \<and>
     config_instance cfg name = Some p)"

lemma caller_known:
  "known_caller cfg scope p \<Longrightarrow> caller_of cfg rid scope s = (Inr \<lparr>ca_instance = p, ca_request_id = rid\<rparr>, s)"
  by (auto simp: known_caller_def caller_of_def instance_named_def bind_op_run)

lemma caller_unknown:
  assumes tls: "tls_scope cert scope" and no: "\<nexists>p. known_caller cfg scope p"
    and run: "caller_of cfg rid scope s = (r, s')"
  shows "refused (identify_refusal rid) s r s'"
  using tls
proof (cases rule: tls_identity_cases)
  case (anonymous m)
  with run show ?thesis
    by (auto simp: caller_of_def bind_op_run refused_def identify_refusal_def identify_entry_def)
next
  case (named name)
  with no have "config_instance cfg name = None" by (auto simp: known_caller_def)
  with named run show ?thesis
    by (auto simp: caller_of_def instance_named_def bind_op_run refused_def identify_refusal_def
        identify_entry_def)
qed

lemma known_caller_unique: "known_caller cfg scope p \<Longrightarrow> known_caller cfg scope q \<Longrightarrow> p = q"
  by (auto simp: known_caller_def)

section \<open>Secret requests\<close>

text \<open>
  Every call that leaves the process for a secret request, other than the broker's own login, is a call
  on the requested path of the configured mount, and the caller's policy allows it.
\<close>

lemma endpoint_known:
  "known_caller cfg scope p \<Longrightarrow> endpoint w cfg rid scope request s =
     route w cfg request \<lparr>ca_instance = p, ca_request_id = rid\<rparr> s"
  by (simp add: endpoint_def bind_op_run caller_known)

lemma endpoint_unknown:
  assumes "tls_scope cert scope" and "\<nexists>p. known_caller cfg scope p"
    and "endpoint w cfg rid scope request s = (r, s')"
  shows "refused (identify_refusal rid) s r s'"
proof -
  obtain r1 s1 where run: "caller_of cfg rid scope s = (r1, s1)"
    by (cases "caller_of cfg rid scope s")
  from caller_unknown [OF assms(1,2) this] run assms(3) show ?thesis
    by (auto simp: endpoint_def bind_op_run refused_def)
qed

lemma refused_calls: "refused Q s r s' \<Longrightarrow> bs_calls s' = bs_calls s"
  by (auto simp: refused_def)

lemma endpoint_confined:
  assumes tls: "tls_scope cert scope"
    and rq: "secret_request request = Some (path, operation, writes, deletes)"
    and run: "endpoint w cfg rid scope request s = (r, s')"
    and c: "c \<in> set (drop (length (bs_calls s)) (bs_calls s'))" and other: "\<not> is_login c"
  shows "\<exists>p. known_caller cfg scope p \<and> permitted p path writes deletes \<and> kv_on cfg path writes deletes c"
proof (cases "\<exists>p. known_caller cfg scope p")
  case True
  then obtain p where p: "known_caller cfg scope p" by blast
  with run have route: "route w cfg request \<lparr>ca_instance = p, ca_request_id = rid\<rparr> s = (r, s')"
    by (simp add: endpoint_known)
  from op_relD [OF secret_route_reaches [OF rq] this] c other
  have "permitted p path writes deletes \<and> kv_on cfg path writes deletes c"
    by (auto simp: calls_within_def)
  with p show ?thesis by blast
next
  case False
  from refused_calls [OF endpoint_unknown [OF tls False run]] c show ?thesis by simp
qed

text \<open>How a secret request may end: refused without a trace outside the audit log, or run.\<close>

lemma endpoint_audited:
  assumes tls: "tls_scope cert scope"
    and rq: "secret_request request = Some (path, operation, writes, deletes)"
    and run: "endpoint w cfg rid scope request s = (r, s')" and ret: "r \<noteq> Inl Deadlock"
  shows "\<exists>e. bs_audit s' = bs_audit s @ [e] \<and> ae_request_id e = rid \<and>
    (ae_outcome e = ''denied'' \<longrightarrow> s' = log_record e s) \<and>
    ((\<exists>x. r = Inr x) \<longleftrightarrow> ae_outcome e = ''ok'') \<and> (\<forall>x. r = Inl x \<longrightarrow> (\<exists>n d h. x = HTTPException n d h))"
proof (cases "\<exists>p. known_caller cfg scope p")
  case False
  from endpoint_unknown [OF tls False run] show ?thesis
    by (auto simp: refused_def identify_refusal_def)
next
  case True
  then obtain p where p: "known_caller cfg scope p" by blast
  let ?who = "\<lparr>ca_instance = p, ca_request_id = rid\<rparr>"
  from p run have "route w cfg request ?who s = (r, s')" by (simp add: endpoint_known)
  from secret_route_outcome [OF rq this]
  have out: "secret_outcome ?who path operation writes deletes s r s'" .
  show ?thesis
  proof (cases "permitted p path writes deletes")
    case True
    with out ret obtain e where e: "bs_audit s' = bs_audit s @ [e]" "answered ?who path' operation' r e \<or>
        answered ?who operation path r e" for path' operation'
      by (auto simp: secret_outcome_def)
    then have "answered ?who operation path r e" by blast
    with e(1) show ?thesis
      by (cases r) (auto simp: answered_def split: exn.splits if_split_asm)
  next
    case False
    with out show ?thesis by (auto simp: secret_outcome_def refused_def denied_entry_def)
  qed
qed

lemma endpoint_lock:
  assumes "tls_scope cert scope" and "secret_request request \<noteq> None"
    and "endpoint w cfg rid scope request s = (r, s')" and "r \<noteq> Inl Deadlock" and "\<not> bs_locked s"
  shows "\<not> bs_locked s'"
proof (cases "\<exists>p. known_caller cfg scope p")
  case True
  then obtain p where "known_caller cfg scope p" by blast
  with assms(3) have "route w cfg request \<lparr>ca_instance = p, ca_request_id = rid\<rparr> s = (r, s')"
    by (simp add: endpoint_known)
  from lock_freeD [OF secret_route_lock [OF assms(2)] assms(5) this assms(4)] show ?thesis .
next
  case False
  from endpoint_unknown [OF assms(1) False assms(3)] assms(5) show ?thesis
    by (auto simp: refused_def)
qed

section \<open>A login that OpenBao refuses\<close>

text \<open>
  \<open>_get\<close> holds the lock while it logs in, and the translation of a refused login takes it again. Once
  that has happened, every request that needs the client waits for ever.
\<close>

definition holds_on :: "broker_state \<Rightarrow> broker_state \<Rightarrow> bool" where
  "holds_on s t \<longleftrightarrow> (bs_locked s \<longrightarrow> bs_locked t)"

interpretation holding: state_preorder holds_on
  by unfold_locales (auto simp: holds_on_def)

lemma login_holds: "op_rel holds_on (login w cfg)"
proof -
  have inv: "op_rel holds_on invalidate"
    by (rule op_relI) (auto simp: invalidate_def with_lock_def holds_on_def split: if_split_asm prod.splits)
  have "op_rel holds_on (translate e)" for e
    by (cases e) (auto simp: translate_def intro!: inv holding.op_rules split: hvac_kind.splits)
  then have tr: "op_rel holds_on (translating m)" if "op_rel holds_on m" for m :: "json bop"
    unfolding translating_def using that by (intro holding.op_rules)
  have "op_rel holds_on (send_login w client r sec)" for client r sec
    by (simp add: op_rel_def holds_on_def send_login_def Let_def)
  moreover have "op_rel holds_on (read_secret w n)" for n
    by (simp add: op_rel_def holds_on_def read_secret_run)
  ultimately show ?thesis
    unfolding login_def Let_def by (intro holding.op_rules tr)
qed

lemma get_deadlock_state:
  assumes free: "\<not> bs_locked s" and none: "bs_client s = None" and refused: "login_refused w cfg s"
  shows "\<exists>s'. get w cfg s = (Inl Deadlock, s') \<and> bs_locked s'"
proof -
  let ?s = "s\<lparr>bs_locked := True\<rparr>"
  obtain r s' where get: "get w cfg s = (r, s')" by (cases "get w cfg s")
  with get_deadlock [OF free] none refused have r: "r = Inl Deadlock" by (metis fst_conv)
  obtain r1 s1 where login: "login w cfg ?s = (r1, s1)" by (cases "login w cfg ?s")
  with op_relD [OF login_holds login] have "bs_locked s1" by (simp add: holds_on_def)
  moreover have "login_refused w cfg ?s" using refused by (simp add: login_refused_def)
  then have "r1 = Inl Deadlock" using login_deadlock [of ?s w cfg] login by simp
  ultimately show ?thesis
    using get r login free none
    by (auto simp: get_def with_lock_def get_body_def bind_op_run catch_op_run get_client_def)
qed

text \<open>The client is not to be had: a login would be refused, or somebody already waits for one.\<close>

definition stuck :: "world \<Rightarrow> broker_config \<Rightarrow> broker_state \<Rightarrow> bool" where
  "stuck w cfg s \<longleftrightarrow> bs_locked s \<or> (bs_client s = None \<and> login_refused w cfg s)"

lemma get_stuck: "stuck w cfg s \<Longrightarrow> \<exists>s'. get w cfg s = (Inl Deadlock, s') \<and> bs_locked s'"
  using get_locked [of s w cfg] get_deadlock_state [of s w cfg] unfolding stuck_def
  by (cases "bs_locked s") auto

lemma kv_request_stuck: "stuck w cfg s \<Longrightarrow> \<exists>s'. kv_request w cfg kv s = (Inl Deadlock, s') \<and> bs_locked s'"
  using get_stuck [of w cfg s] by (auto simp: kv_request_def bind_op_run)

lemma bind_stuck:
  "\<exists>s'. m s = (Inl Deadlock, s') \<and> bs_locked s' \<Longrightarrow>
   \<exists>s'. bind_op m f s = (Inl Deadlock, s') \<and> bs_locked s'"
  by (auto simp: bind_op_run)

lemma secret_operations_stuck:
  assumes "stuck w cfg s"
  shows "\<exists>s'. vault_read w cfg path version s = (Inl Deadlock, s') \<and> bs_locked s'"
    and "\<exists>s'. vault_write w cfg path data cas s = (Inl Deadlock, s') \<and> bs_locked s'"
    and "\<exists>s'. returning_none (vault_delete w cfg path versions) s = (Inl Deadlock, s') \<and> bs_locked s'"
    and "\<exists>s'. vault_read_metadata w cfg path s = (Inl Deadlock, s') \<and> bs_locked s'"
    and "\<exists>s'. vault_list_versions w cfg path s = (Inl Deadlock, s') \<and> bs_locked s'"
    and "\<exists>s'. returning_none (vault_set_metadata w cfg path custom) s = (Inl Deadlock, s') \<and> bs_locked s'"
  unfolding vault_read_def vault_write_def vault_delete_def vault_read_metadata_def
    vault_list_versions_def vault_set_metadata_def returning_none_def
  by (intro bind_stuck kv_request_stuck assms)+

lemma authorized_run_stuck:
  assumes "permitted (ca_instance who) path writes deletes"
    and "\<exists>s'. action path s = (Inl Deadlock, s') \<and> bs_locked s'"
  shows "\<exists>s'. authorized_run who path operation writes deletes action version from_result wrap s =
    (Inl Deadlock, s') \<and> bs_locked s'"
  using assms by (auto simp: authorized_run_def bind_op_run authorize_permitted run_run)

lemma secret_route_stuck:
  assumes "secret_request request = Some (path, operation, writes, deletes)"
    and "permitted (ca_instance who) path writes deletes" and "stuck w cfg s"
  shows "\<exists>s'. route w cfg request who s = (Inl Deadlock, s') \<and> bs_locked s'"
  using assms(1,2) secret_operations_stuck [OF assms(3)]
  by (cases request) (simp_all add: secret_routes authorized_run_stuck)

end
