(* ===== verification/App_Snapshot.thy ===== *)
theory App_Snapshot
  imports App_Requests
begin

text \<open>
  The two snapshot routes of \<^verbatim>\<open>broker/app.py\<close>. The download is a state machine: the generator
  that streams the snapshot, driven by the server, which may pull a chunk, close the generator, or run
  the finalizer, in any order and any number of times; the finalizer always runs in the end. The upload
  is a loop over the chunks of the request, which may break off.
\<close>

section \<open>Authorization\<close>

definition authorize_snapshot :: "caller \<Rightarrow> string \<Rightarrow> string \<Rightarrow> unit bop" where
  "authorize_snapshot who digest operation =
     (if digest \<noteq> CONTRACT_DIGEST
      then deny who operation None ''contract digest mismatch'' 409 ''The administration contract is stale.''
      else if \<not> permits_administration (ca_instance who) ''cluster''
      then deny who operation None ''administration family denied'' 403
             ''The administration family is disabled.''
      else ret ())"

section \<open>Opening a download\<close>

definition DOWNLOAD_OPERATION :: string where
  "DOWNLOAD_OPERATION = ''administration.download_raft_snapshot''"

definition download_error :: "caller \<Rightarrow> exn \<Rightarrow> 'a bop" where
  "download_error who e = (case e of
       VaultExn k m \<Rightarrow>
         bind_op (audit_record (audit_entry_of who DOWNLOAD_OPERATION None ''error'' (Some m) JNull))
           (\<lambda>_. throw (HTTPException (status_code k) m []))
     | _ \<Rightarrow> throw e)"

definition download_headers :: "snapshot_download \<Rightarrow> (string \<times> string) list" where
  "download_headers d = (case declared_size d of None \<Rightarrow> [] | Some n \<Rightarrow> [(''Content-Length'', str_int n)])"

definition download_snapshot_route ::
  "world \<Rightarrow> broker_config \<Rightarrow> string \<Rightarrow> caller \<Rightarrow> ((string \<times> string) list \<times> snapshot_download) bop" where
  "download_snapshot_route w cfg digest who =
     bind_op (authorize_snapshot who digest DOWNLOAD_OPERATION) (\<lambda>_.
     bind_op (catch_op (download_raft_snapshot w cfg) (download_error who)) (\<lambda>d.
     ret (download_headers d, d)))"

section \<open>The stream\<close>

text \<open>
  The generator \<open>stream()\<close>: not started, suspended at a \<open>yield\<close> (with what \<open>chunks()\<close> has counted and
  has left), or finished. \<open>ss_recorded\<close> is \<open>terminal["recorded"]\<close>; \<open>ss_sent\<close> are the chunks handed out.
\<close>

datatype gen_state = GenNew | GenSuspended nat "string list" | GenDone

record stream_state =
  ss_gen :: gen_state
  ss_recorded :: bool
  ss_sent :: "string list"
  ss_broker :: broker_state

definition new_stream :: "broker_state \<Rightarrow> stream_state" where
  "new_stream s = \<lparr>ss_gen = GenNew, ss_recorded = False, ss_sent = [], ss_broker = s\<rparr>"

definition record_stream :: "caller \<Rightarrow> string \<Rightarrow> string option \<Rightarrow> stream_state \<Rightarrow> stream_state" where
  "record_stream who outcome reason st =
     (if ss_recorded st then st
      else st\<lparr>ss_recorded := True,
        ss_broker := log_record (audit_entry_of who DOWNLOAD_OPERATION None outcome reason JNull) (ss_broker st)\<rparr>)"

definition close_stream :: "snapshot_download \<Rightarrow> stream_state \<Rightarrow> stream_state" where
  "close_stream d st = st\<lparr>ss_broker := close_response (sd_id d) (ss_broker st)\<rparr>"

text \<open>
  What the server does to a stream. It runs the finalizer when it has stopped pulling; a pull after that
  would find the response closed, and sends nothing the promises below depend on.
\<close>

datatype stream_event = Pull | CloseGenerator | Finalize

text \<open>The next call of the generator from a suspended state.\<close>

definition resume :: "caller \<Rightarrow> snapshot_download \<Rightarrow> nat \<Rightarrow> string list \<Rightarrow> stream_state \<Rightarrow> stream_state" where
  "resume who d observed chunks st =
     (case pull_chunk (declared_size d) observed chunks (rs_failure (sd_response d)) of
        Yield chunk observed' chunks' \<Rightarrow>
          st\<lparr>ss_gen := GenSuspended observed' chunks', ss_sent := ss_sent st @ [chunk]\<rparr>
      | PullStop \<Rightarrow> record_stream who ''ok'' None (close_stream d (st\<lparr>ss_gen := GenDone\<rparr>))
      | PullRaise (VaultExn k m) \<Rightarrow>
          record_stream who ''error'' (Some m) (close_stream d (st\<lparr>ss_gen := GenDone\<rparr>))
      | PullRaise e \<Rightarrow>
          record_stream who ''error'' (Some ''snapshot stream interrupted'')
            (close_stream d (close_stream d (st\<lparr>ss_gen := GenDone\<rparr>))))"

text \<open>
  A generator that was never started is closed without running; one that is suspended gets a
  \<open>GeneratorExit\<close> at its \<open>yield\<close>, inside \<open>chunks()\<close> first.
\<close>

fun stream_step :: "caller \<Rightarrow> snapshot_download \<Rightarrow> stream_event \<Rightarrow> stream_state \<Rightarrow> stream_state" where
  "stream_step who d Pull st = (case ss_gen st of
       GenNew \<Rightarrow> resume who d 0 (rs_chunks (sd_response d)) st
     | GenSuspended observed chunks \<Rightarrow> resume who d observed chunks st
     | GenDone \<Rightarrow> st)"
| "stream_step who d CloseGenerator st = (case ss_gen st of
       GenSuspended observed chunks \<Rightarrow>
         record_stream who ''error'' (Some ''snapshot stream interrupted'')
           (close_stream d (close_stream d (st\<lparr>ss_gen := GenDone\<rparr>)))
     | _ \<Rightarrow> st\<lparr>ss_gen := GenDone\<rparr>)"
| "stream_step who d Finalize st =
     (if ss_recorded st then st
      else record_stream who ''error'' (Some ''snapshot stream not completed'') (close_stream d st))"

text \<open>The states a stream opened in \<open>s\<close> may reach.\<close>

inductive stream_reaches ::
  "caller \<Rightarrow> snapshot_download \<Rightarrow> broker_state \<Rightarrow> stream_event list \<Rightarrow> stream_state \<Rightarrow> bool"
  for who d s where
  stream_opened: "stream_reaches who d s [] (new_stream s)"
| stream_next: "stream_reaches who d s evs st \<Longrightarrow> stream_reaches who d s (evs @ [ev]) (stream_step who d ev st)"

inductive_cases stream_snocE: "stream_reaches who d s (evs @ [ev]) st"

text \<open>
  \<open>FinalizedStreamingResponse.__call__\<close>: whatever the server does to the stream, the finalizer runs last.
\<close>

definition finalized_stream ::
  "caller \<Rightarrow> snapshot_download \<Rightarrow> stream_event list \<Rightarrow> broker_state \<Rightarrow> stream_state" where
  "finalized_stream who d evs s = stream_step who d Finalize (fold (stream_step who d) evs (new_stream s))"

section \<open>Uploading a snapshot\<close>

definition RESTORE_OPERATION :: string where
  "RESTORE_OPERATION = ''administration.restore_raft_snapshot''"

record restore_request =
  sr_force :: bool
  sr_digest :: string
  sr_content_length :: int
  sr_content_type :: string
  sr_chunks :: "string list"
  sr_failure :: "exn option"

text \<open>The constraint of the \<open>Content-Length\<close> parameter.\<close>

definition valid_restore_request :: "restore_request \<Rightarrow> bool" where
  "valid_restore_request r \<longleftrightarrow> 1 \<le> sr_content_length r \<and> sr_content_length r \<le> int MAX_SNAPSHOT_BYTES"

datatype upload = TooLarge | Interrupted exn | Received int string

fun receive_upload :: "int \<Rightarrow> int \<Rightarrow> string \<Rightarrow> string list \<Rightarrow> exn option \<Rightarrow> upload" where
  "receive_upload content_length observed spooled [] failure =
     (case failure of None \<Rightarrow> Received observed spooled | Some e \<Rightarrow> Interrupted e)"
| "receive_upload content_length observed spooled (chunk # chunks) failure =
     (let observed' = observed + int (length chunk) in
      if content_length < observed' \<or> int MAX_SNAPSHOT_BYTES < observed' then TooLarge
      else receive_upload content_length observed' (spooled @ chunk) chunks failure)"

definition restore_snapshot_route :: "world \<Rightarrow> broker_config \<Rightarrow> restore_request \<Rightarrow> caller \<Rightarrow> json bop" where
  "restore_snapshot_route w cfg rq who =
     bind_op (authorize_snapshot who (sr_digest rq) RESTORE_OPERATION) (\<lambda>_.
     if lower (sr_content_type rq) \<noteq> ''application/octet-stream''
     then deny who RESTORE_OPERATION None ''invalid snapshot media type'' 415
            ''The snapshot media type is invalid.''
     else case receive_upload (sr_content_length rq) 0 [] (sr_chunks rq) (sr_failure rq) of
         TooLarge \<Rightarrow>
           deny who RESTORE_OPERATION None ''snapshot exceeds declared size'' 413
             ''The snapshot upload is too large.''
       | Interrupted e \<Rightarrow>
           bind_op (audit_record (audit_entry_of who RESTORE_OPERATION None ''error''
                      (Some ''snapshot upload interrupted'') JNull)) (\<lambda>_. throw e)
       | Received observed spooled \<Rightarrow>
           if observed \<noteq> sr_content_length rq
           then deny who RESTORE_OPERATION None ''snapshot size mismatch'' 400
                  ''The snapshot size does not match its declaration.''
           else
             bind_op (run who RESTORE_OPERATION []
                 (returning_none (restore_raft_snapshot w cfg spooled observed (sr_force rq))) JNull False)
               (\<lambda>_. ret (JObj [(''restored'', JBool True)])))"

section \<open>The stream's promises\<close>

lemma pull_yield:
  "pull_chunk declared observed chunks failure = Yield chunk observed' chunks' \<Longrightarrow>
   chunk \<noteq> [] \<and> concat chunks = chunk @ concat chunks' \<and> observed' = observed + length chunk \<and>
   observed' \<le> MAX_SNAPSHOT_BYTES \<and> length chunks' < length chunks"
  by (induction declared observed chunks failure rule: pull_chunk.induct)
    (auto split: option.splits if_split_asm)

lemma pull_stop:
  "pull_chunk declared observed chunks failure = PullStop \<Longrightarrow>
   concat chunks = [] \<and> failure = None \<and> 0 < observed \<and> (\<forall>n. declared = Some n \<longrightarrow> n = int observed)"
  by (induction declared observed chunks failure rule: pull_chunk.induct)
    (auto split: option.splits if_split_asm)

lemma record_stream_simps [simp]:
  "ss_gen (record_stream who outcome reason st) = ss_gen st"
  "ss_sent (record_stream who outcome reason st) = ss_sent st"
  "ss_recorded (record_stream who outcome reason st)"
  "bs_open (ss_broker (record_stream who outcome reason st)) = bs_open (ss_broker st)"
  "bs_calls (ss_broker (record_stream who outcome reason st)) = bs_calls (ss_broker st)"
  "bs_audit (ss_broker (record_stream who outcome reason st)) =
     (if ss_recorded st then bs_audit (ss_broker st) else bs_audit (ss_broker st)
        @ [audit_entry_of who DOWNLOAD_OPERATION None outcome reason JNull])"
  by (simp_all add: record_stream_def)

lemma close_stream_simps [simp]:
  "ss_gen (close_stream d st) = ss_gen st" "ss_sent (close_stream d st) = ss_sent st"
  "ss_recorded (close_stream d st) = ss_recorded st"
  "bs_open (ss_broker (close_stream d st)) = filter (\<lambda>j. j \<noteq> sd_id d) (bs_open (ss_broker st))"
  "bs_calls (ss_broker (close_stream d st)) = bs_calls (ss_broker st)"
  "bs_audit (ss_broker (close_stream d st)) = bs_audit (ss_broker st)"
  by (simp_all add: close_stream_def)

text \<open>
  The invariant: what has been sent and what is left make up the body, the count is right and bounded;
  there is a record exactly when the flag is set, and only one; a recorded stream is closed; and it is
  recorded as \<open>ok\<close> only when the whole body has been sent.
\<close>

definition sent_progress :: "snapshot_download \<Rightarrow> stream_state \<Rightarrow> bool" where
  "sent_progress d st \<longleftrightarrow> length (concat (ss_sent st)) \<le> MAX_SNAPSHOT_BYTES \<and>
     (case ss_gen st of
        GenNew \<Rightarrow> ss_sent st = []
      | GenSuspended observed chunks \<Rightarrow> observed = length (concat (ss_sent st)) \<and>
          body_of (sd_response d) = concat (ss_sent st) @ concat chunks
      | GenDone \<Rightarrow> prefix (concat (ss_sent st)) (body_of (sd_response d)))"

text \<open>A complete download: every byte of the body, none missing against the declaration.\<close>

definition complete_download :: "snapshot_download \<Rightarrow> string list \<Rightarrow> bool" where
  "complete_download d sent \<longleftrightarrow> concat sent = body_of (sd_response d) \<and> concat sent \<noteq> [] \<and>
     rs_failure (sd_response d) = None \<and> length (concat sent) \<le> MAX_SNAPSHOT_BYTES \<and>
     (\<forall>n. declared_size d = Some n \<longrightarrow> n = int (length (concat sent)))"

definition terminal_record :: "caller \<Rightarrow> snapshot_download \<Rightarrow> string list \<Rightarrow> audit_entry \<Rightarrow> bool" where
  "terminal_record who d sent e \<longleftrightarrow> ae_instance e = JStr (ip_name (ca_instance who)) \<and>
     ae_operation e = DOWNLOAD_OPERATION \<and> ae_request_id e = ca_request_id who \<and>
     (ae_outcome e = ''error'' \<or> (ae_outcome e = ''ok'' \<and> complete_download d sent))"

definition stream_inv :: "caller \<Rightarrow> snapshot_download \<Rightarrow> broker_state \<Rightarrow> stream_state \<Rightarrow> bool" where
  "stream_inv who d s st \<longleftrightarrow> sent_progress d st \<and> bs_calls (ss_broker st) = bs_calls s \<and>
     (if ss_recorded st
      then (\<exists>e. bs_audit (ss_broker st) = bs_audit s @ [e] \<and>
              (ae_outcome e = ''ok'' \<longrightarrow> ss_gen st = GenDone) \<and> terminal_record who d (ss_sent st) e) \<and>
           bs_open (ss_broker st) = filter (\<lambda>j. j \<noteq> sd_id d) (bs_open s)
      else bs_audit (ss_broker st) = bs_audit s \<and> bs_open (ss_broker st) = bs_open s)"

lemma sent_progress_same [simp]:
  "sent_progress d (record_stream who outcome reason st) = sent_progress d st"
  "sent_progress d (close_stream d' st) = sent_progress d st"
  by (simp_all add: sent_progress_def cong: gen_state.case_cong)

lemma finish_inv:
  assumes inv: "stream_inv who d s st" and outcome: "outcome = ''error'' \<or>
      (outcome = ''ok'' \<and> gen = GenDone \<and> complete_download d (ss_sent st))"
    and progress: "sent_progress d (st\<lparr>ss_gen := gen\<rparr>)"
    and fin: "ss_recorded st \<longrightarrow> gen = GenDone \<or> gen = ss_gen st"
  shows "stream_inv who d s (record_stream who outcome reason (close_stream d (st\<lparr>ss_gen := gen\<rparr>)))"
proof (cases "ss_recorded st")
  case True
  with inv progress fin show ?thesis
    by (auto simp: stream_inv_def)
next
  case False
  with inv progress outcome show ?thesis
    by (auto simp: stream_inv_def terminal_record_def)
qed

lemma close_twice: "close_stream d (close_stream d st) = close_stream d st"
  by (simp add: close_stream_def close_response_def)

lemma resume_inv:
  assumes inv: "stream_inv who d s st" and live: "ss_gen st \<noteq> GenDone"
    and body: "body_of (sd_response d) = concat (ss_sent st) @ concat chunks"
    and observed: "observed = length (concat (ss_sent st))"
  shows "stream_inv who d s (resume who d observed chunks st)"
proof -
  have bound: "length (concat (ss_sent st)) \<le> MAX_SNAPSHOT_BYTES"
    using inv by (simp add: stream_inv_def sent_progress_def)
  have progress: "sent_progress d (st\<lparr>ss_gen := GenDone\<rparr>)"
    using bound body by (simp add: sent_progress_def prefix_def)
  have failed: "stream_inv who d s (record_stream who ''error'' reason (close_stream d (st\<lparr>ss_gen := GenDone\<rparr>)))"
    for reason
    by (rule finish_inv [OF inv _ progress]) simp_all
  show ?thesis
  proof (cases "pull_chunk (declared_size d) observed chunks (rs_failure (sd_response d))")
    case (Yield chunk observed' chunks')
    with pull_yield [OF Yield] observed body inv live show ?thesis
      by (auto simp: resume_def stream_inv_def sent_progress_def terminal_record_def split: if_split_asm)
  next
    case (PullRaise e)
    then show ?thesis by (cases e) (simp_all add: resume_def failed close_twice)
  next
    case PullStop
    with pull_stop [OF PullStop] observed body bound have "complete_download d (ss_sent st)"
      by (auto simp: complete_download_def)
    then have "stream_inv who d s (record_stream who ''ok'' None (close_stream d (st\<lparr>ss_gen := GenDone\<rparr>)))"
      by (intro finish_inv [OF inv _ progress]) simp_all
    with PullStop show ?thesis by (simp add: resume_def)
  qed
qed

lemma step_inv:
  assumes inv: "stream_inv who d s st"
  shows "stream_inv who d s (stream_step who d ev st)"
proof (cases ev)
  case Pull
  show ?thesis
  proof (cases "ss_gen st")
    case GenNew
    with inv have "ss_sent st = []" by (simp add: stream_inv_def sent_progress_def)
    with GenNew inv Pull show ?thesis by (auto intro!: resume_inv simp: body_of_def)
  next
    case (GenSuspended observed chunks)
    with inv have "observed = length (concat (ss_sent st))"
      and "body_of (sd_response d) = concat (ss_sent st) @ concat chunks"
      by (simp_all add: stream_inv_def sent_progress_def)
    with GenSuspended inv Pull show ?thesis by (auto intro!: resume_inv)
  next
    case GenDone
    with inv Pull show ?thesis by simp
  qed
next
  case CloseGenerator
  have progress: "sent_progress d (st\<lparr>ss_gen := GenDone\<rparr>)"
    using inv by (auto simp: stream_inv_def sent_progress_def prefix_def split: gen_state.splits)
  then have "stream_inv who d s (record_stream who ''error'' (Some ''snapshot stream interrupted'')
      (close_stream d (st\<lparr>ss_gen := GenDone\<rparr>)))"
    by (intro finish_inv [OF inv]) simp_all
  moreover have "stream_inv who d s (st\<lparr>ss_gen := GenDone\<rparr>)"
    using inv progress by (auto simp: stream_inv_def)
  ultimately show ?thesis using CloseGenerator by (simp add: close_twice split: gen_state.split)
next
  case Finalize
  have "st\<lparr>ss_gen := ss_gen st\<rparr> = st" by simp
  moreover have "sent_progress d st" using inv by (simp add: stream_inv_def)
  ultimately have "stream_inv who d s (record_stream who ''error'' (Some ''snapshot stream not completed'')
      (close_stream d st))"
    using finish_inv [OF inv, of "''error''" "ss_gen st" "Some ''snapshot stream not completed''"] by simp
  with Finalize inv show ?thesis by simp
qed

lemma new_stream_inv: "stream_inv who d s (new_stream s)"
  by (simp add: stream_inv_def new_stream_def sent_progress_def)

lemma stream_reaches_inv: "stream_reaches who d s evs st \<Longrightarrow> stream_inv who d s st"
  by (induction rule: stream_reaches.induct) (simp_all add: new_stream_inv step_inv)

text \<open>Once recorded, always recorded; the finalizer sees to it.\<close>

lemma step_recorded: "ss_recorded st \<Longrightarrow> ss_recorded (stream_step who d ev st)"
  by (cases ev) (auto simp: resume_def split: gen_state.split pull.split exn.split)

lemma finalize_recorded: "ss_recorded (stream_step who d Finalize st)"
  by simp

lemma stream_finalized: "stream_reaches who d s evs st \<Longrightarrow> Finalize \<in> set evs \<Longrightarrow> ss_recorded st"
  by (induction rule: stream_reaches.induct) (auto intro: step_recorded)

text \<open>The relation is the fold of the step function.\<close>

lemma stream_reaches_fold: "stream_reaches who d s evs (fold (stream_step who d) evs (new_stream s))"
  by (induction evs rule: rev_induct) (auto intro: stream_reaches.intros)

lemma stream_reaches_iff: "stream_reaches who d s evs st \<longleftrightarrow> st = fold (stream_step who d) evs (new_stream s)"
proof
  show "stream_reaches who d s evs st \<Longrightarrow> st = fold (stream_step who d) evs (new_stream s)"
    by (induction rule: stream_reaches.induct) simp_all
qed (simp add: stream_reaches_fold)

lemma finalized_stream_reaches: "stream_reaches who d s (evs @ [Finalize]) (finalized_stream who d evs s)"
  unfolding finalized_stream_def by (intro stream_next stream_reaches_fold)

lemma finalized_stream_inv:
  "stream_inv who d s (finalized_stream who d evs s)" "ss_recorded (finalized_stream who d evs s)"
  using stream_reaches_inv [OF finalized_stream_reaches] stream_finalized [OF finalized_stream_reaches]
  by simp_all

section \<open>The upload's promises\<close>

lemma receive_complete:
  "receive_upload limit observed spooled chunks failure = Received n content \<Longrightarrow>
   observed = int (length spooled) \<Longrightarrow> observed \<le> int MAX_SNAPSHOT_BYTES \<Longrightarrow> observed \<le> limit \<Longrightarrow>
   content = spooled @ concat chunks \<and> n = int (length content) \<and> n \<le> int MAX_SNAPSHOT_BYTES \<and> n \<le> limit \<and> failure = None"
  by (induction limit observed spooled chunks failure rule: receive_upload.induct)
    (auto simp: Let_def split: option.splits if_split_asm)

interpretation vrestore: vault_action "returning_none (restore_raft_snapshot w cfg stream n force)"
    "\<lambda>c. \<exists>h. c = HttpCall (restore_http cfg force h stream n)"
  for w cfg stream n force
  by unfold_locales (auto intro!: returning_none_rules client_ops raises_rules lock_rules)

section \<open>The upload route\<close>

lemma authorize_snapshot_run:
  "authorize_snapshot who digest operation s = (r, s') \<Longrightarrow>
   (r = Inr () \<and> s' = s \<and> digest = CONTRACT_DIGEST \<and> permits_administration (ca_instance who) ''cluster'') \<or>
   refused (denied_entry who operation) s r s'"
  by (auto simp: authorize_snapshot_def intro: deny_refused split: if_split_asm)

text \<open>An upload that is passed on to OpenBao.\<close>

definition upload_accepted :: "caller \<Rightarrow> restore_request \<Rightarrow> bool" where
  "upload_accepted who rq \<longleftrightarrow> sr_digest rq = CONTRACT_DIGEST \<and>
     permits_administration (ca_instance who) ''cluster'' \<and>
     lower (sr_content_type rq) = ''application/octet-stream'' \<and>
     receive_upload (sr_content_length rq) 0 [] (sr_chunks rq) (sr_failure rq) =
       Received (sr_content_length rq) (concat (sr_chunks rq))"

lemma receive_interrupted:
  "receive_upload limit observed spooled chunks failure = Interrupted e \<Longrightarrow> failure = Some e"
  by (induction limit observed spooled chunks failure rule: receive_upload.induct)
    (auto simp: Let_def split: option.splits if_split_asm)

text \<open>An upload is passed on as a whole, or refused, or broken off by the client.\<close>

lemma restore_route_cases:
  assumes run: "restore_snapshot_route w cfg rq who s = (r, s')"
  obtains (accepted) r1 where "upload_accepted who rq" "run who RESTORE_OPERATION []
      (returning_none (restore_raft_snapshot w cfg (concat (sr_chunks rq)) (sr_content_length rq) (sr_force rq)))
      JNull False s = (r1, s')" "r = (case r1 of Inl e \<Rightarrow> Inl e | Inr x \<Rightarrow> Inr (JObj [(''restored'', JBool True)]))"
  | (refusal) "refused (denied_entry who RESTORE_OPERATION) s r s'"
  | (interrupted) e where "sr_failure rq = Some e" "r = Inl e" "s' = log_record (audit_entry_of who RESTORE_OPERATION
      None ''error'' (Some ''snapshot upload interrupted'') JNull) s"
proof -
  obtain r0 s0 where auth: "authorize_snapshot who (sr_digest rq) RESTORE_OPERATION s = (r0, s0)"
    by (cases "authorize_snapshot who (sr_digest rq) RESTORE_OPERATION s")
  consider (no) "refused (denied_entry who RESTORE_OPERATION) s r0 s0"
    | (ok) "r0 = Inr ()" "s0 = s" "sr_digest rq = CONTRACT_DIGEST" "permits_administration (ca_instance who) ''cluster''"
    using authorize_snapshot_run [OF auth] by blast
  then show thesis
  proof cases
    case no
    with auth run have "refused (denied_entry who RESTORE_OPERATION) s r s'"
      by (auto simp: restore_snapshot_route_def bind_op_run refused_def)
    with refusal show thesis .
  next
    case ok
    note start = restore_snapshot_route_def bind_op_run auth ok(1,2)
    show thesis
    proof (cases "lower (sr_content_type rq) = ''application/octet-stream''")
      case False
      with run have "refused (denied_entry who RESTORE_OPERATION) s r s'"
        by (intro deny_refused) (auto simp: start)
      with refusal show thesis .
    next
      case media: True
      show thesis
      proof (cases "receive_upload (sr_content_length rq) 0 [] (sr_chunks rq) (sr_failure rq)")
        case TooLarge
        with media run have "refused (denied_entry who RESTORE_OPERATION) s r s'"
          by (intro deny_refused) (auto simp: start)
        with refusal show thesis .
      next
        case (Interrupted e)
        with media run interrupted [OF receive_interrupted] show thesis by (auto simp: start)
      next
        case (Received n content)
        show thesis
        proof (cases "n = sr_content_length rq")
          case False
          with Received media run have "refused (denied_entry who RESTORE_OPERATION) s r s'"
            by (intro deny_refused) (auto simp: start)
          with refusal show thesis .
        next
          case n: True
          have "0 \<le> sr_content_length rq"
            using Received n by (cases "sr_chunks rq") (auto simp: Let_def split: if_split_asm option.splits)
          with receive_complete [OF Received] have "content = concat (sr_chunks rq)" by simp
          with n Received media ok(3,4) have "upload_accepted who rq" by (simp add: upload_accepted_def)
          moreover obtain r1 s1 where inner: "run who RESTORE_OPERATION [] (returning_none (restore_raft_snapshot
              w cfg (concat (sr_chunks rq)) (sr_content_length rq) (sr_force rq))) JNull False s = (r1, s1)"
            by (meson surj_pair)
          moreover from inner n Received media run \<open>content = _\<close>
          have "s' = s1" "r = (case r1 of Inl e \<Rightarrow> Inl e | Inr x \<Rightarrow> Inr (JObj [(''restored'', JBool True)]))"
            by (auto simp: start split: sum.splits)
          ultimately show thesis using accepted by blast
        qed
      qed
    qed
  qed
qed

lemma restore_route_accepted:
  assumes "upload_accepted who rq"
  shows "restore_snapshot_route w cfg rq who = bind_op (run who RESTORE_OPERATION [] (returning_none
      (restore_raft_snapshot w cfg (concat (sr_chunks rq)) (sr_content_length rq) (sr_force rq))) JNull False)
    (\<lambda>_. ret (JObj [(''restored'', JBool True)]))"
  using assms
  by (intro ext) (simp add: upload_accepted_def restore_snapshot_route_def authorize_snapshot_def bind_op_run)

lemma upload_accepted_exact:
  assumes "upload_accepted who rq"
  shows "sr_failure rq = None \<and> sr_content_length rq = int (length (concat (sr_chunks rq))) \<and>
    sr_content_length rq \<le> int MAX_SNAPSHOT_BYTES"
proof -
  from assms have received: "receive_upload (sr_content_length rq) 0 [] (sr_chunks rq) (sr_failure rq) =
      Received (sr_content_length rq) (concat (sr_chunks rq))" by (simp add: upload_accepted_def)
  then have "0 \<le> sr_content_length rq"
    by (cases "sr_chunks rq") (auto simp: Let_def split: if_split_asm option.splits)
  with receive_complete [OF received] show ?thesis by simp
qed

end
