(* ===== verification/Admin_Facts.thy ===== *)
theory Admin_Facts
  imports Admin_Paths
begin

text \<open>
  What passing \<open>validate_arguments\<close> guarantees: the bounds on depth, size and text of the arguments, the
  reviewed roots of every proxied path, the place of a mounted path below its mount, and exactly which
  exceptions are no \<open>ValueError\<close>.
\<close>

section \<open>Resource bounds\<close>

text \<open>The number of values in a document, the depth of its nesting, and the texts in it.\<close>

fun json_nodes :: "json \<Rightarrow> nat" where
  "json_nodes (JArr xs) = Suc (sum_list (map json_nodes xs))"
| "json_nodes (JObj d) = Suc (sum_list (map (\<lambda>p. json_nodes (snd p)) d))"
| "json_nodes _ = 1"

fun json_within :: "nat \<Rightarrow> json \<Rightarrow> bool" where
  "json_within n (JArr xs) \<longleftrightarrow> (case n of 0 \<Rightarrow> False | Suc m \<Rightarrow> list_all (json_within m) xs)"
| "json_within n (JObj d) \<longleftrightarrow> (case n of 0 \<Rightarrow> False | Suc m \<Rightarrow> list_all (\<lambda>p. json_within m (snd p)) d)"
| "json_within n _ \<longleftrightarrow> 0 < n"

text \<open>A text the arguments may hold: no control characters, bounded length.\<close>

definition clean_text :: "string \<Rightarrow> bool" where
  "clean_text s \<longleftrightarrow> length s \<le> MAX_ARGUMENT_STRING \<and> (\<forall>c \<in> set s. 32 \<le> code c)"

fun clean_json :: "json \<Rightarrow> bool" where
  "clean_json (JStr s) \<longleftrightarrow> clean_text s"
| "clean_json (JFloat f) \<longleftrightarrow> False"
| "clean_json (JArr xs) \<longleftrightarrow> length xs \<le> MAX_ARGUMENT_ITEMS \<and> list_all clean_json xs"
| "clean_json (JObj d) \<longleftrightarrow> length d \<le> MAX_ARGUMENT_ITEMS \<and>
     list_all (\<lambda>p. fst p \<noteq> [] \<and> length (fst p) \<le> 200 \<and> clean_json (snd p)) d"
| "clean_json _ \<longleftrightarrow> True"

lemma validate_value_sound:
  "validate_value v depth = Inr n \<Longrightarrow>
     n = json_nodes v \<and> json_within (Suc MAX_ARGUMENT_DEPTH - depth) v \<and> clean_json v"
  "validate_items xs depth = Inr n \<Longrightarrow>
     n = sum_list (map json_nodes xs) \<and> list_all (json_within (Suc MAX_ARGUMENT_DEPTH - depth)) xs \<and>
     list_all clean_json xs"
  "validate_fields d depth = Inr n \<Longrightarrow>
     n = sum_list (map (\<lambda>p. json_nodes (snd p)) d) \<and>
     list_all (\<lambda>p. json_within (Suc MAX_ARGUMENT_DEPTH - depth) (snd p)) d \<and>
     list_all (\<lambda>p. fst p \<noteq> [] \<and> length (fst p) \<le> 200 \<and> clean_json (snd p)) d"
proof (induction v depth and xs depth and d depth arbitrary: n and n and n
    rule: validate_value_validate_items_validate_fields.induct)
  case (1 v depth)
  then have depth: "depth \<le> MAX_ARGUMENT_DEPTH" by (simp split: if_split_asm)
  then have le: "Suc MAX_ARGUMENT_DEPTH - depth = Suc (MAX_ARGUMENT_DEPTH - depth)" by simp
  show ?case
  proof (cases v)
    case (JArr xs)
    with 1 depth show ?thesis by (auto simp: le res_bind_Inr split: if_split_asm)
  next
    case (JObj d)
    with 1 depth show ?thesis by (auto simp: le res_bind_Inr split: if_split_asm)
  next
    case (JStr s)
    with 1 depth show ?thesis
      by (auto simp: le clean_text_def list_ex_iff not_less split: if_split_asm)
  qed (use 1 depth in \<open>auto simp: le split: if_split_asm\<close>)
next
  case (3 x xs depth)
  then show ?case by (auto simp: res_bind_Inr)
next
  case (5 k x d depth)
  then show ?case by (auto simp: res_bind_Inr split: if_split_asm)
qed auto

lemma clean_no_float: "clean_json v \<Longrightarrow> \<not> has_float v"
proof (induction v)
  case (JObj d)
  then show ?case by (force simp: list_all_iff list_ex_iff snds.simps)
qed (auto simp: list_all_iff list_ex_iff)

section \<open>The shape of accepted arguments\<close>

lemma validate_arguments_Inr:
  assumes "validate_arguments operation v = Inr arguments"
  shows "v = JObj arguments"
    and "operation \<in> set IMPLEMENTED_OPERATIONS"
    and "json_nodes v \<le> MAX_ARGUMENT_ITEMS" and "json_within (Suc MAX_ARGUMENT_DEPTH) v"
    and "clean_json v" and "\<exists>t. json_dumps v = Some t \<and> length t \<le> MAX_ARGUMENT_BYTES"
    and "\<exists>allowed. map_of ARGUMENT_KEYS operation = Some allowed \<and> set (keys arguments) \<subseteq> set allowed"
    and "set (required_keys operation) \<subseteq> set (keys arguments)"
    and "validate_operation_arguments operation arguments = Inr ()"
proof -
  from assms obtain oc where oc: "operation_contract operation = Inr oc"
    by (auto simp: validate_arguments_def res_bind_Inr)
  from assms show v: "v = JObj arguments"
    by (cases v) (auto simp: validate_arguments_def res_bind_Inr)
  from oc show "operation \<in> set IMPLEMENTED_OPERATIONS" by (simp add: operation_contract_Inr)
  from assms v obtain allowed count where allowed: "map_of ARGUMENT_KEYS operation = Some allowed"
    and "subset_list (keys arguments) allowed" "subset_list (required_keys operation) (keys arguments)"
    and count: "validate_value v 0 = Inr count" "count \<le> MAX_ARGUMENT_ITEMS"
    and size: "length (the (json_dumps v)) \<le> MAX_ARGUMENT_BYTES"
    and checked: "validate_operation_arguments operation arguments = Inr ()"
    by (auto simp: validate_arguments_def res_bind_Inr dindex_Inr)
  then show "\<exists>allowed. map_of ARGUMENT_KEYS operation = Some allowed \<and> set (keys arguments) \<subseteq> set allowed"
    and "set (required_keys operation) \<subseteq> set (keys arguments)"
    by (auto simp: subset_list_def list_all_iff)
  from validate_value_sound(1) [OF count(1)] count(2)
  show "json_nodes v \<le> MAX_ARGUMENT_ITEMS" and "json_within (Suc MAX_ARGUMENT_DEPTH) v"
    and clean: "clean_json v" by auto
  from clean size dumps_no_float(1) [OF clean_no_float [OF clean]]
  show "\<exists>t. json_dumps v = Some t \<and> length t \<le> MAX_ARGUMENT_BYTES" by auto
  show "validate_operation_arguments operation arguments = Inr ()" by (rule checked)
qed

section \<open>Reviewed paths\<close>

lemma validate_reviewed_proxy_Inr:
  "validate_reviewed_proxy arguments table = Inr () \<longleftrightarrow>
     (\<exists>verb path payload. dget arguments ''method'' = JStr verb \<and> dget arguments ''path'' = JStr path \<and>
        dget arguments ''payload'' = JObj payload \<and> is_bool (dget_or arguments ''material'' (JBool False)) \<and>
        \<not> unsafe_path path \<and> table_permits table verb path)"
  by (auto simp: validate_reviewed_proxy_def split: json.splits)

text \<open>The literal text every path of a table starts with, and the methods it may be used with.\<close>

fun rx_prefix :: "rx \<Rightarrow> string" where
  "rx_prefix (RSeq (RSet [(c, d)]) r) = (if c = d then c # rx_prefix r else [])"
| "rx_prefix (RSeq (RSeq r q) p) = rx_prefix (RSeq r q)"
| "rx_prefix _ = []"

lemma in_class_single: "in_class x [(c, c)] \<longleftrightarrow> x = c"
  by (auto simp: in_class_def)

lemma rx_prefix_sound: "rx_matches r s \<Longrightarrow> startswith s (rx_prefix r)"
proof (induction r arbitrary: s rule: rx_prefix.induct)
  case (1 c d r)
  then show ?case
    by (auto simp: rx_matches_seq rx_matches_set in_class_single)
next
  case (2 r q p)
  from 2(2) obtain u v where "s = u @ v" "rx_matches (RSeq r q) u"
    by (auto simp only: rx_matches_seq [of "RSeq r q" p])
  with 2(1) obtain t where "u = rx_prefix (RSeq r q) @ t" by (auto simp: startswith_iff)
  with \<open>s = u @ v\<close> show ?case by simp
qed auto

definition table_roots :: "path_table \<Rightarrow> string list" where
  "table_roots table = remdups (map (\<lambda>(methods, pattern). rx_prefix pattern) table)"

lemma table_permits_root:
  assumes "table_permits table verb path"
  shows "\<exists>root \<in> set (table_roots table). startswith path root"
proof -
  from assms obtain methods pattern where "(methods, pattern) \<in> set table" "fullmatch pattern path"
    by (auto simp: table_permits_def list_ex_iff)
  then show ?thesis
    using rx_prefix_sound fullmatch_correct by (force simp: table_roots_def)
qed

definition REVIEWED_ROOTS :: "string list" where
  "REVIEWED_ROOTS =
    [''/sys/policies/'', ''/identity/'', ''/sys/namespaces'', ''/sys/leases/'', ''/sys/wrapping/'',
     ''/sys/tools/'', ''/auth/'', ''/sys/config/ui/headers'', ''/sys/auth'', ''/sys/remount'',
     ''/sys/mfa/validate'', ''/sys/mounts'']"

lemma roots_reviewed:
  "\<forall>table \<in> {ACCESS_PATHS, FINAL_PATHS, AUTH_PATHS, SECRET_ENGINE_PATHS}.
     \<forall>root \<in> set (table_roots table). \<exists>r \<in> set REVIEWED_ROOTS. startswith root r"
  by code_simp

text \<open>The four proxied operations and their tables.\<close>

definition proxy_table :: "string \<Rightarrow> path_table option" where
  "proxy_table operation =
     (if operation = ''execute_authentication_operation'' then Some AUTH_PATHS
      else if operation = ''execute_access_operation'' then Some ACCESS_PATHS
      else if operation = ''execute_final_operation'' then Some FINAL_PATHS
      else if operation = ''execute_secret_engine_operation'' then Some SECRET_ENGINE_PATHS
      else None)"

lemma proxy_table_checked:
  assumes "proxy_table operation = Some table" and "validate_operation_arguments operation arguments = Inr ()"
  shows "validate_reviewed_proxy arguments table = Inr ()"
  using assms
  by (auto simp: proxy_table_def validate_operation_arguments_def validate_authentication_proxy_def
      res_bind_Inr split: if_split_asm)

lemma proxy_path_rooted:
  assumes "proxy_table operation = Some table" and "table_permits table verb path"
  shows "\<exists>r \<in> set REVIEWED_ROOTS. startswith path r"
proof -
  from assms(1) have "table \<in> {ACCESS_PATHS, FINAL_PATHS, AUTH_PATHS, SECRET_ENGINE_PATHS}"
    by (auto simp: proxy_table_def split: if_split_asm)
  with roots_reviewed table_permits_root [OF assms(2)] show ?thesis
    by (meson startswith_trans)
qed

lemma proxy_accepted:
  assumes table: "proxy_table operation = Some table"
    and ok: "validate_arguments operation v = Inr arguments"
  shows "\<exists>verb path payload. dget arguments ''method'' = JStr verb \<and> dget arguments ''path'' = JStr path \<and>
    dget arguments ''payload'' = JObj payload \<and> table_permits table verb path \<and> \<not> unsafe_path path \<and>
    (\<exists>r \<in> set REVIEWED_ROOTS. startswith path r)"
  using proxy_table_checked [OF table validate_arguments_Inr(9) [OF ok]] proxy_path_rooted [OF table]
  by (auto simp: validate_reviewed_proxy_Inr)

section \<open>Mounted paths\<close>

lemma list_index_Some: "list_index a xs = Some i \<Longrightarrow> i < length xs \<and> xs ! i = a \<and> a \<notin> set (take i xs)"
proof (induction xs arbitrary: i)
  case (Cons x xs)
  then show ?case by (cases i) (auto split: if_split_asm)
qed simp

lemma mounted_segments_below:
  assumes "validate_mounted_segments template_segments actual_segments mount = Inr ()"
  shows "prefix (split_on CHR ''/'' mount) actual_segments"
    and "hd template_segments = expected_placeholder mount"
proof -
  from assms show "hd template_segments = expected_placeholder mount"
    by (auto simp: validate_mounted_segments_def split: if_split_asm)
  from assms have "take (length (split_on CHR ''/'' mount)) actual_segments = split_on CHR ''/'' mount"
    by (simp add: validate_mounted_segments_def Let_def split: if_split_asm)
  then show "prefix (split_on CHR ''/'' mount) actual_segments"
    by (metis take_is_prefix)
qed

lemma mounted_accepted:
  assumes "validate_mounted_operation arguments = Inr ()"
  shows "\<exists>mount path. dget arguments ''mount_path'' = JStr mount \<and> dget arguments ''path'' = JStr path \<and>
    fullmatch MOUNT_PATH_RX mount \<and> \<not> unsafe_path path \<and>
    prefix (split_on CHR ''/'' mount) (split_on CHR ''/'' (removeprefix path ''/''))"
proof -
  from assms obtain mount where mount: "dget arguments ''mount_path'' = JStr mount"
    by (auto simp: validate_mounted_operation_def res_bind_Inr split: json.splits)
  with assms obtain template_segments actual_segments where
    regex: "fullmatch MOUNT_PATH_RX mount"
    and actual: "mounted_actual_segments (dget arguments ''path'') = Inr actual_segments"
    and agree: "validate_mounted_segments template_segments actual_segments mount = Inr ()"
    by (auto simp: validate_mounted_operation_def res_bind_Inr split: if_split_asm)
  from actual obtain path where path: "dget arguments ''path'' = JStr path"
    by (auto simp: mounted_actual_segments_def split: json.splits)
  with actual have "\<not> unsafe_path path" "actual_segments = split_on CHR ''/'' (removeprefix path ''/'')"
    by (auto simp: mounted_actual_segments_def Let_def split: if_split_asm)
  with mount path regex mounted_segments_below(1) [OF agree] show ?thesis by auto
qed

section \<open>Which exceptions escape\<close>

text \<open>The errors the handler of \<^verbatim>\<open>broker/app.py\<close> takes.\<close>

definition value_error :: "exn \<Rightarrow> bool" where
  "value_error e \<longleftrightarrow> (\<exists>m. e = ValueError m)"

lemma value_error_simps [simp]: "value_error (ValueError m)" "\<not> value_error KeyError" "\<not> value_error TypeError"
  by (simp_all add: value_error_def)

lemma value_error_texts [simp]:
  "value_error (field_error k)" "value_error leader_error" "value_error proxy_error"
  "value_error template_error" "value_error mounted_path_error" "value_error mismatch_error"
  by (simp_all add: field_error_def leader_error_def proxy_error_def template_error_def
      mounted_path_error_def mismatch_error_def)

definition value_errors :: "'a res \<Rightarrow> bool" where
  "value_errors r \<longleftrightarrow> (\<forall>e. r = Inl e \<longrightarrow> value_error e)"

named_theorems value_rules \<open>validators that raise only a ValueError\<close>

lemma value_errors_basic [value_rules]:
  "value_errors (Inr x)" "value_error e \<Longrightarrow> value_errors (Inl e)"
  "value_error e \<Longrightarrow> value_errors (res_guard c e)"
  "value_errors r \<Longrightarrow> (\<And>x. r = Inr x \<Longrightarrow> value_errors (f x)) \<Longrightarrow> value_errors (res_bind r f)"
  "(\<And>x. x \<in> set xs \<Longrightarrow> value_errors (g x)) \<Longrightarrow> value_errors (res_each g xs)"
  by (auto simp: value_errors_def res_bind_Inl dest: res_each_Inl)

lemma value_errors_if [value_rules]:
  "(c \<Longrightarrow> value_errors a) \<Longrightarrow> (\<not> c \<Longrightarrow> value_errors b) \<Longrightarrow> value_errors (if c then a else b)"
  by simp

lemma bounds_value_errors [value_rules]:
  "value_errors (validate_value v depth)" "value_errors (validate_items xs depth)" "value_errors (validate_fields d depth)"
proof (induction v depth and xs depth and d depth rule: validate_value_validate_items_validate_fields.induct)
  case (1 v depth)
  then show ?case
    by (subst validate_value.simps, cases v) (auto intro!: value_rules simp del: validate_value.simps)
qed (auto intro!: value_rules simp del: validate_value.simps)

lemma value_errors_option [value_rules]:
  "value_errors a \<Longrightarrow> (\<And>x. v = Some x \<Longrightarrow> value_errors (f x)) \<Longrightarrow>
   value_errors (case v of None \<Rightarrow> a | Some x \<Rightarrow> f x)"
  by (cases v) simp_all

lemma value_errors_str [value_rules]:
  "(\<And>s. v = JStr s \<Longrightarrow> value_errors (f s)) \<Longrightarrow> value_error e \<Longrightarrow>
   value_errors (case v of JStr s \<Rightarrow> f s | _ \<Rightarrow> Inl e)"
  by (cases v) (simp_all add: value_rules)

lemma field_value_errors [value_rules]:
  "value_errors (positive_integer arguments k required)" "value_errors (string_list arguments k)"
  "value_errors (optional_string n arguments k)" "value_errors (optional_boolean arguments k)"
  unfolding positive_integer_def string_list_def optional_string_def optional_boolean_def Let_def
  by (auto intro!: value_rules split: json.split)

lemma cluster_value_errors [value_rules]:
  "value_errors (validate_initialize arguments)" "value_errors (validate_unseal arguments)"
  "value_errors (check_leader_address v)"
  unfolding validate_initialize_def validate_unseal_def check_leader_address_def Let_def
  by (auto intro!: value_rules split: json.split option.split)

lemma reviewed_value_errors [value_rules]: "value_errors (validate_reviewed_proxy arguments table)"
proof (cases "\<exists>m p b. dget arguments ''method'' = JStr m \<and> dget arguments ''path'' = JStr p \<and>
    dget arguments ''payload'' = JObj b")
  case True
  then show ?thesis unfolding validate_reviewed_proxy_def by (elim exE conjE) (simp add: value_rules)
next
  case False
  then have "validate_reviewed_proxy arguments table = Inl proxy_error"
    unfolding validate_reviewed_proxy_def
    by (cases "dget arguments ''method''"; simp; cases "dget arguments ''path''"; simp;
        cases "dget arguments ''payload''"; simp)
  then show ?thesis by (simp add: value_rules)
qed

lemma proxy_value_errors [value_rules]: "value_errors (validate_authentication_proxy arguments)"
  unfolding validate_authentication_proxy_def Let_def
  by (intro value_rules; simp)

lemma mounted_value_errors [value_rules]:
  "value_errors (mounted_template_segments v)" "value_errors (mounted_actual_segments v)"
  "value_errors (validate_mounted_segments template_segments actual_segments mount)"
  unfolding mounted_template_segments_def mounted_actual_segments_def validate_mounted_segments_def Let_def
  by (intro value_rules; simp)+

text \<open>The two places where an argument of the wrong type raises a \<open>TypeError\<close> instead.\<close>

definition untyped_argument :: "string \<Rightarrow> dict \<Rightarrow> bool" where
  "untyped_argument operation arguments \<longleftrightarrow>
     (operation = ''remove_raft_peer'' \<and> \<not> is_str (dget arguments ''server_id'')) \<or>
     (operation = ''execute_mounted_operation'' \<and>
        (is_list (dget arguments ''method'') \<or> is_dict (dget arguments ''method'')))"

lemma mounted_operation_errors:
  "\<not> (is_list (dget arguments ''method'') \<or> is_dict (dget arguments ''method'')) \<Longrightarrow>
   value_errors (validate_mounted_operation arguments)"
  unfolding validate_mounted_operation_def check_mounted_method_def
  by (intro value_errors_basic) (auto intro!: value_rules split: json.split)

lemma operation_arguments_errors:
  assumes present: "set (required_keys operation) \<subseteq> set (keys arguments)"
    and typed: "\<not> untyped_argument operation arguments"
  shows "value_errors (validate_operation_arguments operation arguments)"
proof -
  have "value_errors (check_server_id arguments)" if "operation = ''remove_raft_peer''"
  proof -
    from that present have "''server_id'' \<in> set (keys arguments)"
      by (simp add: required_keys_def REQUIRED_ARGUMENT_KEYS_def)
    then obtain v where v: "dindex arguments ''server_id'' = Inr v" using dindex_present by blast
    then have "dget arguments ''server_id'' = v" by (simp add: dindex_Inr dget_def)
    with typed that have "is_str v" by (simp add: untyped_argument_def)
    then obtain t where "v = JStr t" by (auto simp: is_str_iff)
    with v show ?thesis by (simp add: check_server_id_def value_rules)
  qed
  moreover have "value_errors (validate_join arguments)" if "operation = ''join_raft''"
  proof -
    from that present have "''leader_api_addr'' \<in> set (keys arguments)"
      by (simp add: required_keys_def REQUIRED_ARGUMENT_KEYS_def)
    then obtain v where "dindex arguments ''leader_api_addr'' = Inr v" using dindex_present by blast
    then show ?thesis by (simp add: validate_join_def) (intro value_rules)
  qed
  ultimately show ?thesis
    using typed unfolding validate_operation_arguments_def
    by (intro value_errors_if value_rules mounted_operation_errors) (auto simp: untyped_argument_def)
qed

text \<open>Two operations are implemented and have no entry among the argument keys.\<close>

lemma argument_keys_missing:
  "operation \<in> set IMPLEMENTED_OPERATIONS \<Longrightarrow>
   map_of ARGUMENT_KEYS operation = None \<longleftrightarrow> operation \<in> {''download_raft_snapshot'', ''restore_raft_snapshot''}"
  by (auto simp: IMPLEMENTED_OPERATIONS_def ARGUMENT_KEYS_def)

lemma validate_arguments_errors:
  assumes "validate_arguments operation v = Inl e"
  shows "value_error e \<or> (e = KeyError \<and> operation \<in> {''download_raft_snapshot'', ''restore_raft_snapshot''}) \<or>
    (\<exists>arguments. v = JObj arguments \<and> untyped_argument operation arguments)"
proof (cases "operation_contract operation")
  case (Inl e')
  with assms operation_contract_Inl [OF Inl] show ?thesis by (auto simp: validate_arguments_def)
next
  case (Inr oc)
  then have known: "operation \<in> set IMPLEMENTED_OPERATIONS" by (simp add: operation_contract_Inr)
  show ?thesis
  proof (cases "map_of ARGUMENT_KEYS operation")
    case None
    with assms Inr argument_keys_missing [OF known] show ?thesis
      by (auto simp: validate_arguments_def dindex_def split: json.splits)
  next
    case (Some allowed)
    show ?thesis
    proof (rule ccontr)
      assume "\<not> ?thesis"
      then have bad: "\<not> value_error e" and typed: "\<And>arguments. v = JObj arguments \<Longrightarrow> \<not> untyped_argument operation arguments"
        by auto
      have "value_errors (validate_arguments operation v)"
      proof (cases v)
        case (JObj arguments)
        have "value_errors (validate_operation_arguments operation arguments)"
          if "subset_list (required_keys operation) (keys arguments)"
          using that typed [OF JObj]
          by (intro operation_arguments_errors) (auto simp: subset_list_def list_all_iff)
        with JObj Some show ?thesis
          unfolding validate_arguments_def Inr res_bind_simps
          by (simp del: validate_value.simps add: dindex_def)
            (intro value_errors_basic bounds_value_errors; simp)
      qed (simp_all add: validate_arguments_def Inr value_rules)
      with assms bad show False by (simp add: value_errors_def)
    qed
  qed
qed

lemma validate_arguments_ok:
  assumes "operation \<in> set IMPLEMENTED_OPERATIONS" and "map_of ARGUMENT_KEYS operation = Some allowed"
    and "subset_list (keys arguments) allowed" and "subset_list (required_keys operation) (keys arguments)"
    and "validate_value (JObj arguments) 0 = Inr n" and "n \<le> MAX_ARGUMENT_ITEMS"
    and "length (the (json_dumps (JObj arguments))) \<le> MAX_ARGUMENT_BYTES"
    and "validate_operation_arguments operation arguments = Inr ()"
  shows "validate_arguments operation (JObj arguments) = Inr arguments"
proof -
  obtain oc where "operation_contract operation = Inr oc" using operation_contract_ok [OF assms(1)] by blast
  with assms(2-) show ?thesis
    by (simp add: validate_arguments_def dindex_def res_guard_def del: validate_value.simps json_dumps.simps)
qed

end
