(* ===== verification/App_Administration.thy ===== *)
theory App_Administration
  imports App_Snapshot Admin_Facts
begin

text \<open>
  The administration routes as a whole: what a request may make the broker send, how it may end, and the
  one way it ends without an audit record. With the secret routes this gives the audit promise for every
  route.
\<close>

section \<open>The action of an administration request\<close>

definition administration_action :: "world \<Rightarrow> broker_config \<Rightarrow> string \<Rightarrow> dict \<Rightarrow> json bop" where
  "administration_action w cfg operation arguments =
     bind_op (execute_administration w cfg operation arguments) (\<lambda>d. ret (JObj d))"

interpretation vadmin: vault_action "administration_action w cfg operation arguments"
    "\<lambda>c. \<exists>rq. c = HttpCall rq \<and> administration_call cfg operation arguments rq"
  for w cfg operation arguments
  unfolding administration_action_def
  by unfold_locales
    (auto intro!: client_ops unaudited.op_rules unleaked.op_rules confined.op_rules raises_rules lock_rules)

lemma administration_route_run:
  assumes digest: "ab_contract_digest body = CONTRACT_DIGEST"
    and ok: "admitted_operation (ab_operation body) (ab_arguments body) = Inr (contract, arguments)"
    and family: "permits_administration (ca_instance who) (oc_family contract)"
  shows "administration_request_route w cfg body who =
    bind_op (run who (''administration.'' @ ab_operation body) []
       (administration_action w cfg (ab_operation body) arguments) JNull False)
      (\<lambda>result. ret (JObj [(''data'', result)]))"
  using assms by (simp add: administration_request_route_def administration_action_def)

text \<open>An administration request that is let through: the contract, its family and the arguments.\<close>

definition admitted :: "caller \<Rightarrow> administration_body \<Rightarrow> bool" where
  "admitted who body \<longleftrightarrow> ab_contract_digest body = CONTRACT_DIGEST \<and>
     (\<exists>contract arguments. admitted_operation (ab_operation body) (ab_arguments body) = Inr (contract, arguments)
        \<and> permits_administration (ca_instance who) (oc_family contract))"

lemma admitted_operation_Inr:
  "admitted_operation operation arguments = Inr (contract, checked) \<Longrightarrow>
     operation_contract operation = Inr contract \<and> checked = arguments \<and>
     validate_arguments operation (JObj arguments) = Inr arguments"
  using validate_arguments_Inr(1) by (auto simp: admitted_operation_def res_bind_Inr)

text \<open>The arguments that make the validation raise something else than a \<open>ValueError\<close>.\<close>

definition escapes :: "administration_body \<Rightarrow> bool" where
  "escapes body \<longleftrightarrow> ab_operation body \<in> {''download_raft_snapshot'', ''restore_raft_snapshot''} \<or>
     untyped_argument (ab_operation body) (ab_arguments body)"

lemma admitted_operation_error:
  assumes "admitted_operation (ab_operation body) (ab_arguments body) = Inl e" and "\<not> escapes body"
  shows "\<exists>m. e = ValueError m"
  using assms operation_contract_Inl [of "ab_operation body"]
    validate_arguments_errors [of "ab_operation body" "JObj (ab_arguments body)"]
  by (auto simp: admitted_operation_def res_bind_Inl escapes_def value_error_def)

definition administration_refusal :: "caller \<Rightarrow> administration_body \<Rightarrow> audit_entry \<Rightarrow> bool" where
  "administration_refusal who body e \<longleftrightarrow>
     denied_entry who ''administration_request'' e \<or> denied_entry who (''administration.'' @ ab_operation body) e"

lemma refused_mono: "refused Q s r s' \<Longrightarrow> (\<And>e. Q e \<Longrightarrow> P e) \<Longrightarrow> refused P s r s'"
  by (auto simp: refused_def)

lemma administration_refusals:
  "refused (denied_entry who ''administration_request'') s r s' \<Longrightarrow>
     refused (administration_refusal who body) s r s'"
  "refused (denied_entry who (''administration.'' @ ab_operation body)) s r s' \<Longrightarrow>
     refused (administration_refusal who body) s r s'"
  by (erule refused_mono, simp add: administration_refusal_def)+

text \<open>How an administration request may end.\<close>

lemma administration_outcome:
  assumes run: "administration_request_route w cfg body who s = (r, s')"
  shows "(admitted who body \<and> ((r = Inl Deadlock \<and> bs_audit s' = bs_audit s) \<or>
      (\<exists>e. bs_audit s' = bs_audit s @ [e] \<and> answered who (''administration.'' @ ab_operation body) [] r e))) \<or>
    (\<not> admitted who body \<and> (refused (administration_refusal who body) s r s' \<or>
      (escapes body \<and> s' = s \<and> (\<exists>e. r = Inl e))))"
proof (cases "ab_contract_digest body = CONTRACT_DIGEST")
  case False
  with run have "refused (denied_entry who ''administration_request'') s r s'"
    by (auto simp: administration_request_route_def intro: deny_refused)
  with False show ?thesis by (auto simp: admitted_def intro: administration_refusals)
next
  case digest: True
  show ?thesis
  proof (cases "admitted_operation (ab_operation body) (ab_arguments body)")
    case (Inl e)
    then have "\<not> admitted who body" by (simp add: admitted_def)
    moreover have "refused (denied_entry who ''administration_request'') s r s' \<or>
        (escapes body \<and> s' = s \<and> (\<exists>e. r = Inl e))"
    proof (cases "\<exists>m. e = ValueError m")
      case True
      with digest Inl run show ?thesis
        by (auto simp: administration_request_route_def intro: deny_refused)
    next
      case False
      with Inl have "escapes body" using admitted_operation_error by blast
      with digest Inl run False show ?thesis
        by (cases e) (auto simp: administration_request_route_def)
    qed
    ultimately show ?thesis by (auto intro: administration_refusals)
  next
    case (Inr p)
    then obtain contract arguments where ok: "admitted_operation (ab_operation body) (ab_arguments body)
        = Inr (contract, arguments)" by (cases p) simp
    show ?thesis
    proof (cases "permits_administration (ca_instance who) (oc_family contract)")
      case True
      let ?run = "run who (''administration.'' @ ab_operation body) []
        (administration_action w cfg (ab_operation body) arguments) JNull False"
      obtain r1 s1 where inner: "?run s = (r1, s1)" by (cases "?run s")
      with run have "s' = s1" "r = (case r1 of Inl e \<Rightarrow> Inl e | Inr x \<Rightarrow> Inr (JObj [(''data'', x)]))"
        by (auto simp: administration_route_run [OF digest ok True] bind_op_run split: sum.splits)
      with vadmin.run_outcome [OF inner] have "(r = Inl Deadlock \<and> bs_audit s' = bs_audit s) \<or>
          (\<exists>e. bs_audit s' = bs_audit s @ [e] \<and> answered who (''administration.'' @ ab_operation body) [] r e)"
        by (auto simp: answered_def split: sum.splits exn.splits)
      moreover have "admitted who body" using digest ok True by (auto simp: admitted_def)
      ultimately show ?thesis by blast
    next
      case False
      with digest ok run have "refused (denied_entry who (''administration.'' @ ab_operation body)) s r s'"
        by (auto simp: administration_request_route_def intro: deny_refused)
      with False ok show ?thesis by (auto simp: admitted_def intro: administration_refusals)
    qed
  qed
qed

text \<open>What an administration request makes the broker send.\<close>

lemma administration_reaches:
  assumes run: "administration_request_route w cfg body who s = (r, s')"
    and c: "c \<in> set (drop (length (bs_calls s)) (bs_calls s'))" and other: "\<not> is_login c"
  shows "\<exists>contract rq. operation_contract (ab_operation body) = Inr contract \<and>
    permits_administration (ca_instance who) (oc_family contract) \<and>
    validate_arguments (ab_operation body) (JObj (ab_arguments body)) = Inr (ab_arguments body) \<and>
    c = HttpCall rq \<and> administration_call cfg (ab_operation body) (ab_arguments body) rq"
proof (cases "admitted who body")
  case False
  with administration_outcome [OF run] c show ?thesis by (auto simp: refused_def)
next
  case True
  then obtain contract arguments where digest: "ab_contract_digest body = CONTRACT_DIGEST"
    and ok: "admitted_operation (ab_operation body) (ab_arguments body) = Inr (contract, arguments)"
    and family: "permits_administration (ca_instance who) (oc_family contract)"
    by (auto simp: admitted_def)
  let ?run = "run who (''administration.'' @ ab_operation body) []
    (administration_action w cfg (ab_operation body) arguments) JNull False"
  obtain r1 s1 where inner: "?run s = (r1, s1)" by (cases "?run s")
  with run have "s' = s1"
    by (auto simp: administration_route_run [OF digest ok family] bind_op_run split: sum.splits)
  with op_relD [OF vadmin.run_reaches inner] c other obtain rq where
    "c = HttpCall rq" "administration_call cfg (ab_operation body) arguments rq"
    by (auto simp: calls_within_def)
  with admitted_operation_Inr [OF ok] family show ?thesis by auto
qed

section \<open>The audit promise\<close>

lemma contract_outcome:
  "administration_contract_route who s = (r, s') \<Longrightarrow>
   refused (denied_entry who ''administration_contract'') s r s' \<or>
   (r = Inr (contract_document (administration_families (ca_instance who))) \<and>
    s' = log_record (audit_entry_of who ''administration_contract'' None ''ok'' (Some []) JNull) s)"
  by (auto simp: administration_contract_route_def Let_def bind_op_run intro: deny_refused split: if_split_asm)

text \<open>
  How a request that returns is recorded: once, under its request id, as \<open>ok\<close> exactly when it returned a
  value; a denial has changed nothing else.
\<close>

definition recorded :: "string \<Rightarrow> broker_state \<Rightarrow> json res \<Rightarrow> broker_state \<Rightarrow> bool" where
  "recorded rid s r s' \<longleftrightarrow> (\<exists>e. bs_audit s' = bs_audit s @ [e] \<and> ae_request_id e = rid \<and>
     (ae_outcome e = ''denied'' \<longrightarrow> s' = log_record e s) \<and>
     ((\<exists>x. r = Inr x) \<longleftrightarrow> ae_outcome e = ''ok'') \<and> (\<forall>x. r = Inl x \<longrightarrow> (\<exists>n d h. x = HTTPException n d h)))"

lemma refused_recorded: "refused Q s r s' \<Longrightarrow> (\<And>e. Q e \<Longrightarrow> ae_request_id e = rid) \<Longrightarrow> recorded rid s r s'"
  by (auto simp: refused_def recorded_def)

lemma answered_recorded:
  "bs_audit s' = bs_audit s @ [e] \<Longrightarrow> answered who operation path r e \<Longrightarrow> recorded (ca_request_id who) s r s'"
  by (cases r) (auto simp: recorded_def answered_def split: exn.splits if_split_asm)

definition escaping_request :: "route_request \<Rightarrow> bool" where
  "escaping_request request \<longleftrightarrow> (\<exists>body. request = AdministrationRequest body \<and> escapes body)"

lemma route_recorded:
  assumes run: "route w cfg request who s = (r, s')" and ret: "r \<noteq> Inl Deadlock"
    and typed: "\<not> escaping_request request"
  shows "recorded (ca_request_id who) s r s'"
proof (cases "secret_request request")
  case (Some q)
  then obtain path operation writes deletes where
    rq: "secret_request request = Some (path, operation, writes, deletes)" by (cases q) auto
  from secret_route_outcome [OF rq run] ret show ?thesis
    by (auto simp: secret_outcome_def denied_entry_def intro: answered_recorded
        elim!: refused_recorded split: if_split_asm)
next
  case None
  then consider "request = AdministrationContract" | body where "request = AdministrationRequest body"
    by (cases request) auto
  then show ?thesis
  proof cases
    case 1
    with run have "administration_contract_route who s = (r, s')" by simp
    from contract_outcome [OF this] show ?thesis
      by (auto simp: denied_entry_def recorded_def elim!: refused_recorded [unfolded recorded_def])
  next
    case (2 body)
    with run have "administration_request_route w cfg body who s = (r, s')" by simp
    from administration_outcome [OF this] ret typed 2 show ?thesis
      by (auto simp: escaping_request_def administration_refusal_def denied_entry_def
          intro: answered_recorded elim!: refused_recorded)
  qed
qed

lemma endpoint_recorded:
  assumes tls: "tls_scope cert scope" and run: "endpoint w cfg rid scope request s = (r, s')"
    and ret: "r \<noteq> Inl Deadlock" and typed: "\<not> escaping_request request"
  shows "recorded rid s r s'"
proof (cases "\<exists>p. known_caller cfg scope p")
  case True
  then obtain p where "known_caller cfg scope p" by blast
  with run have "route w cfg request \<lparr>ca_instance = p, ca_request_id = rid\<rparr> s = (r, s')"
    by (simp add: endpoint_known)
  from route_recorded [OF this ret typed] show ?thesis by simp
next
  case False
  from endpoint_unknown [OF tls False run] show ?thesis
    by (rule refused_recorded) (simp add: identify_refusal_def)
qed

text \<open>The route without a record: a raft snapshot operation named in an administration request.\<close>

lemma snapshot_operation_escapes:
  assumes "operation \<in> {''download_raft_snapshot'', ''restore_raft_snapshot''}"
  shows "administration_request_route w cfg
     \<lparr>ab_contract_digest = CONTRACT_DIGEST, ab_operation = operation, ab_arguments = arguments\<rparr> who s =
     (Inl KeyError, s)"
proof -
  from assms have known: "operation \<in> set IMPLEMENTED_OPERATIONS" by (auto simp: IMPLEMENTED_OPERATIONS_def)
  then obtain oc where oc: "operation_contract operation = Inr oc" using operation_contract_ok by blast
  have "map_of ARGUMENT_KEYS operation = None" using argument_keys_missing [OF known] assms by blast
  with oc have "admitted_operation operation arguments = Inl KeyError"
    by (simp add: admitted_operation_def validate_arguments_def dindex_def)
  then show ?thesis by (simp add: administration_request_route_def)
qed

lemma untyped_server_id:
  "admitted_operation ''remove_raft_peer'' [(''server_id'', JNull)] = Inl TypeError"
proof -
  have "length (the (json_dumps (JObj [(''server_id'', JNull)]))) < 200" by code_simp
  moreover have "''remove_raft_peer'' \<in> set IMPLEMENTED_OPERATIONS" by (simp add: IMPLEMENTED_OPERATIONS_def)
  then obtain oc where "operation_contract ''remove_raft_peer'' = Inr oc" using operation_contract_ok by blast
  ultimately show ?thesis
    by (simp add: admitted_operation_def validate_arguments_def dindex_def res_guard_def ARGUMENT_KEYS_def
        required_keys_def REQUIRED_ARGUMENT_KEYS_def subset_list_def keys_def MAX_ARGUMENT_DEPTH_def
        MAX_ARGUMENT_ITEMS_def MAX_ARGUMENT_BYTES_def validate_operation_arguments_def check_server_id_def del: json_dumps.simps)
qed

section \<open>Requests as a whole\<close>

text \<open>An administration request runs its action, or is refused, or leaves the state as it was.\<close>

lemma administration_route_cases:
  assumes run: "administration_request_route w cfg body who s = (r, s')"
  obtains (ran) contract r1 where "operation_contract (ab_operation body) = Inr contract"
      "permits_administration (ca_instance who) (oc_family contract)"
      "run who (''administration.'' @ ab_operation body) []
         (administration_action w cfg (ab_operation body) (ab_arguments body)) JNull False s = (r1, s')"
      "r = (case r1 of Inl e \<Rightarrow> Inl e | Inr x \<Rightarrow> Inr (JObj [(''data'', x)]))"
  | (refusal) "refused (administration_refusal who body) s r s'"
  | (escape) "escapes body" "s' = s" "\<exists>e. r = Inl e"
proof (cases "admitted who body")
  case True
  then obtain contract arguments where digest: "ab_contract_digest body = CONTRACT_DIGEST"
    and ok: "admitted_operation (ab_operation body) (ab_arguments body) = Inr (contract, arguments)"
    and family: "permits_administration (ca_instance who) (oc_family contract)"
    by (auto simp: admitted_def)
  from admitted_operation_Inr [OF ok] have same: "operation_contract (ab_operation body) = Inr contract"
    "arguments = ab_arguments body" by simp_all
  let ?run = "run who (''administration.'' @ ab_operation body) []
    (administration_action w cfg (ab_operation body) arguments) JNull False"
  obtain r1 s1 where inner: "?run s = (r1, s1)" by (cases "?run s")
  with run have "s' = s1" "r = (case r1 of Inl e \<Rightarrow> Inl e | Inr x \<Rightarrow> Inr (JObj [(''data'', x)]))"
    by (auto simp: administration_route_run [OF digest ok family] bind_op_run split: sum.splits)
  with inner same family that(1) show ?thesis by blast
next
  case False
  with administration_outcome [OF run] that(2,3) show ?thesis by blast
qed

lemma administration_route_rel:
  assumes act: "\<And>arguments. op_rel R (run who (''administration.'' @ ab_operation body) []
       (administration_action w cfg (ab_operation body) arguments) JNull False)"
    and log: "\<And>s e. R s (log_record e s)" and refl: "\<And>s. R s s"
  shows "op_rel R (administration_request_route w cfg body who)"
proof (rule op_relI)
  fix s r s' assume "administration_request_route w cfg body who s = (r, s')"
  then show "R s s'"
  proof (cases rule: administration_route_cases)
    case (ran contract r1)
    with act show ?thesis by (blast dest: op_relD)
  next
    case refusal
    with log show ?thesis by (auto simp: refused_def)
  qed (simp add: refl)
qed

lemma administration_route_unleaked: "op_rel open_same (administration_request_route w cfg body who)"
  by (rule administration_route_rel [OF vadmin.run_unleaked]) (simp_all add: open_same_def open_wf_def)

lemma administration_route_lock: "lock_free (administration_request_route w cfg body who)"
proof (rule lock_freeI)
  fix s r s'
  assume unlocked: "\<not> bs_locked s" and ret: "r \<noteq> Inl Deadlock"
    and "administration_request_route w cfg body who s = (r, s')"
  from this(3) show "\<not> bs_locked s'"
  proof (cases rule: administration_route_cases)
    case (ran contract r1)
    with ret have "r1 \<noteq> Inl Deadlock" by auto
    with lock_freeD [OF vadmin.run_lock unlocked ran(3)] show ?thesis by simp
  next
    case refusal
    with unlocked show ?thesis by (auto simp: refused_def)
  qed (simp add: unlocked)
qed

lemma contract_route_unleaked: "op_rel open_same (administration_contract_route who)"
  by (rule op_relI) (auto dest!: contract_outcome simp: refused_def open_same_def open_wf_def)

lemma contract_route_lock: "lock_free (administration_contract_route who)"
  by (rule lock_freeI) (auto dest!: contract_outcome simp: refused_def)

lemma request_route_unleaked: "op_rel open_same (route w cfg request who)"
  using secret_route_unleaked [of request w cfg who]
  by (cases request) (simp_all add: administration_route_unleaked contract_route_unleaked)

lemma request_route_lock: "lock_free (route w cfg request who)"
  using secret_route_lock [of request w cfg who]
  by (cases request) (simp_all add: administration_route_lock contract_route_lock)

text \<open>After OpenBao was contacted, an error carries a text of the broker's own.\<close>

definition fixed_error :: "broker_state \<Rightarrow> json res \<Rightarrow> broker_state \<Rightarrow> bool" where
  "fixed_error s r s' \<longleftrightarrow> (\<forall>e. r = Inl e \<longrightarrow> e = Deadlock \<or> bs_calls s' = bs_calls s \<or>
     (\<exists>status detail headers. e = HTTPException status detail headers \<and> fixed_detail detail))"

lemma fixed_error_unsent: "bs_calls s' = bs_calls s \<Longrightarrow> fixed_error s r s'"
  by (simp add: fixed_error_def)

lemma answered_fixed_error: "answered who operation path r e \<Longrightarrow> fixed_error s r s'"
  by (auto simp: answered_def fixed_error_def split: sum.splits exn.splits)

lemma administration_fixed_error:
  assumes "administration_request_route w cfg body who s = (r, s')"
  shows "fixed_error s r s'"
  using assms
proof (cases rule: administration_route_cases)
  case (ran contract r1)
  from vadmin.run_outcome [OF ran(3)] have "fixed_error s r1 s'"
    by (auto simp: fixed_error_def [of s "Inl Deadlock" s'] intro: answered_fixed_error)
  with ran(4) show ?thesis by (auto simp: fixed_error_def split: sum.splits)
next
  case refusal
  then show ?thesis by (auto simp: refused_def fixed_error_unsent)
qed (simp add: fixed_error_unsent)

lemma route_fixed_error:
  assumes run: "route w cfg request who s = (r, s')"
  shows "fixed_error s r s'"
proof (cases "secret_request request")
  case (Some q)
  then obtain path operation writes deletes where
    rq: "secret_request request = Some (path, operation, writes, deletes)" by (cases q) auto
  from secret_route_outcome [OF rq run] show ?thesis
    by (auto simp: secret_outcome_def refused_def fixed_error_unsent intro: answered_fixed_error
        split: if_split_asm) (simp add: fixed_error_def)
next
  case None
  then consider "request = AdministrationContract" | body where "request = AdministrationRequest body"
    by (cases request) auto
  then show ?thesis
  proof cases
    case 1
    with run contract_outcome [of who s r s'] show ?thesis
      by (auto simp: refused_def fixed_error_unsent)
  next
    case (2 body)
    with run administration_fixed_error [of w cfg body who s r s'] show ?thesis by simp
  qed
qed

lemma proxied_call_reviewed:
  assumes table: "proxy_table operation = Some table"
    and ok: "validate_arguments operation v = Inr arguments"
    and call: "administration_call cfg operation arguments rq"
  shows "\<exists>verb path. table_permits table verb path \<and> \<not> unsafe_path path \<and>
    (\<exists>root \<in> set REVIEWED_ROOTS. startswith path root) \<and> rq_url rq = administration_url cfg path \<and>
    rq_method rq = (if verb = ''LIST'' then ''GET'' else verb)"
proof -
  from table have "operation = ''execute_authentication_operation'' \<or> operation = ''execute_access_operation'' \<or>
      operation = ''execute_final_operation'' \<or> operation = ''execute_secret_engine_operation''"
    unfolding proxy_table_def by (simp split: if_split_asm)
  then have "List.member PROXY_OPERATIONS operation"
    unfolding PROXY_OPERATIONS_def by (elim disjE) simp_all
  with call have "proxy_http cfg operation arguments rq" by (simp add: administration_call_def)
  then obtain verb path where sent: "str_arg arguments ''method'' = Inr verb" "str_arg arguments ''path'' = Inr path"
      "rq_method rq = (if verb = ''LIST'' then ''GET'' else verb)" "rq_url rq = administration_url cfg path"
    unfolding proxy_http_def by (elim exE conjE)
  obtain verb' path' payload where checked: "dget arguments ''method'' = JStr verb'"
      "dget arguments ''path'' = JStr path'" "table_permits table verb' path'" "\<not> unsafe_path path'"
      "\<exists>r \<in> set REVIEWED_ROOTS. startswith path' r"
    using proxy_accepted [OF table ok] by (elim exE conjE)
  have "verb' = verb" "path' = path"
    using checked(1,2) str_arg_dget [OF sent(1)] str_arg_dget [OF sent(2)] by simp_all
  with checked(3-5) sent(3,4) show ?thesis by (intro exI [of _ verb] exI [of _ path] conjI) simp_all
qed

end
