(* ===== verification/Broker_Logging.thy ===== *)
theory Broker_Logging
  imports Broker_Audit
begin

text \<open>
  Where the audit line goes: \<open>configure_logging\<close> of \<^verbatim>\<open>broker/audit.py\<close> and what it uses of Python's
  \<open>logging\<close>. A logger has a level, its handlers and the flag \<open>propagate\<close>; loggers are named by dotted paths,
  the root by the empty name, and a message reaches the handlers of its logger and of those above it, as
  long as they propagate. The text of a message is not interpreted again, since it comes without arguments.
\<close>

section \<open>Loggers\<close>

datatype out_stream = Stdout | Stderr

datatype log_format = MessageOnly | LevelNameMessage

datatype severity = Debug | Info | Warning | Error | Critical

record log_handler =
  hd_stream :: out_stream
  hd_format :: log_format

record logger_config =
  lg_level :: nat
  lg_handlers :: "log_handler list"
  lg_propagate :: bool

record logging =
  lo_loggers :: "(string \<times> logger_config) list"
  lo_out :: string
  lo_err :: string

definition new_logger :: logger_config where
  "new_logger = \<lparr>lg_level = 0, lg_handlers = [], lg_propagate = True\<rparr>"

definition logger_of :: "logging \<Rightarrow> string \<Rightarrow> logger_config" where
  "logger_of lo name = (case map_of (lo_loggers lo) name of None \<Rightarrow> new_logger | Some l \<Rightarrow> l)"

definition put_logger :: "string \<Rightarrow> logger_config \<Rightarrow> logging \<Rightarrow> logging" where
  "put_logger name l lo = lo\<lparr>lo_loggers := (name, l) # filter (\<lambda>p. fst p \<noteq> name) (lo_loggers lo)\<rparr>"

text \<open>The state of \<open>logging\<close> when a process starts: the root logger at \<open>WARNING\<close>, with no handler.\<close>

definition fresh_logging :: logging where
  "fresh_logging = \<lparr>lo_loggers = [([], new_logger\<lparr>lg_level := 30\<rparr>)], lo_out = [], lo_err = []\<rparr>"

text \<open>The names a level is set by.\<close>

definition LEVELS :: "(string \<times> nat) list" where
  "LEVELS = [(''CRITICAL'', 50), (''FATAL'', 50), (''ERROR'', 40), (''WARN'', 30), (''WARNING'', 30),
     (''INFO'', 20), (''DEBUG'', 10), (''NOTSET'', 0)]"

section \<open>Configuration\<close>

definition AUDIT_LOGGER :: string where "AUDIT_LOGGER = ''netbox_openbao_broker.audit''"

text \<open>
  \<open>logging.basicConfig\<close> does nothing when the root logger has a handler; otherwise it adds one and then sets the
  level, which raises on an unknown name.
\<close>

definition basic_config :: "string \<Rightarrow> out_stream \<Rightarrow> log_format \<Rightarrow> (logging, unit) op" where
  "basic_config level stream format = (\<lambda>lo. let root = logger_of lo [] in
     if lg_handlers root \<noteq> [] then (Inr (), lo)
     else let root' = root\<lparr>lg_handlers := [\<lparr>hd_stream = stream, hd_format = format\<rparr>]\<rparr> in
       case map_of LEVELS level of
         None \<Rightarrow> (Inl (ValueError (''Unknown level: '' @ level)), put_logger [] root' lo)
       | Some n \<Rightarrow> (Inr (), put_logger [] (root'\<lparr>lg_level := n\<rparr>) lo))"

definition configure_logging :: "string \<Rightarrow> (logging, unit) op" where
  "configure_logging level = (\<lambda>lo. basic_config level Stderr LevelNameMessage
     (put_logger AUDIT_LOGGER
        \<lparr>lg_level = 20, lg_handlers = [\<lparr>hd_stream = Stdout, hd_format = MessageOnly\<rparr>], lg_propagate = False\<rparr> lo))"

section \<open>Messages\<close>

fun severity_number :: "severity \<Rightarrow> nat" where
  "severity_number Debug = 10"
| "severity_number Info = 20"
| "severity_number Warning = 30"
| "severity_number Error = 40"
| "severity_number Critical = 50"

fun severity_name :: "severity \<Rightarrow> string" where
  "severity_name Debug = ''DEBUG''"
| "severity_name Info = ''INFO''"
| "severity_name Warning = ''WARNING''"
| "severity_name Error = ''ERROR''"
| "severity_name Critical = ''CRITICAL''"

text \<open>A logger and those above it, the root last.\<close>

definition logger_chain :: "string \<Rightarrow> string list" where
  "logger_chain name = map (join_on CHR ''.'') (filter (\<lambda>ps. ps \<noteq> []) (rev (prefixes (split_on CHR ''.'' name)))) @ [[]]"

fun effective_level :: "logging \<Rightarrow> string list \<Rightarrow> nat" where
  "effective_level lo [] = 0"
| "effective_level lo (n # ns) =
     (if lg_level (logger_of lo n) \<noteq> 0 then lg_level (logger_of lo n) else effective_level lo ns)"

fun reached_handlers :: "logging \<Rightarrow> string list \<Rightarrow> log_handler list" where
  "reached_handlers lo [] = []"
| "reached_handlers lo (n # ns) =
     lg_handlers (logger_of lo n) @ (if lg_propagate (logger_of lo n) then reached_handlers lo ns else [])"

definition formatted :: "log_format \<Rightarrow> string \<Rightarrow> severity \<Rightarrow> string \<Rightarrow> string" where
  "formatted format name level text = (case format of
       MessageOnly \<Rightarrow> text
     | LevelNameMessage \<Rightarrow> severity_name level @ '' '' @ name @ '': '' @ text)"

definition NEWLINE :: char where "NEWLINE = CHR 0x0A"

definition write_to :: "out_stream \<Rightarrow> string \<Rightarrow> logging \<Rightarrow> logging" where
  "write_to stream text lo = (case stream of
       Stdout \<Rightarrow> lo\<lparr>lo_out := lo_out lo @ text @ [NEWLINE]\<rparr>
     | Stderr \<Rightarrow> lo\<lparr>lo_err := lo_err lo @ text @ [NEWLINE]\<rparr>)"

text \<open>Without any handler, a warning or worse goes to standard error (the handler of last resort).\<close>

definition log_message :: "string \<Rightarrow> severity \<Rightarrow> string \<Rightarrow> logging \<Rightarrow> logging" where
  "log_message name level text lo = (let chain = logger_chain name in
     if severity_number level < effective_level lo chain then lo
     else case reached_handlers lo chain of
         [] \<Rightarrow> if severity_number level < 30 then lo else write_to Stderr text lo
       | hs \<Rightarrow> fold (\<lambda>h. write_to (hd_stream h) (formatted (hd_format h) name level text)) hs lo)"

text \<open>
  \<open>AuditLog.__init__\<close> and \<open>record\<close>; \<open>None\<close> is an entry whose line is outside the model, which no entry of the
  broker is.
\<close>

definition audit_log_name :: "string option \<Rightarrow> string" where
  "audit_log_name logger = (case logger of None \<Rightarrow> AUDIT_LOGGER | Some name \<Rightarrow> name)"

definition record_line :: "string option \<Rightarrow> string \<Rightarrow> audit_entry \<Rightarrow> logging \<Rightarrow> logging option" where
  "record_line logger ts e lo = (case audit_line ts e of
       None \<Rightarrow> None
     | Some line \<Rightarrow> Some (log_message (audit_log_name logger) Info line lo))"

section \<open>What is written\<close>

lemma logger_of_put [simp]: "logger_of (put_logger n l lo) m = (if m = n then l else logger_of lo m)"
proof -
  have "map_of (filter (\<lambda>p. fst p \<noteq> n) xs) m = (if m = n then None else map_of xs m)"
    for xs :: "(string \<times> logger_config) list"
    by (induction xs) auto
  then show ?thesis by (simp add: logger_of_def put_logger_def)
qed

lemma put_logger_streams [simp]: "lo_out (put_logger n l lo) = lo_out lo" "lo_err (put_logger n l lo) = lo_err lo"
  by (simp_all add: put_logger_def)

lemma write_to_loggers [simp]: "logger_of (write_to st t lo) n = logger_of lo n"
  by (simp add: write_to_def logger_of_def split: out_stream.split)

lemma fold_write_loggers: "logger_of (fold (\<lambda>h. write_to (f h) (g h)) hs lo) n = logger_of lo n"
  by (induction hs arbitrary: lo) simp_all

lemma log_message_loggers [simp]: "logger_of (log_message name level text lo) n = logger_of lo n"
  by (simp add: log_message_def Let_def fold_write_loggers split: list.split)

text \<open>
  The state the broker's logging stays in: the audit logger writes its messages, and nothing but them, to
  standard output; no other logger has a handler there.
\<close>

definition others_to_stderr :: "logging \<Rightarrow> bool" where
  "others_to_stderr lo \<longleftrightarrow> (\<forall>n. n \<noteq> AUDIT_LOGGER \<longrightarrow> (\<forall>h \<in> set (lg_handlers (logger_of lo n)). hd_stream h = Stderr))"

definition audit_to_stdout :: "logging \<Rightarrow> bool" where
  "audit_to_stdout lo \<longleftrightarrow> logger_of lo AUDIT_LOGGER =
     \<lparr>lg_level = 20, lg_handlers = [\<lparr>hd_stream = Stdout, hd_format = MessageOnly\<rparr>], lg_propagate = False\<rparr>"

lemma configured:
  assumes "configure_logging level lo = (r, lo')"
  shows "audit_to_stdout lo'" and "others_to_stderr lo \<Longrightarrow> others_to_stderr lo'" and "lo_out lo' = lo_out lo"
  using assms
  by (auto simp: configure_logging_def basic_config_def Let_def AUDIT_LOGGER_def audit_to_stdout_def
      others_to_stderr_def split: if_split_asm option.split_asm)

lemma fresh_others: "others_to_stderr fresh_logging"
  by (simp add: others_to_stderr_def fresh_logging_def logger_of_def new_logger_def)

lemma audit_chain: "logger_chain AUDIT_LOGGER = [AUDIT_LOGGER, ''netbox_openbao_broker'', []]"
  by code_simp

lemma audit_written:
  assumes "audit_to_stdout lo"
  shows "log_message AUDIT_LOGGER Info text lo = lo\<lparr>lo_out := lo_out lo @ text @ [NEWLINE]\<rparr>"
  using assms by (simp add: log_message_def Let_def audit_chain audit_to_stdout_def formatted_def write_to_def)

lemma fold_write_stderr:
  "\<forall>h \<in> set hs. f h = Stderr \<Longrightarrow> lo_out (fold (\<lambda>h. write_to (f h) (g h)) hs lo) = lo_out lo"
  by (induction hs arbitrary: lo) (simp_all add: write_to_def)

lemma reached_stderr:
  "others_to_stderr lo \<Longrightarrow> AUDIT_LOGGER \<notin> set ns \<Longrightarrow> h \<in> set (reached_handlers lo ns) \<Longrightarrow> hd_stream h = Stderr"
proof (induction ns)
  case (Cons n ns)
  from Cons.prems have "n \<noteq> AUDIT_LOGGER" by auto
  with Cons.prems(1) have "\<forall>h \<in> set (lg_handlers (logger_of lo n)). hd_stream h = Stderr"
    unfolding others_to_stderr_def by blast
  with Cons show ?case by (auto split: if_split_asm)
qed simp

lemma other_unwritten:
  assumes "others_to_stderr lo" and "AUDIT_LOGGER \<notin> set (logger_chain name)"
  shows "lo_out (log_message name level text lo) = lo_out lo"
proof (cases "reached_handlers lo (logger_chain name)")
  case Nil
  then show ?thesis by (simp add: log_message_def Let_def write_to_def)
next
  case (Cons h hs)
  have "\<forall>h \<in> set (reached_handlers lo (logger_chain name)). hd_stream h = Stderr"
    using reached_stderr [OF assms] by blast
  then show ?thesis using Cons by (simp add: log_message_def Let_def write_to_def fold_write_stderr)
qed

text \<open>What happens while the broker runs: audit records, and messages of its other loggers.\<close>

datatype log_event = Audited string audit_entry | Noted string severity string

fun after_event :: "log_event \<Rightarrow> logging \<Rightarrow> logging" where
  "after_event (Audited ts e) lo = (case record_line None ts e lo of None \<Rightarrow> lo | Some lo' \<Rightarrow> lo')"
| "after_event (Noted name level text) lo = log_message name level text lo"

fun foreign :: "log_event \<Rightarrow> bool" where
  "foreign (Audited ts e) = True"
| "foreign (Noted name level text) = (AUDIT_LOGGER \<notin> set (logger_chain name))"

definition audit_lines :: "log_event list \<Rightarrow> string list" where
  "audit_lines evs = concat (map (\<lambda>ev. case ev of
     Audited ts e \<Rightarrow> (case audit_line ts e of None \<Rightarrow> [] | Some line \<Rightarrow> [line]) | Noted n l t \<Rightarrow> []) evs)"

lemma after_event_loggers [simp]: "logger_of (after_event ev lo) n = logger_of lo n"
  by (cases ev) (auto simp: record_line_def split: option.split)

lemma log_events_out:
  assumes "audit_to_stdout lo" and "others_to_stderr lo" and "\<forall>ev \<in> set evs. foreign ev"
  shows "lo_out (fold after_event evs lo) = lo_out lo @ concat (map (\<lambda>line. line @ [NEWLINE]) (audit_lines evs))"
  using assms
proof (induction evs arbitrary: lo)
  case (Cons ev evs)
  let ?lo = "after_event ev lo"
  have "lo_out ?lo = lo_out lo @ concat (map (\<lambda>line. line @ [NEWLINE]) (audit_lines [ev]))"
    using Cons.prems
    by (cases ev) (auto simp: audit_lines_def record_line_def audit_log_name_def audit_written other_unwritten split: option.split)
  moreover have "audit_to_stdout ?lo" "others_to_stderr ?lo"
    using Cons.prems by (simp_all add: audit_to_stdout_def others_to_stderr_def)
  ultimately show ?case using Cons.IH [of ?lo] Cons.prems(3) by (simp add: audit_lines_def)
qed (simp add: audit_lines_def)

lemma audit_line_single: "audit_line ts e = Some line \<Longrightarrow> NEWLINE \<notin> set line"
  using audit_line_printable [of ts e line NEWLINE] by (auto simp: printable_def NEWLINE_def)

lemma audit_lines_single: "line \<in> set (audit_lines evs) \<Longrightarrow> NEWLINE \<notin> set line"
  by (auto simp: audit_lines_def dest: audit_line_single [OF sym] split: log_event.split_asm option.split_asm)

end
