(* ===== verification/Broker_Startup.thy ===== *)
theory Broker_Startup
  imports Vault_Client Broker_Logging
begin

text \<open>
  \<^verbatim>\<open>broker/__main__.py\<close>: what has to be in place before the broker listens, from the log level on, and what it
  listens with. The server itself is outside the model; the result of \<open>main\<close> is the exit status with the text on
  standard error, the options \<open>uvicorn.run\<close> is called with, or the exception that ends the process.
\<close>

section \<open>Options\<close>

datatype cert_reqs = CertNone | CertOptional | CertRequired

text \<open>The HTTP protocol class: always one wrapped by \<open>tls_aware_protocol\<close>.\<close>

datatype http_protocol = TLSAwareHttpTools | TLSAwareH11

record server_options =
  so_host :: string
  so_port :: int
  so_ssl_certfile :: string
  so_ssl_keyfile :: string
  so_ssl_ca_certs :: string
  so_ssl_cert_reqs :: cert_reqs
  so_http :: http_protocol
  so_access_log :: bool

datatype startup = Exit nat string | Serve broker_config server_options | Raise exn

text \<open>\<open>resolve_http_protocol\<close>: \<open>h11\<close> when importing \<open>httptools\<close> fails.\<close>

definition resolve_http_protocol :: "bool \<Rightarrow> http_protocol" where
  "resolve_http_protocol has_httptools = (if has_httptools then TLSAwareHttpTools else TLSAwareH11)"

definition TLS_REQUIRED_TEXT :: string where
  "TLS_REQUIRED_TEXT = ''BROKER_TLS_CERT, BROKER_TLS_KEY, and BROKER_TLS_CLIENT_CA are all required. ''
     @ ''The broker authenticates callers by client certificate and has no other mode.''"

text \<open>\<open>os.environ.get('BROKER_LOG_LEVEL', 'INFO')\<close>: an empty value is kept.\<close>

definition log_level :: "(string \<Rightarrow> string option) \<Rightarrow> string" where
  "log_level env = (case env ''BROKER_LOG_LEVEL'' of None \<Rightarrow> ''INFO'' | Some level \<Rightarrow> level)"

text \<open>Logging is configured before anything else is looked at.\<close>

definition main ::
  "(string \<Rightarrow> string option) \<Rightarrow> (string \<Rightarrow> (openbao_table \<times> json) option) \<Rightarrow> (string \<Rightarrow> string option) \<Rightarrow>
   bool \<Rightarrow> startup" where
  "main env fs read_text has_httptools = (case fst (configure_logging (log_level env) fresh_logging) of
       Inl e \<Rightarrow> Raise e
     | Inr _ \<Rightarrow> (case load_config env fs None of
       Inl (ConfigError m) \<Rightarrow> Exit 2 (''Configuration error: '' @ m)
     | Inl e \<Rightarrow> Raise e
     | Inr config \<Rightarrow>
         (case (or_none (env ''BROKER_TLS_CERT''), or_none (env ''BROKER_TLS_KEY''),
                or_none (env ''BROKER_TLS_CLIENT_CA'')) of
            (Some cert, Some key, Some client_ca) \<Rightarrow>
              (case check_credentials env read_text config of
                 Inl (ConfigError m) \<Rightarrow> Exit 2 (''Configuration error: '' @ m)
               | Inl e \<Rightarrow> Raise e
               | Inr _ \<Rightarrow>
                   (case py_int (or_default (env ''BROKER_PORT'') ''8201'') of
                      None \<Rightarrow> Raise (ValueError ''invalid literal for int'')
                    | Some port \<Rightarrow> Serve config
                        \<lparr>so_host = or_default (env ''BROKER_HOST'') ''0.0.0.0'', so_port = port,
                         so_ssl_certfile = cert, so_ssl_keyfile = key, so_ssl_ca_certs = client_ca,
                         so_ssl_cert_reqs = CertRequired, so_http = resolve_http_protocol has_httptools,
                         so_access_log = False\<rparr>))
          | _ \<Rightarrow> Exit 2 TLS_REQUIRED_TEXT)))"

section \<open>Facts\<close>

lemma check_credentials_present:
  assumes "check_credentials env read_text cfg = Inr ()" and "name \<in> set (credential_names cfg)"
  shows "\<exists>v. read_secret_env env read_text name = Inr (Some v) \<and> v \<noteq> []"
proof -
  from assms(1) obtain vals where vs: "res_map (read_secret_env env read_text) (credential_names cfg) = Inr vals"
    and none: "filter (\<lambda>(name, v). missing_secret v) (zip (credential_names cfg) vals) = []"
    by (auto simp: check_credentials_def res_bind_Inr Let_def split: if_split_asm)
  from vs have all: "list_all2 (\<lambda>x y. read_secret_env env read_text x = Inr y) (credential_names cfg) vals"
    by (simp add: res_map_Inr)
  from assms(2) obtain i where i: "i < length (credential_names cfg)" "credential_names cfg ! i = name"
    by (auto simp: in_set_conv_nth)
  with all have read: "read_secret_env env read_text name = Inr (vals ! i)" and len: "i < length vals"
    by (auto simp: list_all2_conv_all_nth)
  with i have "(name, vals ! i) \<in> set (zip (credential_names cfg) vals)"
    by (force simp: in_set_conv_nth)
  with none have "\<not> missing_secret (vals ! i)" by (auto simp: filter_empty_conv)
  with read show ?thesis by (auto simp: missing_secret_def or_none_def split: option.splits if_split_asm)
qed

lemma configure_fresh:
  "fst (configure_logging level fresh_logging) = (case map_of LEVELS level of
     None \<Rightarrow> Inl (ValueError (''Unknown level: '' @ level)) | Some n \<Rightarrow> Inr ())"
  by (simp add: configure_logging_def basic_config_def Let_def fresh_logging_def logger_of_def put_logger_def
      new_logger_def AUDIT_LOGGER_def split: option.split)

lemma main_serves:
  assumes "main env fs read_text has_httptools = Serve cfg options"
  shows "fst (configure_logging (log_level env) fresh_logging) = Inr ()"
    and "load_config env fs None = Inr cfg" and "check_credentials env read_text cfg = Inr ()"
    and "so_ssl_cert_reqs options = CertRequired" and "\<not> so_access_log options"
    and "env ''BROKER_TLS_CERT'' = Some (so_ssl_certfile options)" "so_ssl_certfile options \<noteq> []"
    and "env ''BROKER_TLS_KEY'' = Some (so_ssl_keyfile options)" "so_ssl_keyfile options \<noteq> []"
    and "env ''BROKER_TLS_CLIENT_CA'' = Some (so_ssl_ca_certs options)" "so_ssl_ca_certs options \<noteq> []"
  using assms
  by (auto simp: main_def or_none_def split: sum.splits exn.splits option.splits if_split_asm)

end
