(* ===== verification/Broker_Telemetry.thy ===== *)
theory Broker_Telemetry
  imports Py_Json
begin

text \<open>
  \<^verbatim>\<open>broker/telemetry.py\<close> and the telemetry prologue of \<open>create_app\<close>: the two processors that
  strip caller-controlled content from what is exported, and their registration, once per provider. The
  telemetry library is outside the model: a provider is the proxy that stands for "none configured", an
  SDK provider known by a number, or something else; \<open>add_log_record_processor\<close> and
  \<open>add_span_processor\<close> append to \<open>tm_processed\<close>.
\<close>

section \<open>The processors\<close>

text \<open>\<open>ExceptionPrivacyProcessor.on_emit\<close>\<close>

record log_item =
  li_scope :: "string option"
  li_attributes :: "dict option"

definition attributes_or_empty :: "dict option \<Rightarrow> dict" where
  "attributes_or_empty a = (case a of None \<Rightarrow> [] | Some d \<Rightarrow> d)"

definition on_emit :: "log_item \<Rightarrow> log_item" where
  "on_emit r =
     (if li_scope r = Some ''fastapi''
      then r\<lparr>li_attributes := Some (dpop ''exception.stacktrace''
             (dpop ''exception.message'' (attributes_or_empty (li_attributes r))))\<rparr>
      else r)"

text \<open>\<open>QueryPrivacyProcessor.on_start\<close>\<close>

record span_item =
  sp_scope :: "string option"
  sp_attributes :: "dict option"

definition redact :: "string \<Rightarrow> span_item \<Rightarrow> span_item" where
  "redact name s =
     (if List.member (keys (attributes_or_empty (sp_attributes s))) name
      then s\<lparr>sp_attributes := Some (dput name (JStr ''REDACTED'') (attributes_or_empty (sp_attributes s)))\<rparr>
      else s)"

definition on_start :: "span_item \<Rightarrow> span_item" where
  "on_start s = (if sp_scope s \<noteq> Some ''fastapi'' then s
     else redact ''url.query'' (redact ''url.path'' s))"

section \<open>Registration\<close>

definition env_text :: "(string \<Rightarrow> string option) \<Rightarrow> string \<Rightarrow> string" where
  "env_text env name = (case env name of None \<Rightarrow> [] | Some v \<Rightarrow> v)"

text \<open>\<open>_environment_export\<close>\<close>

definition environment_export :: "(string \<Rightarrow> string option) \<Rightarrow> string \<Rightarrow> bool" where
  "environment_export env signal =
     (if lower (env_text env ''OTEL_SDK_DISABLED'') = ''true'' then False
      else
        let exporter = env_text env (''OTEL_'' @ signal @ ''_EXPORTER'') in
        lower (strip (if exporter = [] then ''otlp'' else exporter)) \<noteq> ''none'' \<and>
        (env_text env ''OTEL_EXPORTER_OTLP_ENDPOINT'' \<noteq> [] \<or>
         env_text env (''OTEL_EXPORTER_OTLP_'' @ signal @ ''_ENDPOINT'') \<noteq> []))"

datatype provider = ProxyProvider | SdkProvider nat | OtherProvider

record telemetry_state =
  tm_current :: provider
  tm_next :: nat
  tm_processed :: "nat list"
  tm_configured :: "nat list"

text \<open>The provider a configuration call works on: an explicit one, the current one, or a new one.\<close>

definition choose_provider ::
  "(string \<Rightarrow> string option) \<Rightarrow> string \<Rightarrow> provider option \<Rightarrow> bool \<Rightarrow> telemetry_state \<Rightarrow> provider \<times> telemetry_state" where
  "choose_provider env signal provider auto_configure st =
     (let p = (case provider of None \<Rightarrow> tm_current st | Some q \<Rightarrow> q) in
      if p = ProxyProvider \<and> provider = None \<and> auto_configure \<and> environment_export env signal
      then (SdkProvider (tm_next st),
            st\<lparr>tm_current := SdkProvider (tm_next st), tm_next := Suc (tm_next st)\<rparr>)
      else (p, st))"

text \<open>\<open>configure_log_privacy\<close> and \<open>configure_trace_privacy\<close>, which differ in the signal's name.\<close>

definition configure_privacy ::
  "(string \<Rightarrow> string option) \<Rightarrow> string \<Rightarrow> provider option \<Rightarrow> bool \<Rightarrow> telemetry_state \<Rightarrow> telemetry_state" where
  "configure_privacy env signal provider auto_configure st =
     (case choose_provider env signal provider auto_configure st of
        (SdkProvider n, st') \<Rightarrow>
          if List.member (tm_configured st') n then st'
          else st'\<lparr>tm_processed := tm_processed st' @ [n], tm_configured := n # tm_configured st'\<rparr>
      | (_, st') \<Rightarrow> st')"

definition configure_log_privacy ::
  "(string \<Rightarrow> string option) \<Rightarrow> provider option \<Rightarrow> bool \<Rightarrow> telemetry_state \<Rightarrow> telemetry_state" where
  "configure_log_privacy env = configure_privacy env ''LOGS''"

definition configure_trace_privacy ::
  "(string \<Rightarrow> string option) \<Rightarrow> provider option \<Rightarrow> bool \<Rightarrow> telemetry_state \<Rightarrow> telemetry_state" where
  "configure_trace_privacy env = configure_privacy env ''TRACES''"

section \<open>The prologue of \<open>create_app\<close>\<close>

record telemetry_config =
  tc_auto_configure :: "bool option"
  tc_tracing :: "bool option"
  tc_metrics :: "bool option"
  tc_logs :: "bool option"
  tc_logger_provider :: "provider option"
  tc_tracer_provider :: "provider option"

definition effective_configuration ::
  "(string \<Rightarrow> string option) \<Rightarrow> telemetry_config \<Rightarrow> telemetry_config" where
  "effective_configuration env c =
     (if lower (env_text env ''OTEL_SDK_DISABLED'') = ''true''
      then c\<lparr>tc_auto_configure := Some False, tc_tracing := Some False, tc_metrics := Some False,
             tc_logs := Some False\<rparr>
      else c)"

definition or_true :: "bool option \<Rightarrow> bool" where
  "or_true b = (case b of None \<Rightarrow> True | Some x \<Rightarrow> x)"

text \<open>The log and the trace providers are two registries of the library, hence two states.\<close>

definition configure_app_telemetry ::
  "(string \<Rightarrow> string option) \<Rightarrow> telemetry_config \<Rightarrow> telemetry_state \<Rightarrow> telemetry_state \<Rightarrow>
   telemetry_state \<times> telemetry_state" where
  "configure_app_telemetry env c logs traces =
     (let configuration = effective_configuration env c;
          auto_configure = (case tc_auto_configure configuration of Some b \<Rightarrow> b
            | None \<Rightarrow> lower (env_text env ''FASTAPI_OTEL_AUTO_CONFIGURE'') = ''true'')
      in (configure_log_privacy env (tc_logger_provider configuration)
            (auto_configure \<and> or_true (tc_logs configuration)) logs,
          configure_trace_privacy env (tc_tracer_provider configuration)
            (auto_configure \<and> or_true (tc_tracing configuration)) traces))"

section \<open>Facts\<close>

lemma on_emit_private:
  assumes "li_scope r = Some ''fastapi''"
  shows "\<exists>d. li_attributes (on_emit r) = Some d \<and>
    (\<forall>k. map_of d k = (if k \<in> {''exception.message'', ''exception.stacktrace''} then None
                       else map_of (attributes_or_empty (li_attributes r)) k))"
  using assms by (simp add: on_emit_def map_of_dpop)

lemma redact_attributes:
  "map_of (attributes_or_empty (sp_attributes (redact name s))) k =
     (if k = name \<and> k \<in> set (keys (attributes_or_empty (sp_attributes s))) then Some (JStr ''REDACTED'')
      else map_of (attributes_or_empty (sp_attributes s)) k)"
  by (auto simp: redact_def attributes_or_empty_def)

lemma keys_map_of: "k \<in> set (keys d) \<longleftrightarrow> map_of d k \<noteq> None"
  by (simp add: keys_def map_of_eq_None_iff)

lemma redact_scope [simp]: "sp_scope (redact name s) = sp_scope s"
  by (simp add: redact_def)

lemma on_start_attributes:
  assumes "sp_scope s = Some ''fastapi''"
  shows "map_of (attributes_or_empty (sp_attributes (on_start s))) k =
     (if k \<in> {''url.path'', ''url.query''} \<and> map_of (attributes_or_empty (sp_attributes s)) k \<noteq> None
      then Some (JStr ''REDACTED'') else map_of (attributes_or_empty (sp_attributes s)) k)"
  using assms by (simp add: on_start_def redact_attributes keys_map_of)

text \<open>A provider is processed once, exactly if it is among the configured ones.\<close>

definition telemetry_inv :: "telemetry_state \<Rightarrow> bool" where
  "telemetry_inv st \<longleftrightarrow> distinct (tm_processed st) \<and> set (tm_processed st) = set (tm_configured st)"

lemma choose_provider_same:
  "choose_provider env signal provider auto st = (p, st') \<Longrightarrow>
   tm_processed st' = tm_processed st \<and> tm_configured st' = tm_configured st"
  by (auto simp: choose_provider_def Let_def split: if_split_asm)

lemma configure_privacy_inv:
  assumes "telemetry_inv st"
  shows "telemetry_inv (configure_privacy env signal provider auto st)"
proof -
  obtain p st' where c: "choose_provider env signal provider auto st = (p, st')"
    by (cases "choose_provider env signal provider auto st")
  from assms choose_provider_same [OF c] have "telemetry_inv st'" by (simp add: telemetry_inv_def)
  with c show ?thesis by (cases p) (auto simp: configure_privacy_def telemetry_inv_def)
qed

text \<open>An SDK provider is protected whenever a configuration call has worked on it.\<close>

lemma configure_privacy_protects:
  assumes "choose_provider env signal provider auto st = (SdkProvider n, st')" and "telemetry_inv st"
  shows "n \<in> set (tm_processed (configure_privacy env signal provider auto st))"
  using assms choose_provider_same [OF assms(1)]
  by (auto simp: configure_privacy_def telemetry_inv_def)

lemma configure_privacy_explicit: "choose_provider env signal (Some q) auto st = (q, st)"
  by (simp add: choose_provider_def)

lemma configure_privacy_idem:
  "configure_privacy env signal (Some q) auto (configure_privacy env signal (Some q) auto st) =
   configure_privacy env signal (Some q) auto st"
  by (cases q) (simp_all add: configure_privacy_def configure_privacy_explicit)

end
