(* ===== verification/Release.thy ===== *)
theory Release
  imports Py_Regex Sha256 Vault_State
begin

text \<open>
  The release scripts under \<^verbatim>\<open>scripts/\<close>: the routing of an event to a package index, the check of
  the built distribution pair with its manifest, and the binding of a release tag to reviewed source, and what each of them writes. The
  \<open>git\<close> program and the TOML parser are parameters; a directory is the list of its entries. Both scripts'
  own exception classes are subclasses of \<open>ValueError\<close>, which is what they are here.
\<close>

section \<open>Routing\<close>

record release_route =
  ro_event :: string
  ro_target :: string
  ro_repository_url :: string

definition new_release_route :: "string \<Rightarrow> string \<Rightarrow> string \<Rightarrow> release_route" where
  "new_release_route event target url = \<lparr>ro_event = event, ro_target = target, ro_repository_url = url\<rparr>"

definition ROUTES :: "((string \<times> string) \<times> release_route) list" where
  "ROUTES =
    [((''push'', ''''), new_release_route ''rc'' ''testpypi'' ''https://test.pypi.org/legacy/''),
     ((''release'', ''''), new_release_route ''final'' ''pypi'' ''https://upload.pypi.org/legacy/''),
     ((''workflow_dispatch'', ''pypi''), new_release_route ''final'' ''pypi'' ''https://upload.pypi.org/legacy/''),
     ((''workflow_dispatch'', ''testpypi''),
        new_release_route ''final'' ''testpypi'' ''https://test.pypi.org/legacy/'')]"

definition select_release_route :: "string \<Rightarrow> string \<Rightarrow> release_route res" where
  "select_release_route event_name dispatch_target =
     (let target = (if event_name = ''workflow_dispatch'' then dispatch_target else '''')
      in case map_of ROUTES (event_name, target) of
           None \<Rightarrow> Inl (ValueError ''Unsupported public release event or target'')
         | Some r \<Rightarrow> Inr r)"

section \<open>Distributions\<close>

definition DIGIT_RX :: rx where "DIGIT_RX = RSet [(CHR ''0'', CHR ''9'')]"
definition POSITIVE_RX :: rx where "POSITIVE_RX = RSeq (RSet [(CHR ''1'', CHR ''9'')]) (RStar DIGIT_RX)"
definition NUMBER_RX :: rx where "NUMBER_RX = RAlt (rlit ''0'') POSITIVE_RX"

definition SHA_RE :: rx where
  "SHA_RE = RRep 40 40 (RSet [(CHR ''a'', CHR ''f''), (CHR ''0'', CHR ''9'')])"

definition VERSION_RE :: rx where
  "VERSION_RE = rcat [NUMBER_RX, rlit ''.'', NUMBER_RX, rlit ''.'', NUMBER_RX,
     ropt (RAlt (RSeq (rlit ''rc'') POSITIVE_RX) (RSeq (rlit ''.post'') POSITIVE_RX))]"

definition validate_identity :: "string \<Rightarrow> string \<Rightarrow> unit res" where
  "validate_identity version source_sha =
     res_guard (fullmatch VERSION_RE version \<and> fullmatch SHA_RE source_sha)
       (ValueError ''Release identity is invalid'')"

record dist_entry =
  de_name :: string
  de_is_file :: bool
  de_is_symlink :: bool
  de_content :: string

definition wheel_name :: "string \<Rightarrow> string" where
  "wheel_name version =
     ''netbox_openbao_broker-'' @ replace_char CHR ''-'' CHR ''_'' version @ ''-py3-none-any.whl''"

definition sdist_name :: "string \<Rightarrow> string" where
  "sdist_name version = ''netbox_openbao_broker-'' @ replace_char CHR ''-'' CHR ''_'' version @ ''.tar.gz''"

definition release_files :: "dist_entry list \<Rightarrow> string \<Rightarrow> dist_entry list res" where
  "release_files dist_dir version =
     (let files = sort_key de_name (filter de_is_file dist_dir);
          wheels = filter (\<lambda>p. endswith (de_name p) ''.whl'') files;
          sdists = filter (\<lambda>p. endswith (de_name p) ''.tar.gz'') files
      in if length files \<noteq> 2 \<or> length wheels \<noteq> 1 \<or> length sdists \<noteq> 1
         then Inl (ValueError ''Release must contain exactly one wheel and one sdist'')
         else if set (map de_name files) \<noteq> {wheel_name version, sdist_name version} \<or> list_ex de_is_symlink files
         then Inl (ValueError ''Release artifact identity is invalid'')
         else Inr files)"

definition artifact_record :: "dist_entry \<Rightarrow> json res" where
  "artifact_record p =
     (if de_content p = [] then Inl (ValueError ''Release artifact is empty'')
      else Inr (JObj [(''name'', JStr (de_name p)), (''sha256'', JStr (sha256_hex (de_content p))),
                      (''size'', JInt (int (length (de_content p))))]))"

text \<open>The files are listed before the first of them is read, as the comprehension does.\<close>

definition create_manifest :: "dist_entry list \<Rightarrow> string \<Rightarrow> string \<Rightarrow> json res" where
  "create_manifest dist_dir version source_sha =
     res_bind (validate_identity version source_sha) (\<lambda>_.
     res_bind (release_files dist_dir version) (\<lambda>files.
     res_bind (res_map artifact_record files) (\<lambda>artifacts.
     Inr (JObj [(''artifacts'', JArr artifacts), (''package'', JStr ''netbox-openbao-broker''),
                (''schema'', JInt 1), (''source_sha'', JStr source_sha), (''version'', JStr version)]))))"

section \<open>Release references\<close>

definition DOTTED_RX :: rx where
  "DOTTED_RX = (let number = RSeq DIGIT_RX (RStar DIGIT_RX) in
     rcat [number, rlit ''.'', number, rlit ''.'', number])"

definition RC_TAG_RE :: rx where
  "RC_TAG_RE = rcat [rlit ''v'', DOTTED_RX, rlit ''rc'', POSITIVE_RX]"

definition FINAL_TAG_RE :: rx where
  "FINAL_TAG_RE = rcat [rlit ''v'', DOTTED_RX, ropt (RSeq (rlit ''.post'') POSITIVE_RX)]"

text \<open>\<open>git\<close> answers its arguments with an exit status and its standard output.\<close>

type_synonym git = "string list \<Rightarrow> int \<times> string"

definition git_output :: "git \<Rightarrow> string list \<Rightarrow> string res" where
  "git_output git arguments = (case git arguments of (status, out) \<Rightarrow>
     if status \<noteq> 0 then Inl (ValueError ''Git could not validate the release ref'') else Inr (strip out))"

definition declared_version :: "git \<Rightarrow> (string \<Rightarrow> json option) \<Rightarrow> string \<Rightarrow> string res" where
  "declared_version git toml source_sha =
     res_bind (git_output git [''ls-tree'', source_sha, ''--'', ''pyproject.toml'']) (\<lambda>row.
     case split_ws row of
       [f0, f1, f2, f3] \<Rightarrow>
         if f1 \<noteq> ''blob'' \<or> \<not> fullmatch SHA_RE f2
         then Inl (ValueError ''Tagged package metadata is unavailable'')
         else
           res_bind (git_output git [''cat-file'', ''blob'', f2]) (\<lambda>blob.
           case toml blob of
             None \<Rightarrow> Inl (ValueError ''Tagged package version is unavailable'')
           | Some document \<Rightarrow>
               (case res_bind (json_index document ''project'') (\<lambda>project. json_index project ''version'') of
                  Inr (JStr version) \<Rightarrow> Inr version
                | _ \<Rightarrow> Inl (ValueError ''Tagged package version is unavailable'')))
     | _ \<Rightarrow> Inl (ValueError ''Tagged package metadata is unavailable''))"

definition tag_pattern :: "string \<Rightarrow> rx res" where
  "tag_pattern event =
     (if event = ''rc'' then Inr RC_TAG_RE else if event = ''final'' then Inr FINAL_TAG_RE
      else Inl (ValueError ''Release event is unsupported''))"

record release_identity =
  ri_source_sha :: string
  ri_tag :: string
  ri_tag_object :: string
  ri_version :: string

definition validate_release_ref ::
  "git \<Rightarrow> (string \<Rightarrow> json option) \<Rightarrow> string \<Rightarrow> string \<Rightarrow> string \<Rightarrow> release_identity res" where
  "validate_release_ref git toml tag event expected_head =
     res_bind (tag_pattern event) (\<lambda>pattern.
     res_bind (res_guard (fullmatch pattern tag) (ValueError ''Release tag does not match its event'')) (\<lambda>_.
     res_bind (git_output git [''cat-file'', ''-t'', ''refs/release-policy/candidate'']) (\<lambda>kind.
     res_bind (res_guard (kind = ''tag'') (ValueError ''Release tag must be annotated'')) (\<lambda>_.
     res_bind (git_output git [''rev-parse'', ''refs/release-policy/candidate'']) (\<lambda>tag_object.
     res_bind (git_output git [''rev-parse'', ''refs/release-policy/candidate^{commit}'']) (\<lambda>source_sha.
     res_bind (git_output git [''rev-parse'', ''refs/release-policy/main^{commit}'']) (\<lambda>main_sha.
     res_bind (res_guard (list_all (fullmatch SHA_RE) [tag_object, source_sha, main_sha])
       (ValueError ''Release object identity is invalid'')) (\<lambda>_.
     res_bind (res_guard (expected_head = [] \<or> source_sha = expected_head)
       (ValueError ''Checked-out source differs from the release tag'')) (\<lambda>_.
     res_bind (res_guard (event \<noteq> ''final'' \<or> source_sha = main_sha)
       (ValueError ''Final release tag must equal canonical main'')) (\<lambda>_.
     res_bind (res_guard (event \<noteq> ''rc'' \<or>
         fst (git [''merge-base'', ''--is-ancestor'', source_sha, main_sha]) = 0)
       (ValueError ''Release tag source is not on canonical main'')) (\<lambda>_.
     res_bind (declared_version git toml source_sha) (\<lambda>declared.
     res_bind (res_guard (declared = removeprefix tag ''v'')
       (ValueError ''Tagged package version differs from the tag'')) (\<lambda>_.
     Inr \<lparr>ri_source_sha = source_sha, ri_tag = tag, ri_tag_object = tag_object,
          ri_version = removeprefix tag ''v''\<rparr>)))))))))))))"

section \<open>Facts\<close>

text \<open>The index a route names is the one its upload goes to.\<close>

lemma route_targets:
  assumes "select_release_route event_name dispatch_target = Inr r"
  shows "ro_target r = ''pypi'' \<longleftrightarrow> event_name = ''release'' \<or>
      (event_name = ''workflow_dispatch'' \<and> dispatch_target = ''pypi'')"
    and "ro_repository_url r = (if ro_target r = ''pypi'' then ''https://upload.pypi.org/legacy/''
      else ''https://test.pypi.org/legacy/'')"
    and "ro_event r = ''rc'' \<longleftrightarrow> event_name = ''push''"
  using assms
  by (auto simp: select_release_route_def ROUTES_def new_release_route_def Let_def split: if_split_asm)

lemma artifact_record_Inr:
  "artifact_record p = Inr v \<longleftrightarrow> de_content p \<noteq> [] \<and> v = JObj [(''name'', JStr (de_name p)),
     (''sha256'', JStr (sha256_hex (de_content p))), (''size'', JInt (int (length (de_content p))))]"
  by (auto simp: artifact_record_def)

text \<open>What is released: the two files of the version, each with the digest of what was read.\<close>

lemma length_two: "length xs = 2 \<Longrightarrow> \<exists>p q. xs = [p, q]"
  by (auto simp: numeral_2_eq_2 length_Suc_conv)

lemma manifest_artifacts:
  assumes "create_manifest dist_dir version source_sha = Inr m"
  shows "\<exists>p q. map de_name [p, q] = sort [de_name p, de_name q] \<and>
    {de_name p, de_name q} = {wheel_name version, sdist_name version} \<and>
    set (filter de_is_file dist_dir) = {p, q} \<and> \<not> de_is_symlink p \<and> \<not> de_is_symlink q \<and>
    de_content p \<noteq> [] \<and> de_content q \<noteq> [] \<and> fullmatch VERSION_RE version \<and> fullmatch SHA_RE source_sha \<and>
    m = JObj [(''artifacts'', JArr (map (\<lambda>f. JObj [(''name'', JStr (de_name f)),
           (''sha256'', JStr (sha256_hex (de_content f))), (''size'', JInt (int (length (de_content f))))]) [p, q])),
        (''package'', JStr ''netbox-openbao-broker''), (''schema'', JInt 1),
        (''source_sha'', JStr source_sha), (''version'', JStr version)]"
proof -
  let ?files = "sort_key de_name (filter de_is_file dist_dir)"
  from assms obtain artifacts where identity: "fullmatch VERSION_RE version" "fullmatch SHA_RE source_sha"
    and files: "release_files dist_dir version = Inr ?files"
    and artifacts: "res_map artifact_record ?files = Inr artifacts"
    and m: "m = JObj [(''artifacts'', JArr artifacts), (''package'', JStr ''netbox-openbao-broker''),
      (''schema'', JInt 1), (''source_sha'', JStr source_sha), (''version'', JStr version)]"
    by (auto simp: create_manifest_def validate_identity_def res_bind_Inr release_files_def Let_def
        split: if_split_asm)
  from files have two: "length ?files = 2"
    and names: "set (map de_name ?files) = {wheel_name version, sdist_name version}"
    and links: "\<not> list_ex de_is_symlink ?files"
    by (auto simp: release_files_def Let_def split: if_split_asm)
  from two obtain p q where pq: "?files = [p, q]"
    using length_two by blast
  have "sorted (map de_name ?files)" by (rule sorted_sort_key)
  with pq have "de_name p \<le> de_name q" by simp
  then have order: "map de_name [p, q] = sort [de_name p, de_name q]" by simp
  have "set (filter de_is_file dist_dir) = set ?files" by simp
  with pq have entries: "set (filter de_is_file dist_dir) = {p, q}" by auto
  from artifacts pq have "de_content p \<noteq> [] \<and> de_content q \<noteq> [] \<and>
      artifacts = map (\<lambda>f. JObj [(''name'', JStr (de_name f)),
        (''sha256'', JStr (sha256_hex (de_content f))), (''size'', JInt (int (length (de_content f))))]) [p, q]"
    by (auto simp: res_bind_Inr artifact_record_Inr)
  moreover from pq names have "{de_name p, de_name q} = {wheel_name version, sdist_name version}" by simp
  moreover from pq links have "\<not> de_is_symlink p" "\<not> de_is_symlink q" by simp_all
  ultimately show ?thesis using order entries identity m by (intro exI [of _ p] exI [of _ q] conjI) simp_all
qed

text \<open>What a validated tag is bound to.\<close>

lemma validated_ref:
  assumes "validate_release_ref git toml tag event expected_head = Inr r"
  shows "event \<in> {''rc'', ''final''}" and "fullmatch SHA_RE (ri_source_sha r)"
    and "ri_tag r = tag" and "tag = ''v'' @ ri_version r"
    and "declared_version git toml (ri_source_sha r) = Inr (ri_version r)"
    and "git_output git [''rev-parse'', ''refs/release-policy/candidate^{commit}''] = Inr (ri_source_sha r)"
    and "expected_head \<noteq> [] \<Longrightarrow> ri_source_sha r = expected_head"
    and "event = ''final'' \<Longrightarrow>
      git_output git [''rev-parse'', ''refs/release-policy/main^{commit}''] = Inr (ri_source_sha r)"
    and "event = ''rc'' \<Longrightarrow> \<exists>main_sha.
      git_output git [''rev-parse'', ''refs/release-policy/main^{commit}''] = Inr main_sha \<and>
      fst (git [''merge-base'', ''--is-ancestor'', ri_source_sha r, main_sha]) = 0"
proof -
  note run = assms [unfolded validate_release_ref_def]
  from run obtain pattern where pattern: "tag_pattern event = Inr pattern" "fullmatch pattern tag"
    by (auto simp: res_bind_Inr)
  then show "event \<in> {''rc'', ''final''}" by (auto simp: tag_pattern_def split: if_split_asm)
  from pattern have "rx_matches pattern tag" "pattern = RC_TAG_RE \<or> pattern = FINAL_TAG_RE"
    by (auto simp: tag_pattern_def fullmatch_correct split: if_split_asm)
  then obtain t where "tag = ''v'' @ t"
    unfolding RC_TAG_RE_def FINAL_TAG_RE_def by (elim disjE) (auto simp only: rcat_lit_matches)
  moreover from run have "ri_version r = removeprefix tag ''v''" by (auto simp: res_bind_Inr)
  ultimately show "tag = ''v'' @ ri_version r" by (simp add: removeprefix_def)
  from run show "fullmatch SHA_RE (ri_source_sha r)" and "ri_tag r = tag"
    and "declared_version git toml (ri_source_sha r) = Inr (ri_version r)"
    and "git_output git [''rev-parse'', ''refs/release-policy/candidate^{commit}''] = Inr (ri_source_sha r)"
    and "expected_head \<noteq> [] \<Longrightarrow> ri_source_sha r = expected_head"
    and "event = ''final'' \<Longrightarrow>
      git_output git [''rev-parse'', ''refs/release-policy/main^{commit}''] = Inr (ri_source_sha r)"
    and "event = ''rc'' \<Longrightarrow> \<exists>main_sha.
      git_output git [''rev-parse'', ''refs/release-policy/main^{commit}''] = Inr main_sha \<and>
      fst (git [''merge-base'', ''--is-ancestor'', ri_source_sha r, main_sha]) = 0"
    by (auto simp: res_bind_Inr)
qed

section \<open>What the scripts write\<close>

text \<open>\<open>print("\t".join(route))\<close>\<close>

definition TAB :: char where "TAB = CHR 0x09"
definition LINE_END :: char where "LINE_END = CHR 0x0A"

definition route_line :: "release_route \<Rightarrow> string" where
  "route_line r = join_on TAB [ro_event r, ro_target r, ro_repository_url r] @ [LINE_END]"

definition select_release_route_main :: "string \<Rightarrow> string \<Rightarrow> string res" where
  "select_release_route_main event_name dispatch_target =
     res_bind (select_release_route event_name dispatch_target) (\<lambda>r. Inr (route_line r))"

text \<open>The text of the manifest; it has no floating-point number, so that it can always be written.\<close>

definition validate_distributions_main :: "dist_entry list \<Rightarrow> string \<Rightarrow> string \<Rightarrow> string option res" where
  "validate_distributions_main dist_dir version source_sha =
     res_bind (create_manifest dist_dir version source_sha) (\<lambda>m.
     Inr (map_option (\<lambda>t. t @ [LINE_END]) (json_dumps (sort_json m))))"

text \<open>\<open>stream.write(f"{key}={value}\n")\<close> for each of the values, at the end of the file.\<close>

definition output_line :: "string \<times> string \<Rightarrow> string" where
  "output_line p = fst p @ ''='' @ snd p @ [LINE_END]"

definition output_values :: "release_identity \<Rightarrow> (string \<times> string) list" where
  "output_values r = [(''source_sha'', ri_source_sha r), (''tag'', ri_tag r),
     (''tag_object'', ri_tag_object r), (''version'', ri_version r)]"

definition validate_release_ref_main ::
  "git \<Rightarrow> (string \<Rightarrow> json option) \<Rightarrow> string \<Rightarrow> string \<Rightarrow> string \<Rightarrow> string \<Rightarrow> string res" where
  "validate_release_ref_main git toml tag event expected_head existing =
     res_bind (validate_release_ref git toml tag event expected_head) (\<lambda>r.
     Inr (existing @ concat (map output_line (output_values r))))"

lemma one_line: "fullmatch r s \<Longrightarrow> \<not> in_class c (rx_class r) \<Longrightarrow> c \<notin> set s"
  using rx_matches_class by (auto simp: fullmatch_correct)

lemma release_classes:
  "\<not> in_class LINE_END (rx_class SHA_RE)" "\<not> in_class LINE_END (rx_class RC_TAG_RE)"
  "\<not> in_class LINE_END (rx_class FINAL_TAG_RE)" "\<not> in_class LINE_END (rx_class VERSION_RE)"
  by code_simp+

text \<open>None of the values of a validated tag holds a line end.\<close>

lemma validated_lines:
  assumes "validate_release_ref git toml tag event expected_head = Inr r" and "(k, v) \<in> set (output_values r)"
  shows "LINE_END \<notin> set v"
proof -
  note run = assms(1) [unfolded validate_release_ref_def]
  from run obtain pattern where "tag_pattern event = Inr pattern" "fullmatch pattern tag" by (auto simp: res_bind_Inr)
  then have tag: "LINE_END \<notin> set tag"
    using one_line [of pattern tag LINE_END] release_classes by (auto simp: tag_pattern_def split: if_split_asm)
  have "LINE_END \<notin> set (ri_version r)"
    using validated_ref(4) [OF assms(1)] tag by auto
  moreover from run have "fullmatch SHA_RE (ri_tag_object r)" "fullmatch SHA_RE (ri_source_sha r)"
    by (auto simp: res_bind_Inr)
  then have "LINE_END \<notin> set (ri_tag_object r)" "LINE_END \<notin> set (ri_source_sha r)"
    using one_line release_classes by blast+
  ultimately show ?thesis using assms(2) tag validated_ref(3) [OF assms(1)] by (auto simp: output_values_def)
qed

lemma release_lines:
  assumes "validate_release_ref git toml tag event expected_head = Inr r"
  shows "split_on LINE_END (concat (map output_line (output_values r))) =
    map (\<lambda>(k, v). k @ ''='' @ v) (output_values r) @ [[]]"
proof -
  have eq: "map output_line (output_values r) =
      map (\<lambda>w. w @ [LINE_END]) (map (\<lambda>(k, v). k @ ''='' @ v) (output_values r))"
    by (simp add: output_line_def output_values_def)
  have keys: "LINE_END \<notin> set k" if "(k, v) \<in> set (output_values r)" for k v
    using that by (auto simp: output_values_def LINE_END_def)
  have "LINE_END \<notin> set w" if "w \<in> set (map (\<lambda>(k, v). k @ ''='' @ v) (output_values r))" for w
  proof -
    from that obtain k v where kv: "(k, v) \<in> set (output_values r)" and w: "w = k @ ''='' @ v" by auto
    from keys [OF kv] validated_lines [OF assms kv] show ?thesis unfolding w by (simp add: LINE_END_def)
  qed
  then show ?thesis unfolding eq by (intro split_terminated) blast
qed

end
