(* ===== verification/Broker_Examples.thy ===== *)
theory Broker_Examples
  imports App_Administration Broker_Startup Broker_Telemetry Release
begin

text \<open>
  One configuration, one OpenBao and a few requests, on which the properties are applied: the configuration is
  loaded from a document, the worlds answer every call with a fixed response.
\<close>

definition sample_document :: "string \<Rightarrow> (openbao_table \<times> json) option" where
  "sample_document path = (if path = DEFAULT_CONFIG_PATH then Some
     (\<lparr>ob_url = Some ''https://bao:8200/'', ob_kv_mount = None, ob_namespace = None, ob_auth_method = None,
       ob_env_prefix = None, ob_tls_verify = None, ob_ca_cert_path = None\<rparr>,
      JObj [(''netbox-a'', JObj [(''path_prefixes'', JArr [JStr ''netbox'']), (''may_write'', JBool True),
              (''administration_families'', JArr [JStr ''cluster'', JStr ''authentication''])]),
            (''netbox-b'', JObj [(''path_prefixes'', JArr [JStr ''lab/b''])])]) else None)"

definition sample_env :: "string \<Rightarrow> string option" where
  "sample_env = map_of [(''BROKER_BAO_ROLE_ID'', ''role''), (''BROKER_BAO_SECRET_ID'', ''secret''),
     (''BROKER_TLS_CERT'', ''/tls/cert''), (''BROKER_TLS_KEY'', ''/tls/key''), (''BROKER_TLS_CLIENT_CA'', ''/tls/ca'')]"

definition sample_policy :: instance_policy where
  "sample_policy = \<lparr>ip_name = ''netbox-a'', path_prefixes = [''netbox''], may_write = True, may_delete = False,
     administration_families = [''authentication'', ''cluster'']\<rparr>"

definition sample_config :: broker_config where
  "sample_config = \<lparr>openbao_url = ''https://bao:8200'', kv_mount = ''secret'', namespace = None,
     auth_method = ''approle'', env_prefix = ''BROKER_BAO'', tls_verify = True, ca_cert_path = None,
     instances = [(''netbox-a'', sample_policy),
       (''netbox-b'', \<lparr>ip_name = ''netbox-b'', path_prefixes = [''lab/b''], may_write = False,
          may_delete = False, administration_families = []\<rparr>)]\<rparr>"

lemma sample_config_loaded: "load_config sample_env sample_document None = Inr sample_config"
  by code_simp

definition sample_cert :: "string \<Rightarrow> json" where
  "sample_cert name = JObj [(''subject'', JArr [JArr [JArr [JStr ''commonName'', JStr name]]])]"

definition sample_tls :: "json \<Rightarrow> ssl_object" where
  "sample_tls cert = \<lparr>ssl_peercert = cert, ssl_cipher = JNull, ssl_version = JStr ''TLSv1.3''\<rparr>"

definition sample_scope :: "json \<Rightarrow> dict" where
  "sample_scope cert = [(''extensions'', JObj [(''tls'', tls_extension (sample_tls cert))])]"

definition sample_world :: world where
  "sample_world =
     \<lparr>w_login = (\<lambda>calls c. Inr (JObj [(''auth'', JObj [(''client_token'', JStr ''t1'')])])),
      w_kv = (\<lambda>calls c. Inr (JObj [(''data'', JObj [(''data'', JObj [(''key'', JStr ''value'')]),
        (''version'', JInt 3), (''versions'', JObj [(''1'', JObj []), (''2'', JObj [])])])])),
      w_health = (\<lambda>calls c. Inl LibRequest),
      w_http = (\<lambda>calls rq. Inr \<lparr>rs_status = 200, rs_is_redirect = False, rs_headers = [],
        rs_chunks = [''{}''], rs_failure = None\<rparr>),
      w_json_loads = (\<lambda>t. if t = ''{}'' then Some (JObj []) else None),
      w_fromisoformat = (\<lambda>t. False), w_env = sample_env, w_read_text = (\<lambda>calls path. None)\<rparr>"

definition refusing_world :: world where
  "refusing_world = sample_world\<lparr>w_login := \<lambda>calls c. Inl (LibHvac HvForbidden ''permission denied'')\<rparr>"

definition sample_read :: "string \<Rightarrow> route_request" where
  "sample_read path = ReadSecret \<lparr>rp_path = path, rr_version = None\<rparr>"

lemma sample_tls_scope: "tls_scope (sample_cert name) (sample_scope (sample_cert name))"
proof -
  have "string_names (sample_cert name)"
    by (auto simp: string_names_def has_common_name_def sample_cert_def subject_of_def unpack_pair_def res_bind_def)
  moreover have "set_scope [] \<lparr>tp_ssl_object = Some (sample_tls (sample_cert name)), tp_scope = None\<rparr> =
    Inr \<lparr>tp_ssl_object = Some (sample_tls (sample_cert name)), tp_scope = Some (sample_scope (sample_cert name))\<rparr>"
    by (simp add: set_scope_def sample_scope_def)
  ultimately show ?thesis unfolding tls_scope_def
    by (intro conjI exI) (auto simp: sample_tls_def)
qed

definition sample_caller :: caller where
  "sample_caller = \<lparr>ca_instance = sample_policy, ca_request_id = ''r1''\<rparr>"

lemma sample_config_wf: "wf_config sample_config"
  by (rule load_config_wf [OF sample_config_loaded])

lemma sample_policy_wf: "wf_policy sample_policy"
  using sample_config_wf by (auto simp: wf_config_def sample_config_def)

definition sample_client :: hvac_client where
  "sample_client = (new_hvac_client sample_config 30)\<lparr>hc_token := Some (JStr ''t1'')\<rparr>"

lemma sample_versions:
  "\<exists>rows. version_rows (JObj [(''versions'', JObj [(''1'', JObj []), (''10'', JObj []), (''2'', JObj [])])]) = Inr rows \<and>
     map fst rows = [10, 2, 1]"
proof -
  let ?r = "version_rows (JObj [(''versions'', JObj [(''1'', JObj []), (''10'', JObj []), (''2'', JObj [])])])"
  have "(case ?r of Inr rows \<Rightarrow> map fst rows = [10, 2, 1] | Inl e \<Rightarrow> False)" by code_simp
  then show ?thesis by (auto split: sum.splits)
qed

lemma sample_credentials:
  "read_secret_env sample_env read_text ''BROKER_BAO_ROLE_ID'' = Inr (Some ''role'')"
  "read_secret_env sample_env read_text ''BROKER_BAO_SECRET_ID'' = Inr (Some ''secret'')"
  by code_simp+

lemma refusing_login: "login_refused refusing_world sample_config s"
  using sample_credentials
  by (simp add: login_refused_def refusing_world_def sample_world_def sample_config_def missing_secret_def or_none_def)

lemma sample_login: "\<not> login_refused sample_world sample_config s"
  by (simp add: login_refused_def sample_world_def)

lemmas schema_defs = openapi_value_body_def resolve_advertised_schema_def openapi_common_keywords_def
  openapi_typed_value_def SCHEMA_TYPES_def openapi_object_def field_schema_def openapi_scalar_constraints_def
  openapi_scalar_matches_def Let_def keys_def

lemmas table_defs = IMPLEMENTED_OPERATIONS_def ARGUMENT_KEYS_def required_keys_def REQUIRED_ARGUMENT_KEYS_def
  subset_list_def keys_def MAX_ARGUMENT_DEPTH_def MAX_ARGUMENT_ITEMS_def MAX_ARGUMENT_BYTES_def MAX_ARGUMENT_STRING_def

lemma short_ok: "length (the (json_dumps v)) < 200 \<Longrightarrow> length (the (json_dumps v)) \<le> MAX_ARGUMENT_BYTES"
  by (simp add: MAX_ARGUMENT_BYTES_def)

lemma sample_unseal:
  "validate_arguments ''unseal'' (JObj [(''key'', JStr ''shard'')]) = Inr [(''key'', JStr ''shard'')]"
proof (rule validate_arguments_ok)
  show "length (the (json_dumps (JObj [(''key'', JStr ''shard'')]))) \<le> MAX_ARGUMENT_BYTES"
    by (rule short_ok) code_simp
  show "validate_operation_arguments ''unseal'' [(''key'', JStr ''shard'')] = Inr ()"
    by (simp add: validate_operation_arguments_def validate_unseal_def Let_def optional_boolean_def keys_def res_guard_def)
qed (simp_all add: table_defs)+

lemma sample_engine:
  "validate_arguments ''execute_secret_engine_operation'' (JObj [(''method'', JStr ''LIST''),
      (''path'', JStr ''/sys/mounts''), (''payload'', JObj [])]) =
     Inr [(''method'', JStr ''LIST''), (''path'', JStr ''/sys/mounts''), (''payload'', JObj [])]"
proof (rule validate_arguments_ok)
  show "length (the (json_dumps (JObj [(''method'', JStr ''LIST''), (''path'', JStr ''/sys/mounts''),
      (''payload'', JObj [])]))) \<le> MAX_ARGUMENT_BYTES"
    by (rule short_ok) code_simp
  show "validate_operation_arguments ''execute_secret_engine_operation'' [(''method'', JStr ''LIST''),
      (''path'', JStr ''/sys/mounts''), (''payload'', JObj [])] = Inr ()"
    by code_simp
qed (simp_all add: table_defs)+

definition leaking_world :: world where
  "leaking_world = sample_world\<lparr>w_kv := \<lambda>calls c. Inl (LibHvac HvInvalidRequest ''policy netbox-a denies'')\<rparr>"

lemma sample_known_caller: "known_caller sample_config (sample_scope (sample_cert ''netbox-a'')) sample_policy"
proof -
  have "identity_from_scope (sample_scope (sample_cert ''netbox-a'')) = Inr (JStr ''netbox-a'')" by code_simp
  then show ?thesis by (simp add: known_caller_def config_instance_def sample_config_def)
qed

lemma sample_permitted: "permitted sample_policy ''netbox/x'' False False"
proof -
  have "canonical_path ''netbox/x''" "permits_path sample_policy ''netbox/x''" by code_simp+
  then show ?thesis by (simp add: permitted_def)
qed

lemma sample_not_permitted: "\<not> permits_path sample_policy ''lab/b''"
  by code_simp

definition sample_restore :: restore_request where
  "sample_restore = \<lparr>sr_force = False, sr_digest = CONTRACT_DIGEST, sr_content_length = 5,
     sr_content_type = ''application/octet-stream'', sr_chunks = [''ab'', ''cde''], sr_failure = None\<rparr>"

definition sample_authentication :: administration_body where
  "sample_authentication = \<lparr>ab_contract_digest = CONTRACT_DIGEST, ab_operation = ''execute_authentication_operation'',
     ab_arguments = [(''method'', JStr ''POST''), (''path'', JStr ''/sys/mfa/validate''), (''payload'', JObj [])]\<rparr>"

lemma sample_authentication_sel:
  "ab_operation sample_authentication = ''execute_authentication_operation''"
  "ab_arguments sample_authentication =
     [(''method'', JStr ''POST''), (''path'', JStr ''/sys/mfa/validate''), (''payload'', JObj [])]"
  by (simp_all add: sample_authentication_def)

lemma sample_authentication_ok:
  "validate_arguments ''execute_authentication_operation'' (JObj (ab_arguments sample_authentication)) =
     Inr (ab_arguments sample_authentication)"
proof -
  let ?a = "[(''method'', JStr ''POST''), (''path'', JStr ''/sys/mfa/validate''), (''payload'', JObj [])]"
  have "validate_arguments ''execute_authentication_operation'' (JObj ?a) = Inr ?a"
  proof (rule validate_arguments_ok)
    show "length (the (json_dumps (JObj ?a))) \<le> MAX_ARGUMENT_BYTES" by (rule short_ok) code_simp
    have "\<not> submitted_token_path (path_argument ?a)" by code_simp
    moreover have "validate_reviewed_proxy ?a AUTH_PATHS = Inr ()" by code_simp
    ultimately show "validate_operation_arguments ''execute_authentication_operation'' ?a = Inr ()"
      by (simp add: validate_operation_arguments_def validate_authentication_proxy_def)
  qed (simp_all add: table_defs)+
  then show ?thesis by (simp add: sample_authentication_def)
qed

lemma sample_restore_accepted: "upload_accepted sample_caller sample_restore"
proof -
  have "lower ''application/octet-stream'' = ''application/octet-stream''" by code_simp
  then show ?thesis
    by (simp add: upload_accepted_def sample_restore_def sample_caller_def sample_policy_def permits_administration_def
      Let_def MAX_SNAPSHOT_BYTES_def)
qed

text \<open>Its login and the request that carries it, in this order.\<close>

lemma sample_restore_calls:
  "map is_login (bs_calls (snd (restore_snapshot_route sample_world sample_config sample_restore
     sample_caller init_state))) = [True, False]"
proof -
  let ?sent = "bind_op (administration_headers sample_world sample_config True JNull) (\<lambda>headers. bind_op
      (catch_op (send_http sample_world (restore_http sample_config False headers ''abcde'' 5))
        (\<lambda>e. throw (if e = RequestException then vault_exn VaultMutationUnknown [] else e)))
      (\<lambda>(i, response). finally_op (lift_res (restore_answer response)) (close_response i)))"
  have "restore_raft_snapshot sample_world sample_config ''abcde'' 5 False = ?sent"
    by (simp add: restore_raft_snapshot_def MAX_SNAPSHOT_BYTES_def)
  then have "restore_snapshot_route sample_world sample_config sample_restore sample_caller =
      bind_op (run sample_caller RESTORE_OPERATION [] (returning_none ?sent) JNull False)
        (\<lambda>_. ret (JObj [(''restored'', JBool True)]))"
    by (simp add: restore_route_accepted [OF sample_restore_accepted]) (simp add: sample_restore_def)
  moreover have "map is_login (bs_calls (snd (bind_op (run sample_caller RESTORE_OPERATION []
      (returning_none ?sent) JNull False) (\<lambda>_. ret (JObj [(''restored'', JBool True)])) init_state))) = [True, False]"
    by code_simp
  ultimately show ?thesis by simp
qed

text \<open>A proxied operation of the authentication family, and the calls it makes.\<close>

lemma sample_authentication_calls:
  "\<exists>rq. bs_calls (snd (endpoint sample_world sample_config ''r1'' (sample_scope (sample_cert ''netbox-a''))
     (AdministrationRequest sample_authentication) init_state)) = [HttpCall rq]"
proof -
  let ?a = "ab_arguments sample_authentication"
  have "''execute_authentication_operation'' \<in> set IMPLEMENTED_OPERATIONS" by (simp add: IMPLEMENTED_OPERATIONS_def)
  then obtain oc where oc: "operation_contract ''execute_authentication_operation'' = Inr oc"
    using operation_contract_ok by blast
  have digest: "ab_contract_digest sample_authentication = CONTRACT_DIGEST" by (simp add: sample_authentication_def)
  from oc have ok: "admitted_operation (ab_operation sample_authentication) ?a = Inr (oc, ?a)"
    using sample_authentication_ok by (simp add: admitted_operation_def sample_authentication_sel)
  have family: "permits_administration (ca_instance sample_caller) (oc_family oc)"
    using oc by (auto simp: operation_contract_Inr sample_policy_def sample_caller_def permits_administration_def
        OPERATIONS_def operations_of_def)
  have "is_unauthenticated_auth_path ''/sys/mfa/validate''" by (simp add: is_unauthenticated_auth_path_def)
  from unauthenticated_proxy_run [OF this sample_authentication_sel(2), of sample_world sample_config init_state]
  obtain rq where "bs_calls (snd (execute_reviewed_proxy sample_world sample_config ''execute_authentication_operation''
      ?a init_state)) = [HttpCall rq]" by (auto simp: init_state_def)
  then have "bs_calls (snd (administration_action sample_world sample_config (ab_operation sample_authentication) ?a
      init_state)) = [HttpCall rq]"
    by (auto simp: administration_action_def bind_op_run execute_administration_def sample_authentication_sel(1)
        PROXY_OPERATIONS_def split: prod.split sum.split)
  then have "bs_calls (snd (administration_request_route sample_world sample_config sample_authentication sample_caller
      init_state)) = [HttpCall rq]"
    by (auto simp: administration_route_run [OF digest ok family] bind_op_run run_run split: prod.split sum.split)
  moreover have "endpoint sample_world sample_config ''r1'' (sample_scope (sample_cert ''netbox-a''))
      (AdministrationRequest sample_authentication) init_state =
    administration_request_route sample_world sample_config sample_authentication sample_caller init_state"
    by (simp add: endpoint_known [OF sample_known_caller] sample_caller_def)
  ultimately show ?thesis by auto
qed

text \<open>A distribution, and the answers of \<open>git\<close> for its tag.\<close>

definition sample_dist :: "dist_entry list" where
  "sample_dist =
     [\<lparr>de_name = ''netbox_openbao_broker-1.2.0.tar.gz'', de_is_file = True, de_is_symlink = False, de_content = ''ab''\<rparr>,
      \<lparr>de_name = ''netbox_openbao_broker-1.2.0-py3-none-any.whl'', de_is_file = True, de_is_symlink = False,
        de_content = ''c''\<rparr>]"

definition sample_sha :: string where
  "sample_sha = replicate 40 CHR ''a''"

definition sample_git :: git where
  "sample_git arguments = (0,
     if arguments = [''cat-file'', ''-t'', ''refs/release-policy/candidate''] then ''tag''
     else if hd arguments = ''ls-tree'' then ''100644 blob '' @ sample_sha @ '' pyproject.toml''
     else sample_sha)"

definition sample_toml :: "string \<Rightarrow> json option" where
  "sample_toml t = Some (JObj [(''project'', JObj [(''version'', JStr ''1.2.0'')])])"

lemma sample_release_validated:
  "\<exists>r. validate_release_ref sample_git sample_toml ''v1.2.0'' ''final'' [] = Inr r"
proof -
  have sha: "fullmatch SHA_RE sample_sha" by code_simp
  have tag: "fullmatch FINAL_TAG_RE ''v1.2.0''" by code_simp
  have parse: "git_output sample_git [''rev-parse'', ref] = Inr sample_sha" for ref
  proof -
    have "strip sample_sha = sample_sha" by code_simp
    then show ?thesis by (simp add: git_output_def sample_git_def)
  qed
  have kind: "git_output sample_git [''cat-file'', ''-t'', ''refs/release-policy/candidate''] = Inr ''tag''" by code_simp
  have declared: "declared_version sample_git sample_toml sample_sha = Inr ''1.2.0''" by code_simp
  have version: "removeprefix ''v1.2.0'' ''v'' = ''1.2.0''" by code_simp
  show "\<exists>r. validate_release_ref sample_git sample_toml ''v1.2.0'' ''final'' [] = Inr r"
    by (simp add: validate_release_ref_def tag_pattern_def res_guard_def tag kind parse sha declared version)
qed

text \<open>A read that is answered, and one that OpenBao rejects with a text of its own.\<close>

lemma sample_read_run:
  obtains x s' where "endpoint sample_world sample_config ''r1'' (sample_scope (sample_cert ''netbox-a''))
      (sample_read ''netbox/x'') init_state = (Inr x, s')"
    and "KvCall sample_client (KvReadSecretVersion ''netbox/x'' None ''secret'') \<in> set (bs_calls s')"
proof -
  have "(case endpoint sample_world sample_config ''r1'' (sample_scope (sample_cert ''netbox-a''))
      (sample_read ''netbox/x'') init_state of
        (Inr x, s') \<Rightarrow> List.member (bs_calls s')
          (KvCall sample_client (KvReadSecretVersion ''netbox/x'' None ''secret''))
      | (Inl e, s') \<Rightarrow> False)" by code_simp
  then show thesis using that by (auto split: prod.splits sum.splits)
qed

lemma leaking_read_run:
  obtains e s' where "endpoint leaking_world sample_config ''r1'' (sample_scope (sample_cert ''netbox-a''))
      (sample_read ''netbox/x'') init_state = (Inl e, s')"
    and "e \<noteq> Deadlock" and "bs_calls s' \<noteq> bs_calls init_state"
proof -
  have "(case endpoint leaking_world sample_config ''r1'' (sample_scope (sample_cert ''netbox-a''))
      (sample_read ''netbox/x'') init_state of
        (Inr x, s') \<Rightarrow> False
      | (Inl e, s') \<Rightarrow> e \<noteq> Deadlock \<and> length (bs_calls s') = 2)" by code_simp
  moreover have "length xs = 2 \<Longrightarrow> xs \<noteq> bs_calls init_state" for xs :: "call list" by (auto simp: init_state_def)
  ultimately show thesis using that by (auto split: prod.splits sum.splits)
qed

end
