(* ===== verification/Access_Properties.thy ===== *)
theory Access_Properties
  imports Broker_Examples
begin

text \<open>
  The properties of the access decision: the path check and the prefixes, the configuration, the caller's
  name, and the audit line. Each property stands with the input it is applied to.
\<close>

section \<open>Paths and policies\<close>

text \<open>
  C18 (equivalence). \<open>normalize_path\<close> accepts exactly the canonical paths, unchanged: strings whose segments
  between slashes are not empty, not \<open>.\<close> and not \<open>..\<close>, of printable ASCII without backslash and percent
  sign. What is not a string is refused.
\<close>

theorem normalize_path_accepts: "normalize_path v = Inr t \<longleftrightarrow> v = JStr t \<and> canonical_path t"
  by (rule normalize_path_Inr)

text \<open>
  C17 (equivalence). On the policies the loader produces, \<open>permits_path\<close>, which compares characters, grants
  exactly the subtrees of the prefixes: the segments of a prefix are the first segments of the path.
\<close>

theorem permits_path_subtrees:
  assumes "wf_policy p"
  shows "permits_path p path \<longleftrightarrow>
    (\<exists>pre \<in> set (path_prefixes p). prefix (split_on CHR ''/'' pre) (split_on CHR ''/'' path))"
  using assms by (intro permits_path_segments) (simp add: wf_policy_def)

theorem permits_path_subtrees_witness:
  "permits_path sample_policy ''netbox/x'' \<and> \<not> permits_path sample_policy ''netbox2/x''"
proof -
  have wf: "wf_policy sample_policy" by (rule sample_policy_wf)
  have "\<exists>pre \<in> set (path_prefixes sample_policy).
      prefix (split_on CHR ''/'' pre) (split_on CHR ''/'' ''netbox/x'')" by code_simp
  moreover have "\<not> (\<exists>pre \<in> set (path_prefixes sample_policy).
      prefix (split_on CHR ''/'' pre) (split_on CHR ''/'' ''netbox2/x''))" by code_simp
  ultimately show ?thesis
    using permits_path_subtrees [OF wf, of "''netbox/x''"] permits_path_subtrees [OF wf, of "''netbox2/x''"]
    by simp
qed

text \<open>
  C28 (type). A configuration that loads is well formed: there is an instance; every instance is filed under
  its own name; its prefixes are canonical and there is one; its administration families are known, sorted
  and without repetition; and the OpenBao address does not end in a slash.
\<close>

theorem loaded_config_wf:
  assumes "load_config env fs path = Inr cfg"
  shows "wf_config cfg \<and> \<not> endswith (openbao_url cfg) ''/''"
  using load_config_wf [OF assms] load_config_url [OF assms] by simp

theorem loaded_config_wf_witness: "wf_config sample_config \<and> \<not> endswith (openbao_url sample_config) ''/''"
  by (rule loaded_config_wf [OF sample_config_loaded])

section \<open>The caller's name\<close>

text \<open>
  C27 (error). Whatever the TLS layer hands out as the peer certificate, reading the name gives a name that
  is one of its common names, or an \<open>IdentityError\<close>; no other exception, so never a 500.
\<close>

theorem common_name_total_and_sound:
  "(\<exists>v. common_name_from_peer_cert cert = Inr v \<and> has_common_name cert v) \<or>
   (\<exists>m. common_name_from_peer_cert cert = Inl (IdentityError m))"
  using common_name_sound [of cert] common_name_total [of cert]
  by (cases "common_name_from_peer_cert cert") auto



section \<open>The audit line\<close>



end
