(* ===== verification/Administration_Properties.thy ===== *)
theory Administration_Properties
  imports Broker_Examples
begin

text \<open>
  The properties of the administration surface: what the contract shows, what passes the validation, what the
  schema check of mounted operations accepts, and which requests leave the handler without an audit record.
\<close>

section \<open>The contract\<close>

text \<open>
  The contract a caller is shown lists exactly the operations of its families that
  \<open>operation_contract\<close> resolves, under the digest that its requests have to carry.
\<close>

theorem contract_shows_callable_operations:
  "\<exists>families operations. contract_document enabled = JObj
      [(''version'', JStr CONTRACT_VERSION), (''digest'', JStr CONTRACT_DIGEST), (''families'', families),
       (''operations'', JArr operations)] \<and>
    (\<forall>oc. asdict oc \<in> set operations \<longleftrightarrow>
       operation_contract (oc_name oc) = Inr oc \<and> oc_family oc \<in> set enabled)"
  by (auto simp: contract_document_def Let_def document_operations_set operation_contract_Inr image_iff)

section \<open>Arguments\<close>

text \<open>
  C25 (bounds). Accepted arguments are passed on unchanged and are bounded: at most 2000 values nested at most
  eight deep, texts without control characters, at most a million bytes when encoded, no field the operation does
  not know and every field it requires.
\<close>

theorem accepted_arguments_bounded:
  assumes "validate_arguments operation v = Inr arguments"
  shows "v = JObj arguments \<and> json_nodes v \<le> 2000 \<and> json_within 9 v \<and> clean_json v \<and>
    (\<exists>t. json_dumps v = Some t \<and> length t \<le> 1000000) \<and>
    (\<exists>allowed. map_of ARGUMENT_KEYS operation = Some allowed \<and> set (keys arguments) \<subseteq> set allowed) \<and>
    set (required_keys operation) \<subseteq> set (keys arguments)"
  using validate_arguments_Inr [OF assms]
  by (simp add: MAX_ARGUMENT_ITEMS_def MAX_ARGUMENT_DEPTH_def MAX_ARGUMENT_BYTES_def)

theorem accepted_arguments_bounded_witness:
  "json_within 9 (JObj [(''key'', JStr ''shard'')]) \<and> set (keys [(''key'', JStr ''shard'')]) \<subseteq> {''key'', ''migrate'', ''reset''}"
proof -
  have "validate_arguments ''unseal'' (JObj [(''key'', JStr ''shard'')]) = Inr [(''key'', JStr ''shard'')]"
    by (rule sample_unseal)
  from accepted_arguments_bounded [OF this] show ?thesis by (simp add: keys_def)
qed

text \<open>
  C36 (error). Validation refuses with a \<open>ValueError\<close>, which the handler answers and records, except for the two
  raft snapshot operations, which have no entry in the table of arguments, and for arguments of a type that a
  pattern or a set cannot be asked about.
\<close>

theorem validation_escapes:
  assumes "validate_arguments operation v = Inl e"
  shows "(\<exists>m. e = ValueError m) \<or>
    (e = KeyError \<and> operation \<in> {''download_raft_snapshot'', ''restore_raft_snapshot''}) \<or>
    (\<exists>arguments. v = JObj arguments \<and> untyped_argument operation arguments)"
  using validate_arguments_errors [OF assms] by (simp add: value_error_def)

theorem validation_escapes_witness: "\<exists>m. validate_arguments ''seal'' (JObj [(''key'', JNull)]) = Inl (ValueError m)"
proof -
  have "validate_arguments ''seal'' (JObj [(''key'', JNull)]) \<noteq> Inr a" for a
    using validate_arguments_Inr(7) [of "''seal''" "JObj [(''key'', JNull)]" a]
      validate_arguments_Inr(1) [of "''seal''" "JObj [(''key'', JNull)]" a]
    by (auto simp: ARGUMENT_KEYS_def keys_def)
  then obtain e where e: "validate_arguments ''seal'' (JObj [(''key'', JNull)]) = Inl e"
    by (cases "validate_arguments ''seal'' (JObj [(''key'', JNull)])") auto
  from validation_escapes [OF this] e show ?thesis by (auto simp: untyped_argument_def)
qed

text \<open>
  C38 (error). An administration request that names a raft snapshot operation, or the removal of a peer
  without a name (\<open>null\<close>), ends in an exception of the interpreter: the handler records nothing.
\<close>

theorem unrecorded_administration_requests:
  "administration_request_route w cfg \<lparr>ab_contract_digest = CONTRACT_DIGEST,
      ab_operation = ''download_raft_snapshot'', ab_arguments = arguments\<rparr> who s = (Inl KeyError, s) \<and>
   administration_request_route w cfg \<lparr>ab_contract_digest = CONTRACT_DIGEST,
      ab_operation = ''restore_raft_snapshot'', ab_arguments = arguments\<rparr> who s = (Inl KeyError, s) \<and>
   administration_request_route w cfg \<lparr>ab_contract_digest = CONTRACT_DIGEST,
      ab_operation = ''remove_raft_peer'', ab_arguments = [(''server_id'', JNull)]\<rparr> who s = (Inl TypeError, s)"
proof -
  show ?thesis
    by (simp add: snapshot_operation_escapes)
      (simp add: administration_request_route_def untyped_server_id)
qed

section \<open>Paths\<close>

text \<open>
  C19 (safety). A proxied operation that passes the validation has a method and a path that one line of its
  table allows together; the path starts with a reviewed root and holds no escape, no \<open>..\<close> and no query.
\<close>

theorem proxied_path_reviewed:
  assumes "proxy_table operation = Some table" and "validate_arguments operation v = Inr arguments"
  shows "\<exists>verb path payload. dget arguments ''method'' = JStr verb \<and> dget arguments ''path'' = JStr path \<and>
    dget arguments ''payload'' = JObj payload \<and> table_permits table verb path \<and> \<not> unsafe_path path \<and>
    (\<exists>r \<in> set REVIEWED_ROOTS. startswith path r)"
  using assms by (rule proxy_accepted)

theorem proxied_path_reviewed_witness:
  "table_permits SECRET_ENGINE_PATHS ''LIST'' ''/sys/mounts'' \<and> \<not> unsafe_path ''/sys/mounts''"
proof -
  let ?a = "[(''method'', JStr ''LIST''), (''path'', JStr ''/sys/mounts''), (''payload'', JObj [])]"
  have "validate_arguments ''execute_secret_engine_operation'' (JObj ?a) = Inr ?a" by (rule sample_engine)
  from proxied_path_reviewed [OF _ this, of SECRET_ENGINE_PATHS] show ?thesis
    by (auto simp: proxy_table_def)
qed

text \<open>
  C20 (safety). The path of a mounted operation that passes the validation lies below its mount, segment by
  segment, whatever its template says.
\<close>

theorem mounted_path_below_mount:
  assumes "validate_mounted_operation arguments = Inr ()"
  shows "\<exists>mount path. dget arguments ''mount_path'' = JStr mount \<and> dget arguments ''path'' = JStr path \<and>
    fullmatch MOUNT_PATH_RX mount \<and> \<not> unsafe_path path \<and>
    prefix (split_on CHR ''/'' mount) (split_on CHR ''/'' (removeprefix path ''/''))"
  using assms by (rule mounted_accepted)

theorem mounted_path_below_mount_witness:
  "prefix (split_on CHR ''/'' ''team/kv'') (split_on CHR ''/'' (removeprefix ''/team/kv/data/a/b'' ''/''))"
proof -
  have "validate_mounted_operation
     [(''method'', JStr ''GET''), (''mount_path'', JStr ''team/kv''), (''operation_id'', JStr ''kv-read''),
      (''query'', JObj []), (''body'', JObj []),
      (''path_template'', JStr ''/{team/kv_mount_path}/data/{path}''), (''path'', JStr ''/team/kv/data/a/b'')] = Inr ()"
    by code_simp
  from mounted_path_below_mount [OF this] show ?thesis by auto
qed

text \<open>
  C35 (safety). A caller's own token is let through only for the paths that act on the token itself, where it
  has to be there; everywhere else a token in the arguments is refused.
\<close>

theorem token_only_on_self_paths:
  assumes "validate_arguments ''execute_authentication_operation'' v = Inr arguments"
  shows "dget arguments ''token'' \<noteq> JNull \<longleftrightarrow> submitted_token_path (path_argument arguments)"
proof -
  from validate_arguments_Inr(9) [OF assms] have "validate_authentication_proxy arguments = Inr ()"
    by (simp add: validate_operation_arguments_def)
  then show ?thesis
    by (cases "dget arguments ''token''")
      (auto simp: validate_authentication_proxy_def res_bind_Inr Let_def split: if_split_asm)
qed

theorem token_only_on_self_paths_witness:
  "\<not> submitted_token_path ''/sys/auth'' \<and> (\<exists>arguments. validate_arguments ''execute_authentication_operation''
     (JObj [(''method'', JStr ''LIST''), (''path'', JStr ''/sys/auth''), (''payload'', JObj [])]) = Inr arguments)"
proof -
  let ?a = "[(''method'', JStr ''LIST''), (''path'', JStr ''/sys/auth''), (''payload'', JObj [])]"
  have ok: "validate_arguments ''execute_authentication_operation'' (JObj ?a) = Inr ?a"
  proof (rule validate_arguments_ok)
    show "length (the (json_dumps (JObj ?a))) \<le> MAX_ARGUMENT_BYTES" by (rule short_ok) code_simp
    have "\<not> submitted_token_path (path_argument ?a)" by code_simp
    moreover have "validate_reviewed_proxy ?a AUTH_PATHS = Inr ()" by code_simp
    ultimately show "validate_operation_arguments ''execute_authentication_operation'' ?a = Inr ()"
      by (simp add: validate_operation_arguments_def validate_authentication_proxy_def)
  qed (simp_all add: table_defs)+
  from token_only_on_self_paths [OF this] ok show ?thesis by (simp add: path_argument_def)
qed

section \<open>Advertised schemas\<close>





end
