(* ===== verification/Client_Properties.thy ===== *)
theory Client_Properties
  imports Broker_Examples "HOL-Library.Multiset"
begin

text \<open>
  The properties of the vault client and of its administration transport, over every behaviour of the
  library, the server and the network.
\<close>

section \<open>The client and its lock\<close>

text \<open>
  Asking for the client never returns exactly when there is no cached one and the server
  refuses the login: the translation of the refusal takes the lock that \<open>_get\<close> holds.
\<close>

theorem get_hangs_iff:
  assumes "\<not> bs_locked s"
  shows "fst (get w cfg s) = Inl Deadlock \<longleftrightarrow> bs_client s = None \<and> login_refused w cfg s"
  using assms by (rule get_deadlock)

theorem get_hangs_iff_witness:
  "fst (get refusing_world sample_config init_state) = Inl Deadlock \<and>
   fst (get sample_world sample_config init_state) \<noteq> Inl Deadlock"
proof -
  have "\<not> bs_locked init_state" "bs_client init_state = None" by (simp_all add: init_state_def)
  then show ?thesis by (simp add: get_hangs_iff refusing_login sample_login)
qed

text \<open>
  A request on a cached client is one call: no login before it, no repetition after a
  failure, and the lock is free again. The client is dropped exactly when the server refused it, an answer is
  passed on as it is, and a failure becomes an error of the client's own classes.
\<close>

theorem kv_request_is_one_call:
  assumes "\<not> bs_locked s" and "bs_client s = Some client"
  shows "\<exists>r. kv_request w cfg kv s = (r, (log_call (KvCall client kv) s)
      \<lparr>bs_client := (case w_kv w (bs_calls s) (KvCall client kv) of
         Inl e \<Rightarrow> if refused_by_server e then None else Some client | Inr v \<Rightarrow> Some client)\<rparr>) \<and>
    (case w_kv w (bs_calls s) (KvCall client kv) of
       Inr v \<Rightarrow> r = Inr v | Inl e \<Rightarrow> \<exists>k m. r = Inl (VaultExn k m))"
  using assms by (rule kv_request_run)

theorem kv_request_is_one_call_witness:
  "\<exists>r. kv_request sample_world sample_config (KvReadSecretMetadata ''netbox/x'' ''secret'')
     (init_state\<lparr>bs_client := Some sample_client\<rparr>) = (r,
     (log_call (KvCall sample_client (KvReadSecretMetadata ''netbox/x'' ''secret''))
       init_state)\<lparr>bs_client := Some sample_client\<rparr>)"
  using kv_request_is_one_call [of "init_state\<lparr>bs_client := Some sample_client\<rparr>" sample_client
      sample_world sample_config "KvReadSecretMetadata ''netbox/x'' ''secret''"]
  by (auto simp: init_state_def sample_world_def log_call_def)

text \<open>
  A deletion without a list of versions and one with an empty list are the same call: the
  secret's metadata and all of its versions go. Any other list deletes those versions only.
\<close>

theorem empty_deletion_destroys_everything:
  assumes "\<not> bs_locked s" and "bs_client s = Some client"
  shows "bs_calls (snd (vault_delete w cfg path versions s)) = bs_calls s @ [KvCall client
    (if versions = None \<or> versions = Some [] then KvDeleteMetadataAndAllVersions path (kv_mount cfg)
     else KvDeleteSecretVersions path (the versions) (kv_mount cfg))]"
proof -
  have calls: "bs_calls (snd (bind_op (kv_request w cfg kv) (\<lambda>_. ret ()) s)) = bs_calls s @ [KvCall client kv]" for kv
    using kv_request_run [OF assms, of w cfg kv] by (auto simp: bind_op_run split: sum.splits)
  show ?thesis
    unfolding vault_delete_def by (auto simp: calls split: option.split list.split)
qed

theorem empty_deletion_destroys_everything_witness:
  "bs_calls (snd (vault_delete sample_world sample_config ''netbox/x'' (Some [])
      (init_state\<lparr>bs_client := Some sample_client\<rparr>))) =
   [KvCall sample_client (KvDeleteMetadataAndAllVersions ''netbox/x'' ''secret'')]"
  using empty_deletion_destroys_everything [of "init_state\<lparr>bs_client := Some sample_client\<rparr>" sample_client
      sample_world sample_config "''netbox/x''" "Some []"]
  by (simp add: init_state_def sample_config_def)

text \<open>
  The versions of a secret are listed newest first, each once and as OpenBao described it:
  the rows are those of the entries of \<open>versions\<close>, sorted by descending number.
\<close>

theorem versions_listed_newest_first:
  assumes "version_rows metadata = Inr rows"
  shows "sorted_wrt (\<ge>) (map fst rows) \<and> (\<exists>versions items unsorted. get_attr metadata ''versions'' = Inr versions \<and>
    items_or_empty versions = Inr items \<and> list_all2 (\<lambda>p row. version_row p = Inr row) items unsorted \<and>
    mset rows = mset unsorted)"
proof -
  from assms obtain versions items unsorted where parts: "get_attr metadata ''versions'' = Inr versions"
      "items_or_empty versions = Inr items" "list_all2 (\<lambda>p row. version_row p = Inr row) items unsorted"
    and rows: "rows = sort_key (\<lambda>r. - fst r) unsorted"
    by (auto simp: version_rows_def res_bind_Inr res_map_Inr)
  have "sorted (map (\<lambda>r. - fst r) rows)" unfolding rows by (rule sorted_sort_key)
  then have "sorted_wrt (\<ge>) (map fst rows)" by (simp add: sorted_wrt_map)
  moreover have "mset rows = mset unsorted" by (simp add: rows)
  ultimately show ?thesis using parts by blast
qed

theorem versions_listed_newest_first_witness:
  "\<exists>rows. version_rows (JObj [(''versions'', JObj [(''1'', JObj []), (''10'', JObj []), (''2'', JObj [])])]) = Inr rows \<and>
     map fst rows = [10, 2, 1] \<and> sorted_wrt (\<ge>) (map fst rows)"
proof -
  let ?m = "JObj [(''versions'', JObj [(''1'', JObj []), (''10'', JObj []), (''2'', JObj [])])]"
  from sample_versions obtain rows where rows: "version_rows ?m = Inr rows" "map fst rows = [10, 2, 1]"
    by (elim exE conjE)
  from versions_listed_newest_first [OF rows(1)] have "sorted_wrt (\<ge>) (map fst rows)" by (rule conjunct1)
  with rows have "version_rows ?m = Inr rows \<and> map fst rows = [10, 2, 1] \<and> sorted_wrt (\<ge>) (map fst rows)"
    by (intro conjI)
  then show ?thesis by (rule exI)
qed

section \<open>One exchange\<close>

text \<open>
  C21 (functional). A mutation is reported as unknown exactly when its request was sent and nobody can tell
  whether it took effect: the transport failed, OpenBao redirected or failed itself, or a success came without
  an intelligible body of bounded size.
\<close>

theorem mutation_unknown_iff_indeterminate:
  "(\<exists>e. fst (administration_request w cfg verb path auth payload params extra token True s) = Inl e \<and>
        unknown_exn e) \<longleftrightarrow>
   (\<exists>headers s1. sends w cfg auth token s headers s1 \<and>
      indeterminate w (w_http w (bs_calls s1)
        (administration_http cfg verb path (dupdate headers extra) payload params)))"
  by (rule request_unknown_iff)

text \<open>
  A request that is no mutation is never reported as one of unknown outcome.
\<close>

theorem query_never_unknown:
  "\<not> (\<exists>e. fst (administration_request w cfg verb path auth payload params extra token False s) = Inl e \<and>
        unknown_exn e)"
  using query_known by (metis prod.collapse)

text \<open>
  C22 (bounds). What an exchange returns is the whole body, decoded, of a response that was delivered to its
  end and is at most \<open>MAX_ADMINISTRATION_RESPONSE_BYTES\<close> long, or the empty object for no content; and while
  a body is read, never more than that and one chunk is held.
\<close>

theorem response_is_whole_and_bounded:
  "(administration_json w mutation rs = Inr d \<longleftrightarrow> decoded_body w rs = Some d) \<and>
   (read_content [] (rs_chunks rs) (rs_failure rs) = Inr held \<longrightarrow>
     length held \<le> MAX_ADMINISTRATION_RESPONSE_BYTES + Max (insert 0 (length ` set (rs_chunks rs))))"
proof -
  have "length held \<le> MAX_ADMINISTRATION_RESPONSE_BYTES + Max (insert 0 (length ` set (rs_chunks rs)))"
    if "read_content [] (rs_chunks rs) (rs_failure rs) = Inr held"
    using that by (rule read_content_bounded) (simp_all add: Max_ge)
  then show ?thesis by (simp add: administration_json_decoded)
qed

theorem response_is_whole_and_bounded_witness:
  "read_content [] [''{'', ''}''] None = Inr ''{}'' \<and>
   length ''{}'' \<le> MAX_ADMINISTRATION_RESPONSE_BYTES + Max (insert 0 (length ` set [''{'', ''}'']))"
proof -
  have "read_content [] [''{'', ''}''] None = Inr ''{}''"
    by (simp add: Let_def MAX_ADMINISTRATION_RESPONSE_BYTES_def)
  then show ?thesis
    using response_is_whole_and_bounded [of sample_world False "\<lparr>rs_status = 200, rs_is_redirect = False,
        rs_headers = [], rs_chunks = [''{'', ''}''], rs_failure = None\<rparr>" "[]" "''{}''"]
    by simp
qed

text \<open>
  C23 (safety). An exchange that needs no login is one request: whatever comes back, the request is not sent
  again, and the response is closed on every path.
\<close>

theorem exchange_sent_once_and_closed:
  assumes "truthy token \<or> \<not> auth" and "open_wf s"
  shows "\<exists>rq. rq_method rq = verb \<and> rq_url rq = administration_url cfg path \<and> \<not> rq_allow_redirects rq \<and>
    bs_calls (snd (administration_request w cfg verb path auth payload params extra token mutation s)) =
      bs_calls s @ [HttpCall rq] \<and>
    bs_open (snd (administration_request w cfg verb path auth payload params extra token mutation s)) = bs_open s"
proof -
  from assms(1) obtain h where h: "administration_headers w cfg auth token s = (Inr h, s)"
    by (cases "truthy token") (simp_all add: administration_headers_def)
  have "filter (\<lambda>j. j \<noteq> length (bs_calls s)) (bs_open s) = bs_open s" using assms(2) by (rule open_wf_fresh)
  with h show ?thesis
    by (intro exI [of _ "administration_http cfg verb path (dupdate h extra) payload params"])
      (simp add: administration_request_run Let_def administration_http_def split: sum.split)
qed

theorem exchange_sent_once_and_closed_witness:
  "\<exists>rq. bs_calls (snd (administration_request sample_world sample_config ''PUT'' ''/sys/unseal'' False
      (JObj []) None [] (JStr []) True init_state)) = [HttpCall rq]"
  using exchange_sent_once_and_closed [of "JStr []" False init_state "''PUT''" sample_config "''/sys/unseal''"
      sample_world "JObj []" None "[]" True]
  by (auto simp: init_state_def open_wf_def)

text \<open>
  The size the broker announces for a snapshot is read back as the same size by its own
  check of a \<open>Content-Length\<close>.
\<close>

theorem announced_size_roundtrip:
  assumes "0 < n" and "n \<le> int MAX_SNAPSHOT_BYTES"
  shows "snapshot_size (Some (str_int n)) = Inr (Some n)"
  using assms py_int_str_int [of n] by (simp add: snapshot_size_def MAX_SNAPSHOT_BYTES_def)

theorem announced_size_roundtrip_witness: "snapshot_size (Some (str_int 536870912)) = Inr (Some 536870912)"
  by (rule announced_size_roundtrip) (simp_all add: MAX_SNAPSHOT_BYTES_def)

text \<open>
  C39 (functional). The rule by which the client leaves out its token takes in more than the paths declared as
  unauthenticated: an enforcement of a login, a reviewed path that is not one of them, is written with no token.
\<close>

theorem enforcement_sent_without_token:
  assumes "fullmatch NAME_RX name" and "path = ''/identity/mfa/login-enforcement/'' @ name"
    and "arguments = [(''method'', JStr ''POST''), (''path'', JStr path), (''payload'', JObj payload)]"
  shows "table_permits AUTH_PATHS ''POST'' path \<and> \<not> list_ex (\<lambda>r. fullmatch r path) UNAUTHENTICATED_PATHS \<and>
    (\<exists>rq. bs_calls (snd (execute_reviewed_proxy w cfg ''execute_authentication_operation'' arguments s)) =
        bs_calls s @ [HttpCall rq] \<and> ''X-Vault-Token'' \<notin> set (keys (rq_headers rq)))"
  using enforcement_permitted [OF assms(1)] enforcement_not_declared [of name] assms(2)
    enforcement_unauthenticated [of arguments name] assms(3)
  by (intro conjI) simp_all

theorem enforcement_sent_without_token_witness:
  "table_permits AUTH_PATHS ''POST'' ''/identity/mfa/login-enforcement/x'' \<and>
   \<not> list_ex (\<lambda>r. fullmatch r ''/identity/mfa/login-enforcement/x'') UNAUTHENTICATED_PATHS"
proof -
  have "fullmatch NAME_RX ''x''" by code_simp
  from enforcement_sent_without_token [OF this refl refl, where payload = "[]"] show ?thesis by simp
qed

end
