(* ===== verification/Step_Systems.thy ===== *)
theory Step_Systems
  imports Broker_Prelude
begin

text \<open>
  Step systems: the runs of a labelled step relation, invariants, and forward simulations, as interfaces that
  the thread pool and the running service are interpretations of.
\<close>

section \<open>Runs\<close>

inductive runs :: "('s \<Rightarrow> 'l \<Rightarrow> 's \<Rightarrow> bool) \<Rightarrow> 's \<Rightarrow> 'l list \<Rightarrow> 's \<Rightarrow> bool" for step s where
  runs_nil [intro!, simp]: "runs step s [] s"
| runs_snoc: "runs step s ls t \<Longrightarrow> step t l u \<Longrightarrow> runs step s (ls @ [l]) u"

inductive_cases runs_nilE [elim!]: "runs step s [] t"
inductive_cases runs_snocE: "runs step s (ls @ [l]) t"

lemma runs_single: "step s l t \<Longrightarrow> runs step s [l] t"
  using runs_snoc [OF runs_nil, of step s l t] by simp

lemma runs_append: "runs step t ks u \<Longrightarrow> runs step s ls t \<Longrightarrow> runs step s (ls @ ks) u"
proof (induction rule: runs.induct)
  case (runs_snoc ks u k v)
  then have "runs step s ((ls @ ks) @ [k]) v" by (blast intro: runs.runs_snoc)
  then show ?case by simp
qed simp

lemma runs_Cons: "step s l t \<Longrightarrow> runs step t ls u \<Longrightarrow> runs step s (l # ls) u"
  using runs_append [OF _ runs_single, of step t ls u s l] by simp

section \<open>Invariants and simulations\<close>

locale invariant_system =
  fixes step :: "'s \<Rightarrow> 'l \<Rightarrow> 's \<Rightarrow> bool" and inv :: "'s \<Rightarrow> bool"
  assumes step_inv: "inv s \<Longrightarrow> step s l t \<Longrightarrow> inv t"
begin

lemma runs_inv: "runs step s ls t \<Longrightarrow> inv s \<Longrightarrow> inv t"
  by (induction rule: runs.induct) (auto intro: step_inv)

end

text \<open>
  A simulation: every step of the concrete system from a state of its invariant is matched by a run of the
  abstract one, so that runs are matched by runs and an abstract invariant holds of what is abstracted.
\<close>

locale forward_simulation = invariant_system step inv
  for step :: "'s \<Rightarrow> 'l \<Rightarrow> 's \<Rightarrow> bool" and inv :: "'s \<Rightarrow> bool" +
  fixes astep :: "'a \<Rightarrow> 'b \<Rightarrow> 'a \<Rightarrow> bool" and abs :: "'s \<Rightarrow> 'a"
  assumes step_sim: "inv s \<Longrightarrow> step s l t \<Longrightarrow> \<exists>ks. runs astep (abs s) ks (abs t)"
begin

lemma runs_sim: "runs step s ls t \<Longrightarrow> inv s \<Longrightarrow> \<exists>ks. runs astep (abs s) ks (abs t)"
proof (induction rule: runs.induct)
  case (runs_snoc ls t l u)
  then obtain ks where ks: "runs astep (abs s) ks (abs t)" by blast
  from runs_inv [OF runs_snoc(1,4)] runs_snoc(2) obtain ks' where "runs astep (abs t) ks' (abs u)"
    using step_sim by blast
  from runs_append [OF this ks] show ?case ..
qed blast

lemma sim_invariant:
  assumes "invariant_system astep ainv" and "runs step s ls t" and "inv s" and "ainv (abs s)"
  shows "ainv (abs t)"
  using runs_sim [OF assms(2,3)] invariant_system.runs_inv [OF assms(1)] assms(4) by blast

end

end
