(* ===== verification/Broker_System.thy ===== *)
theory Broker_System
  imports App_Administration Step_Systems
begin

text \<open>
  The running service as a system of steps: requests, health probes and malformed requests, and the downloads
  that were opened and are driven by the server in between. Requests are taken one at a time (what their
  threads may do to each other in the client is in \<open>Vault_Threads\<close>); the events of the open streams come in
  any order. Its runs are simulated by an abstract monitor that knows only who may make which calls.
\<close>

section \<open>The service\<close>

text \<open>A download that was opened: the stream of \<open>App_Snapshot\<close>, which shares the state of the broker.\<close>

record live_stream =
  lv_who :: caller
  lv_download :: snapshot_download
  lv_gen :: gen_state
  lv_recorded :: bool
  lv_sent :: "string list"

record service =
  sv_broker :: broker_state
  sv_streams :: "live_stream list"

definition started :: service where
  "started = \<lparr>sv_broker = init_state, sv_streams = []\<rparr>"

definition stream_of :: "broker_state \<Rightarrow> live_stream \<Rightarrow> stream_state" where
  "stream_of s l = \<lparr>ss_gen = lv_gen l, ss_recorded = lv_recorded l, ss_sent = lv_sent l, ss_broker = s\<rparr>"

definition drive :: "live_stream \<Rightarrow> stream_event \<Rightarrow> broker_state \<Rightarrow> live_stream \<times> broker_state" where
  "drive l ev s = (let st = stream_step (lv_who l) (lv_download l) ev (stream_of s l)
     in (l\<lparr>lv_gen := ss_gen st, lv_recorded := ss_recorded st, lv_sent := ss_sent st\<rparr>, ss_broker st))"

definition opened :: "caller \<Rightarrow> snapshot_download \<Rightarrow> live_stream" where
  "opened who d = \<lparr>lv_who = who, lv_download = d, lv_gen = GenNew, lv_recorded = False, lv_sent = []\<rparr>"

datatype service_event =
    Ask string dict route_request
  | Garbled string dict
  | Probe
  | OpenDownload string dict string
  | Drive nat stream_event
  | Upload string dict restore_request

text \<open>The dependency \<open>caller\<close>, then the route that opens the download; with the caller, whom the stream records.\<close>

definition download_endpoint ::
  "world \<Rightarrow> broker_config \<Rightarrow> string \<Rightarrow> dict \<Rightarrow> string \<Rightarrow> (caller \<times> snapshot_download) bop" where
  "download_endpoint w cfg rid scope digest = bind_op (caller_of cfg rid scope) (\<lambda>who.
     bind_op (download_snapshot_route w cfg digest who) (\<lambda>(headers, d). ret (who, d)))"

definition upload_endpoint ::
  "world \<Rightarrow> broker_config \<Rightarrow> string \<Rightarrow> dict \<Rightarrow> restore_request \<Rightarrow> json bop" where
  "upload_endpoint w cfg rid scope rq = bind_op (caller_of cfg rid scope) (restore_snapshot_route w cfg rq)"

fun serve :: "world \<Rightarrow> broker_config \<Rightarrow> service_event \<Rightarrow> service \<Rightarrow> service" where
  "serve w cfg (Ask rid scope request) sv =
     sv\<lparr>sv_broker := snd (endpoint w cfg rid scope request (sv_broker sv))\<rparr>"
| "serve w cfg (Garbled rid scope) sv = sv\<lparr>sv_broker := snd (malformed_request rid scope (sv_broker sv))\<rparr>"
| "serve w cfg Probe sv = sv\<lparr>sv_broker := snd (healthz_route w cfg (sv_broker sv))\<rparr>"
| "serve w cfg (OpenDownload rid scope digest) sv =
     (case download_endpoint w cfg rid scope digest (sv_broker sv) of
        (Inl e, s) \<Rightarrow> sv\<lparr>sv_broker := s\<rparr>
      | (Inr (who, d), s) \<Rightarrow> \<lparr>sv_broker = s, sv_streams = sv_streams sv @ [opened who d]\<rparr>)"
| "serve w cfg (Drive i ev) sv =
     (if i < length (sv_streams sv)
      then (case drive (sv_streams sv ! i) ev (sv_broker sv) of
              (l, s) \<Rightarrow> \<lparr>sv_broker = s, sv_streams = (sv_streams sv)[i := l]\<rparr>)
      else sv)"
| "serve w cfg (Upload rid scope rq) sv =
     sv\<lparr>sv_broker := snd (upload_endpoint w cfg rid scope rq (sv_broker sv))\<rparr>"

text \<open>The events of the service: the scope of a request is the one its TLS connection publishes.\<close>

fun over_tls :: "service_event \<Rightarrow> bool" where
  "over_tls (Ask rid scope request) = (\<exists>cert. tls_scope cert scope)"
| "over_tls (Garbled rid scope) = (\<exists>cert. tls_scope cert scope)"
| "over_tls (OpenDownload rid scope digest) = (\<exists>cert. tls_scope cert scope)"
| "over_tls (Upload rid scope rq) = (\<exists>cert. tls_scope cert scope)"
| "over_tls _ = True"

definition serves :: "world \<Rightarrow> broker_config \<Rightarrow> service \<Rightarrow> service_event \<Rightarrow> service \<Rightarrow> bool" where
  "serves w cfg sv ev sv' \<longleftrightarrow> over_tls ev \<and> sv' = serve w cfg ev sv"

section \<open>The monitor\<close>

text \<open>What an instance may make the broker send.\<close>

definition authority :: "broker_config \<Rightarrow> instance_policy \<Rightarrow> call \<Rightarrow> bool" where
  "authority cfg p c \<longleftrightarrow>
     (\<exists>path writes deletes. permitted p path writes deletes \<and> kv_on cfg path writes deletes c) \<or>
     (\<exists>operation contract arguments rq. operation_contract operation = Inr contract \<and>
        permits_administration p (oc_family contract) \<and>
        validate_arguments operation (JObj arguments) = Inr arguments \<and>
        c = HttpCall rq \<and> administration_call cfg operation arguments rq) \<or>
     (permits_administration p ''cluster'' \<and>
        ((\<exists>h. c = HttpCall (snapshot_http cfg h)) \<or>
         (\<exists>force h content. c = HttpCall (restore_http cfg force h content (int (length content))))))"

definition granted :: "broker_config \<Rightarrow> instance_policy \<Rightarrow> bool" where
  "granted cfg p \<longleftrightarrow> (\<exists>name. config_instance cfg name = Some p)"

text \<open>What can be seen of the service: the calls but the logins, the trail, and who has a download open.\<close>

record monitor =
  mn_calls :: "call list"
  mn_trail :: "audit_entry list"
  mn_live :: "string list"

datatype reason = Refused | Worked instance_policy | Finished string | Probed

fun is_probe :: "call \<Rightarrow> bool" where
  "is_probe (HealthCall client) = True"
| "is_probe _ = False"

inductive allows :: "broker_config \<Rightarrow> monitor \<Rightarrow> reason \<Rightarrow> monitor \<Rightarrow> bool" for cfg where
  allow_refusal: "ae_outcome e = ''denied'' \<Longrightarrow> allows cfg m Refused (m\<lparr>mn_trail := mn_trail m @ [e]\<rparr>)"
| allow_work: "granted cfg p \<Longrightarrow> \<forall>c \<in> set cs. authority cfg p c \<Longrightarrow>
     es = [] \<or> (\<exists>e. es = [e] \<and> ae_instance e = JStr (ip_name p) \<and> (ae_outcome e = ''denied'' \<longrightarrow> cs = [])) \<Longrightarrow>
     ds = [] \<or> (ds = [ip_name p] \<and> es = [] \<and> permits_administration p ''cluster'') \<Longrightarrow>
     allows cfg m (Worked p)
       \<lparr>mn_calls = mn_calls m @ cs, mn_trail = mn_trail m @ es, mn_live = mn_live m @ ds\<rparr>"
| allow_finish: "mn_live m = before @ name # after \<Longrightarrow> ae_instance e = JStr name \<Longrightarrow>
     ae_operation e = DOWNLOAD_OPERATION \<Longrightarrow> ae_outcome e \<in> {''ok'', ''error''} \<Longrightarrow>
     allows cfg m (Finished name) (m\<lparr>mn_trail := mn_trail m @ [e], mn_live := before @ after\<rparr>)"
| allow_probe: "\<forall>c \<in> set cs. is_probe c \<Longrightarrow> allows cfg m Probed (m\<lparr>mn_calls := mn_calls m @ cs\<rparr>)"

inductive_cases allowsE: "allows cfg m k m'"

text \<open>What the monitor guarantees.\<close>

definition monitor_inv :: "broker_config \<Rightarrow> monitor \<Rightarrow> bool" where
  "monitor_inv cfg m \<longleftrightarrow>
     (\<forall>c \<in> set (mn_calls m). is_probe c \<or> (\<exists>p. granted cfg p \<and> authority cfg p c)) \<and>
     (\<forall>e \<in> set (mn_trail m). ae_outcome e = ''denied'' \<or> (\<exists>p. granted cfg p \<and> ae_instance e = JStr (ip_name p))) \<and>
     (\<forall>n \<in> set (mn_live m). \<exists>p. granted cfg p \<and> ip_name p = n \<and> permits_administration p ''cluster'')"

interpretation monitor: invariant_system "allows cfg" "monitor_inv cfg" for cfg
proof
  fix m k m' assume inv: "monitor_inv cfg m" and step: "allows cfg m k m'"
  from step show "monitor_inv cfg m'"
  proof cases
    case (allow_finish before name after e)
    then have "name \<in> set (mn_live m)" by simp
    with inv obtain p where "granted cfg p" "ip_name p = name" unfolding monitor_inv_def by blast
    with inv allow_finish show ?thesis by (auto simp: monitor_inv_def)
  qed (use inv in \<open>auto simp: monitor_inv_def\<close>)
qed

section \<open>What is seen of the service\<close>

abbreviation lv_name :: "live_stream \<Rightarrow> string" where
  "lv_name l \<equiv> ip_name (ca_instance (lv_who l))"

abbreviation lv_id :: "live_stream \<Rightarrow> nat" where
  "lv_id l \<equiv> sd_id (lv_download l)"

definition pending :: "service \<Rightarrow> live_stream list" where
  "pending sv = filter (\<lambda>l. \<not> lv_recorded l) (sv_streams sv)"

definition view :: "service \<Rightarrow> monitor" where
  "view sv = \<lparr>mn_calls = filter (\<lambda>c. \<not> is_login c) (bs_calls (sv_broker sv)),
     mn_trail = bs_audit (sv_broker sv), mn_live = map lv_name (pending sv)\<rparr>"

text \<open>
  The invariant: the open responses are those of the pending streams, the last one first; what a stream has sent
  is part of its body; and every recorded stream has a record of its own in the trail.
\<close>

definition has_record :: "live_stream \<Rightarrow> audit_log \<Rightarrow> nat \<Rightarrow> bool" where
  "has_record l trail k \<longleftrightarrow> k < length trail \<and> terminal_record (lv_who l) (lv_download l) (lv_sent l) (trail ! k) \<and>
     (ae_outcome (trail ! k) = ''ok'' \<longrightarrow> lv_gen l = GenDone)"

definition recorded_at :: "live_stream list \<Rightarrow> audit_log \<Rightarrow> (nat \<Rightarrow> nat) \<Rightarrow> bool" where
  "recorded_at ls trail place \<longleftrightarrow> inj_on place {i. i < length ls \<and> lv_recorded (ls ! i)} \<and>
     (\<forall>i < length ls. lv_recorded (ls ! i) \<longrightarrow> has_record (ls ! i) trail (place i))"

definition service_inv :: "service \<Rightarrow> bool" where
  "service_inv sv \<longleftrightarrow> open_wf (sv_broker sv) \<and>
     bs_open (sv_broker sv) = rev (map lv_id (pending sv)) \<and>
     distinct (map lv_id (sv_streams sv)) \<and>
     (\<forall>l \<in> set (sv_streams sv). lv_id l < length (bs_calls (sv_broker sv)) \<and>
        sent_progress (lv_download l) (stream_of (sv_broker sv) l)) \<and>
     (\<exists>place. recorded_at (sv_streams sv) (bs_audit (sv_broker sv)) place)"

section \<open>Requests the service attends to\<close>

text \<open>What one request may do to the state: refuse an unknown caller, or work for an instance.\<close>

definition worked :: "broker_config \<Rightarrow> instance_policy \<Rightarrow> broker_state \<Rightarrow> broker_state \<Rightarrow> bool" where
  "worked cfg p s s' \<longleftrightarrow> calls_within (login_or (authority cfg p)) s s' \<and> open_same s s' \<and>
     (bs_audit s' = bs_audit s \<or> (\<exists>e. bs_audit s' = bs_audit s @ [e] \<and> ae_instance e = JStr (ip_name p) \<and>
        (ae_outcome e = ''denied'' \<longrightarrow> bs_calls s' = bs_calls s)))"

definition attended :: "broker_config \<Rightarrow> broker_state \<Rightarrow> broker_state \<Rightarrow> bool" where
  "attended cfg s s' \<longleftrightarrow> (\<exists>e. ae_outcome e = ''denied'' \<and> s' = log_record e s) \<or>
     (\<exists>p. granted cfg p \<and> worked cfg p s s')"

lemma granted_caller: "known_caller cfg scope p \<Longrightarrow> granted cfg p"
  by (auto simp: known_caller_def granted_def)

lemma refused_attended: "refused Q s r s' \<Longrightarrow> attended cfg s s'"
  by (auto simp: refused_def attended_def)

lemma answered_worked:
  assumes "calls_within (login_or (authority cfg (ca_instance who))) s s'" and "open_same s s'"
    and "(r = Inl Deadlock \<and> bs_audit s' = bs_audit s) \<or>
      (\<exists>e. bs_audit s' = bs_audit s @ [e] \<and> answered who operation path r e)"
  shows "worked cfg (ca_instance who) s s'"
proof -
  have "ae_instance e = JStr (ip_name (ca_instance who)) \<and> ae_outcome e \<noteq> ''denied''"
    if "answered who operation path r e" for e
    using that by (auto simp: answered_def split: sum.splits exn.splits if_split_asm)
  with assms show ?thesis unfolding worked_def by blast
qed

lemma log_attended: "granted cfg p \<Longrightarrow> ae_instance e = JStr (ip_name p) \<Longrightarrow> attended cfg s (log_record e s)"
  by (auto simp: attended_def worked_def open_same_def open_wf_def calls_within_def)

lemma calls_within_mono: "calls_within P s s' \<Longrightarrow> (\<And>c. P c \<Longrightarrow> Q c) \<Longrightarrow> calls_within Q s s'"
  by (auto simp: calls_within_def)

lemma secret_route_worked:
  assumes rq: "secret_request request = Some (path, operation, writes, deletes)"
    and run: "route w cfg request who s = (r, s')" and granted: "granted cfg (ca_instance who)"
  shows "attended cfg s s'"
proof (cases "permitted (ca_instance who) path writes deletes")
  case True
  from op_relD [OF secret_route_reaches [OF rq] run]
  have "calls_within (login_or (authority cfg (ca_instance who))) s s'"
    by (rule calls_within_mono) (auto simp: authority_def)
  moreover have "open_same s s'"
    using secret_route_unleaked [of request w cfg who] rq run by (simp add: op_relD)
  ultimately have "worked cfg (ca_instance who) s s'"
    using secret_route_outcome [OF rq run] True by (intro answered_worked) (auto simp: secret_outcome_def)
  with granted show ?thesis by (auto simp: attended_def)
next
  case False
  with secret_route_outcome [OF rq run] show ?thesis by (auto simp: secret_outcome_def intro: refused_attended)
qed

lemma administration_worked:
  assumes run: "administration_request_route w cfg body who s = (r, s')" and granted: "granted cfg (ca_instance who)"
  shows "attended cfg s s'"
proof -
  have calls: "calls_within (login_or (authority cfg (ca_instance who))) s s'"
  proof -
    from op_relD [OF administration_route_rel [where R = logs_grow, OF vadmin.run_grows] run]
    obtain new where new: "bs_calls s' = bs_calls s @ new" by (auto simp: logs_grow_def prefix_def growing.R_refl)
    have "is_login c \<or> authority cfg (ca_instance who) c" if "c \<in> set new" for c
      using administration_reaches [OF run, of c] new that unfolding authority_def by auto
    with new show ?thesis by (auto simp: calls_within_def)
  qed
  have open_s: "open_same s s'" using administration_route_unleaked run by (rule op_relD)
  from administration_outcome [OF run] consider
      "(r = Inl Deadlock \<and> bs_audit s' = bs_audit s) \<or>
        (\<exists>e. bs_audit s' = bs_audit s @ [e] \<and> answered who (''administration.'' @ ab_operation body) [] r e)"
    | "refused (administration_refusal who body) s r s'" | "s' = s" by blast
  then show ?thesis
  proof cases
    case 1
    from answered_worked [OF calls open_s this] granted show ?thesis by (auto simp: attended_def)
  next
    case 3
    with calls open_s granted show ?thesis by (auto simp: attended_def worked_def)
  qed (rule refused_attended)
qed

lemma ask_attended:
  assumes tls: "tls_scope cert scope" and run: "endpoint w cfg rid scope request s = (r, s')"
  shows "attended cfg s s'"
proof (cases "\<exists>p. known_caller cfg scope p")
  case False
  from endpoint_unknown [OF tls False run] show ?thesis by (rule refused_attended)
next
  case True
  then obtain p where p: "known_caller cfg scope p" by blast
  let ?who = "\<lparr>ca_instance = p, ca_request_id = rid\<rparr>"
  from run p have route: "route w cfg request ?who s = (r, s')" by (simp add: endpoint_known)
  have granted: "granted cfg (ca_instance ?who)" using granted_caller [OF p] by simp
  show ?thesis
  proof (cases "secret_request request")
    case (Some q)
    then obtain path operation writes deletes where
      "secret_request request = Some (path, operation, writes, deletes)" by (cases q) auto
    from secret_route_worked [OF this route granted] show ?thesis .
  next
    case None
    then consider "request = AdministrationContract" | body where "request = AdministrationRequest body"
      by (cases request) auto
    then show ?thesis
    proof cases
      case 1
      with route have "administration_contract_route ?who s = (r, s')" by simp
      from contract_outcome [OF this] log_attended [OF granted] show ?thesis
        by (elim disjE conjE) (simp_all add: refused_attended)
    next
      case (2 body)
      with route have "administration_request_route w cfg body ?who s = (r, s')" by simp
      from administration_worked [OF this granted] show ?thesis .
    qed
  qed
qed

lemma malformed_attended:
  assumes "malformed_request rid scope s = (r, s')"
  shows "s' = s \<or> attended cfg s s'"
  using assms by (auto simp: malformed_request_def bind_op_run attended_def split: sum.splits exn.splits)

text \<open>An upload.\<close>

lemma snapshot_authority:
  assumes "permits_administration p ''cluster''"
  shows "authority cfg p (HttpCall (snapshot_http cfg h))"
    and "n = int (length content) \<Longrightarrow> authority cfg p (HttpCall (restore_http cfg force h content n))"
  using assms unfolding authority_def by blast+

lemma upload_worked:
  assumes run: "restore_snapshot_route w cfg rq who s = (r, s')" and granted: "granted cfg (ca_instance who)"
  shows "attended cfg s s'"
  using run
proof (cases rule: restore_route_cases)
  case (accepted r1)
  from op_relD [OF vrestore.run_reaches accepted(2)]
  have "calls_within (login_or (authority cfg (ca_instance who))) s s'"
  proof (rule calls_within_mono)
    fix c assume "is_login c \<or> (\<exists>h. c =
      HttpCall (restore_http cfg (sr_force rq) h (concat (sr_chunks rq)) (sr_content_length rq)))"
    moreover have "authority cfg (ca_instance who)
        (HttpCall (restore_http cfg (sr_force rq) h (concat (sr_chunks rq)) (sr_content_length rq)))" for h
      using accepted(1) upload_accepted_exact [OF accepted(1)]
      by (intro snapshot_authority) (simp_all only: upload_accepted_def)
    ultimately show "is_login c \<or> authority cfg (ca_instance who) c" by blast
  qed
  from answered_worked [OF this op_relD [OF vrestore.run_unleaked accepted(2)] vrestore.run_outcome [OF accepted(2)]]
  show ?thesis using granted by (auto simp: attended_def)
next
  case refusal
  then show ?thesis by (rule refused_attended)
next
  case (interrupted e)
  with log_attended [OF granted] show ?thesis by simp
qed

lemma upload_attended:
  assumes tls: "tls_scope cert scope" and run: "upload_endpoint w cfg rid scope rq s = (r, s')"
  shows "attended cfg s s'"
proof (cases "\<exists>p. known_caller cfg scope p")
  case False
  obtain r1 s1 where first: "caller_of cfg rid scope s = (r1, s1)" by (cases "caller_of cfg rid scope s")
  from caller_unknown [OF tls False first] run first have "refused (identify_refusal rid) s r s'"
    by (auto simp: upload_endpoint_def bind_op_run refused_def)
  then show ?thesis by (rule refused_attended)
next
  case True
  then obtain p where p: "known_caller cfg scope p" by blast
  with run have "restore_snapshot_route w cfg rq \<lparr>ca_instance = p, ca_request_id = rid\<rparr> s = (r, s')"
    by (simp add: upload_endpoint_def bind_op_run caller_known)
  from upload_worked [OF this] granted_caller [OF p] show ?thesis by simp
qed

text \<open>Opening a download: a new response, of a number no call had before, or none.\<close>

lemma download_run:
  assumes wf: "open_wf s" and run: "download_raft_snapshot w cfg s = (r, s')"
  shows "calls_within (login_or (\<lambda>c. \<exists>h. c = HttpCall (snapshot_http cfg h))) s s' \<and> open_wf s' \<and>
    (case r of
       Inr d \<Rightarrow> bs_open s' = sd_id d # bs_open s \<and> length (bs_calls s) \<le> sd_id d \<and> sd_id d < length (bs_calls s')
     | Inl e \<Rightarrow> bs_open s' = bs_open s)"
proof -
  let ?P = "\<lambda>c. \<exists>h. c = HttpCall (snapshot_http cfg h)"
  obtain r1 s1 where headers: "administration_headers w cfg True JNull s = (r1, s1)"
    by (cases "administration_headers w cfg True JNull s")
  from op_relD [OF unleaked.administration_headers_rel headers] wf
  have s1: "open_wf s1" "bs_open s1 = bs_open s" "length (bs_calls s) \<le> length (bs_calls s1)"
    by (simp_all add: open_same_def)
  from op_relD [OF confined.administration_headers_rel headers] have calls: "calls_within (login_or ?P) s s1" .
  show ?thesis
  proof (cases r1)
    case (Inl e)
    with run headers have "s' = s1" "r = Inl e" by (simp_all add: download_raft_snapshot_def bind_op_run)
    with s1 calls show ?thesis by simp
  next
    case (Inr h)
    let ?c = "HttpCall (snapshot_http cfg h)"
    have sent: "calls_within (login_or ?P) s t" if "bs_calls t = bs_calls s1 @ [?c]" for t
      by (rule calls_within_trans [OF calls]) (auto simp: calls_within_def that)
    have fresh: "filter (\<lambda>j. j \<noteq> length (bs_calls s1)) (bs_open s1) = bs_open s1" using s1(1) by (rule open_wf_fresh)
    have wf1: "open_wf t" if "bs_calls t = bs_calls s1 @ [?c]" "set (bs_open t) \<subseteq> insert (length (bs_calls s1)) (set (bs_open s1))" for t
      using s1(1) that by (fastforce simp: open_wf_def less_Suc_eq)
    show ?thesis
    proof (cases "w_http w (bs_calls s1) (snapshot_http cfg h)")
      case (Inl e)
      with run headers Inr have "s' = log_call ?c s1" "\<exists>e. r = Inl e"
        by (auto simp: download_raft_snapshot_def bind_op_run catch_op_run send_http_def Let_def)
      with s1 sent [of s'] wf1 [of s'] show ?thesis by auto
    next
      case (Inr rs)
      let ?o = "(log_call ?c s1)\<lparr>bs_open := length (bs_calls s1) # bs_open s1\<rparr>"
      from run headers \<open>r1 = Inr h\<close> Inr have "(s' = close_response (length (bs_calls s1)) ?o \<and> (\<exists>e. r = Inl e)) \<or>
          (s' = ?o \<and> (\<exists>d. r = Inr d \<and> sd_id d = length (bs_calls s1)))"
        by (auto simp: download_raft_snapshot_def bind_op_run catch_op_run send_http_def Let_def
            close_and_raise_def close_op_def split: if_split_asm sum.split_asm)
      then show ?thesis
      proof (elim disjE conjE exE)
        fix e assume "s' = close_response (length (bs_calls s1)) ?o" "r = Inl e"
        with s1 sent [of s'] wf1 [of s'] fresh show ?thesis by auto
      next
        fix d assume "s' = ?o" "r = Inr d" "sd_id d = length (bs_calls s1)"
        with s1 sent [of s'] wf1 [of s'] show ?thesis by simp
      qed
    qed
  qed
qed

text \<open>Opening a download over the two routes: the caller, its authority, and one response more.\<close>

definition opens_download :: "broker_config \<Rightarrow> caller \<Rightarrow> snapshot_download \<Rightarrow> broker_state \<Rightarrow> broker_state \<Rightarrow> bool" where
  "opens_download cfg who d s s' \<longleftrightarrow> granted cfg (ca_instance who) \<and>
     permits_administration (ca_instance who) ''cluster'' \<and>
     calls_within (login_or (authority cfg (ca_instance who))) s s' \<and> bs_audit s' = bs_audit s \<and> open_wf s' \<and>
     bs_open s' = sd_id d # bs_open s \<and> length (bs_calls s) \<le> sd_id d \<and> sd_id d < length (bs_calls s')"

lemma download_attended:
  assumes tls: "tls_scope cert scope" and wf: "open_wf s"
    and run: "download_endpoint w cfg rid scope digest s = (r, s')"
  shows "(case r of Inl e \<Rightarrow> attended cfg s s' | Inr (who, d) \<Rightarrow> opens_download cfg who d s s')"
proof (cases "\<exists>p. known_caller cfg scope p")
  case False
  obtain r1 s1 where first: "caller_of cfg rid scope s = (r1, s1)" by (cases "caller_of cfg rid scope s")
  from caller_unknown [OF tls False first] run first have "refused (identify_refusal rid) s r s'"
    by (auto simp: download_endpoint_def bind_op_run refused_def)
  moreover from this obtain e where "r = Inl e" by (auto simp: refused_def)
  ultimately show ?thesis by (simp add: refused_attended)
next
  case True
  then obtain p where p: "known_caller cfg scope p" by blast
  let ?who = "\<lparr>ca_instance = p, ca_request_id = rid\<rparr>"
  have granted: "granted cfg p" using p by (rule granted_caller)
  have at_route: "download_endpoint w cfg rid scope digest s =
      bind_op (download_snapshot_route w cfg digest ?who) (\<lambda>(headers, d). ret (?who, d)) s"
    using p by (simp add: download_endpoint_def bind_op_run caller_known)
  obtain r0 s0 where auth: "authorize_snapshot ?who digest DOWNLOAD_OPERATION s = (r0, s0)"
    by (cases "authorize_snapshot ?who digest DOWNLOAD_OPERATION s")
  from authorize_snapshot_run [OF auth] consider (no) "refused (denied_entry ?who DOWNLOAD_OPERATION) s r0 s0"
    | (ok) "r0 = Inr ()" "s0 = s" "permits_administration p ''cluster''" by auto
  then show ?thesis
  proof cases
    case no
    then obtain e where "r0 = Inl e" by (auto simp: refused_def)
    with refused_attended [OF no, of cfg] auth at_route run show ?thesis by (auto simp: download_snapshot_route_def bind_op_run)
  next
    case ok
    obtain r1 s1 where open_d: "download_raft_snapshot w cfg s = (r1, s1)" by (cases "download_raft_snapshot w cfg s")
    from download_run [OF wf open_d] have
      calls: "calls_within (login_or (\<lambda>c. \<exists>h. c = HttpCall (snapshot_http cfg h))) s s1" and wf1: "open_wf s1"
      by simp_all
    from calls have auth_calls: "calls_within (login_or (authority cfg p)) s s1"
      by (rule calls_within_mono) (use ok(3) in \<open>auto intro: snapshot_authority\<close>)
    from op_relD [OF download_unaudited open_d] have audit: "bs_audit s1 = bs_audit s"
      and grow: "length (bs_calls s) \<le> length (bs_calls s1)" by (simp_all add: audit_same_def prefix_length_le)
    show ?thesis
    proof (cases r1)
      case (Inr d)
      with auth ok open_d at_route run have "r = Inr (?who, d)" "s' = s1"
        by (simp_all add: download_snapshot_route_def bind_op_run catch_op_run)
      with download_run [OF wf open_d] Inr granted ok(3) auth_calls audit show ?thesis
        by (simp add: opens_download_def)
    next
      case (Inl e)
      from download_run [OF wf open_d] Inl have same: "bs_open s1 = bs_open s" by simp
      from auth ok open_d at_route run Inl have "\<exists>e. r = Inl e"
        and "s' = s1 \<or> (\<exists>e. s' = log_record e s1 \<and> ae_instance e = JStr (ip_name p) \<and> ae_outcome e \<noteq> ''denied'')"
        by (auto simp: download_snapshot_route_def bind_op_run catch_op_run download_error_def
            split: exn.split_asm if_split_asm)
      then have "worked cfg p s s'" using auth_calls audit same wf1 grow
        by (auto simp: worked_def open_same_def open_wf_def calls_within_def)
      with \<open>\<exists>e. r = Inl e\<close> granted show ?thesis by (auto simp: attended_def)
    qed
  qed
qed

end
