(* ===== verification/Service_Runs.thy ===== *)
theory Service_Runs
  imports Broker_System
begin

text \<open>
  The runs of the service: what an event of one stream does to the state that all share, the invariant of the
  service, and the simulation by the monitor (interpretation \<open>service\<close> of the locale \<open>forward_simulation\<close>).
\<close>

section \<open>The streams and their records\<close>

lemma has_record_grows: "has_record l trail k \<Longrightarrow> has_record l (trail @ later) k"
  by (auto simp: has_record_def nth_append)

lemma recorded_grows: "recorded_at ls trail place \<Longrightarrow> recorded_at ls (trail @ later) place"
  by (auto simp: recorded_at_def intro: has_record_grows)

lemma recorded_opened: "recorded_at ls trail place \<Longrightarrow> \<not> lv_recorded l \<Longrightarrow> recorded_at (ls @ [l]) trail place"
proof -
  assume "recorded_at ls trail place" and new: "\<not> lv_recorded l"
  moreover have "{i. i < length (ls @ [l]) \<and> lv_recorded ((ls @ [l]) ! i)} = {i. i < length ls \<and> lv_recorded (ls ! i)}"
    using new by (auto simp: nth_append less_Suc_eq)
  ultimately show ?thesis by (auto simp: recorded_at_def nth_append less_Suc_eq)
qed

lemma recorded_same:
  assumes at: "recorded_at ls trail place" and i: "i < length ls"
    and old: "lv_recorded l \<Longrightarrow> lv_recorded (ls ! i) \<and> (\<forall>k. has_record (ls ! i) trail k \<longrightarrow> has_record l trail k)"
  shows "recorded_at (ls[i := l]) trail place"
proof -
  have "{j. j < length (ls[i := l]) \<and> lv_recorded (ls[i := l] ! j)} \<subseteq> {j. j < length ls \<and> lv_recorded (ls ! j)}"
    using old i by (auto simp: nth_list_update split: if_split_asm)
  with at have "inj_on place {j. j < length (ls[i := l]) \<and> lv_recorded (ls[i := l] ! j)}"
    by (auto simp: recorded_at_def intro: inj_on_subset)
  moreover have "has_record (ls[i := l] ! j) trail (place j)" if "j < length ls" "lv_recorded (ls[i := l] ! j)" for j
    using at i old that by (auto simp: recorded_at_def nth_list_update split: if_split_asm)
  ultimately show ?thesis by (simp add: recorded_at_def)
qed

lemma recorded_now:
  assumes at: "recorded_at ls trail place" and i: "i < length ls" and pending: "\<not> lv_recorded (ls ! i)"
    and new: "has_record l (trail @ [e]) (length trail)"
  shows "recorded_at (ls[i := l]) (trail @ [e]) (place(i := length trail))"
proof -
  let ?old = "{j. j < length ls \<and> lv_recorded (ls ! j)}"
  have below: "place j < length trail" if "j \<in> ?old" for j
    using at that by (auto simp: recorded_at_def has_record_def)
  have "inj_on (place(i := length trail)) (insert i ?old)"
  proof (rule inj_onI)
    fix j k assume jk: "j \<in> insert i ?old" "k \<in> insert i ?old"
      "(place(i := length trail)) j = (place(i := length trail)) k"
    then show "j = k"
      using below [of j] below [of k] at by (auto simp: recorded_at_def dest: inj_onD split: if_split_asm)
  qed
  moreover have "{j. j < length (ls[i := l]) \<and> lv_recorded (ls[i := l] ! j)} \<subseteq> insert i ?old"
    using i by (auto simp: nth_list_update split: if_split_asm)
  ultimately have "inj_on (place(i := length trail)) {j. j < length (ls[i := l]) \<and> lv_recorded (ls[i := l] ! j)}"
    by (rule inj_on_subset)
  moreover have "has_record (ls[i := l] ! j) (trail @ [e]) ((place(i := length trail)) j)"
    if "j < length ls" "lv_recorded (ls[i := l] ! j)" for j
    using at new i that has_record_grows by (auto simp: recorded_at_def nth_list_update split: if_split_asm)
  ultimately show ?thesis by (simp add: recorded_at_def)
qed

text \<open>One event of one stream: which chunks go out does not depend on the rest of the state.\<close>

lemma step_gen_sent:
  "ss_gen a = ss_gen b \<Longrightarrow> ss_sent a = ss_sent b \<Longrightarrow>
   ss_gen (stream_step who d ev a) = ss_gen (stream_step who d ev b) \<and>
   ss_sent (stream_step who d ev a) = ss_sent (stream_step who d ev b)"
  by (cases ev) (auto simp: resume_def split: gen_state.split pull.split exn.split)

lemma sent_progress_cong: "ss_gen a = ss_gen b \<Longrightarrow> ss_sent a = ss_sent b \<Longrightarrow> sent_progress d a = sent_progress d b"
  by (simp add: sent_progress_def cong: gen_state.case_cong)

lemma stream_of_simps [simp]:
  "ss_gen (stream_of s l) = lv_gen l" "ss_sent (stream_of s l) = lv_sent l"
  "ss_recorded (stream_of s l) = lv_recorded l" "ss_broker (stream_of s l) = s"
  by (simp_all add: stream_of_def)

lemma step_progress:
  assumes "sent_progress d st"
  shows "sent_progress d (stream_step who d ev st)"
proof -
  let ?st = "st\<lparr>ss_recorded := False\<rparr>"
  have "stream_inv who d (ss_broker st) ?st"
    using assms by (simp add: stream_inv_def sent_progress_def cong: gen_state.case_cong)
  from step_inv [OF this, of ev] have "sent_progress d (stream_step who d ev ?st)" by (simp add: stream_inv_def)
  moreover have "sent_progress d (stream_step who d ev ?st) = sent_progress d (stream_step who d ev st)"
    using step_gen_sent [of ?st st who d ev] by (intro sent_progress_cong) simp_all
  ultimately show ?thesis by blast
qed

lemma drive_sel:
  assumes "drive l ev s = (l', s')"
  shows "lv_who l' = lv_who l" "lv_download l' = lv_download l"
    and "stream_of s' l' = stream_step (lv_who l) (lv_download l) ev (stream_of s l)"
  using assms by (auto simp: drive_def Let_def stream_of_def)

lemma drive_progress:
  "drive l ev s = (l', s') \<Longrightarrow> sent_progress (lv_download l) (stream_of s l) \<Longrightarrow>
   sent_progress (lv_download l') (stream_of s' l')"
  by (simp add: drive_sel step_progress)

text \<open>An event of a pending stream: it stays pending and nothing is seen, or it is recorded and closed.\<close>

lemma drive_pending:
  assumes run: "drive l ev s = (l', s')" and pend: "\<not> lv_recorded l"
    and progress: "sent_progress (lv_download l) (stream_of s l)"
  shows "bs_calls s' = bs_calls s \<and>
    (if lv_recorded l'
     then (\<exists>e. bs_audit s' = bs_audit s @ [e] \<and> has_record l' (bs_audit s @ [e]) (length (bs_audit s))) \<and>
          bs_open s' = filter (\<lambda>j. j \<noteq> lv_id l) (bs_open s)
     else bs_audit s' = bs_audit s \<and> bs_open s' = bs_open s)"
proof -
  have "stream_inv (lv_who l) (lv_download l) s (stream_of s l)"
    using pend progress by (simp add: stream_inv_def)
  from step_inv [OF this, of ev] have "stream_inv (lv_who l) (lv_download l) s (stream_of s' l')"
    by (simp add: drive_sel(3) [OF run])
  then show ?thesis by (auto simp: stream_inv_def has_record_def drive_sel(1,2) [OF run] split: if_split_asm)
qed

text \<open>An event of a recorded stream is not seen, and its record stays true of it.\<close>

lemma step_recorded_quiet:
  "ss_recorded st \<Longrightarrow> ss_recorded (stream_step who d ev st) \<and>
   bs_calls (ss_broker (stream_step who d ev st)) = bs_calls (ss_broker st) \<and>
   bs_audit (ss_broker (stream_step who d ev st)) = bs_audit (ss_broker st) \<and>
   bs_open (ss_broker (stream_step who d ev st)) \<in>
     {bs_open (ss_broker st), filter (\<lambda>j. j \<noteq> sd_id d) (bs_open (ss_broker st))} \<and>
   (ss_gen st = GenDone \<longrightarrow> ss_gen (stream_step who d ev st) = GenDone \<and>
      ss_sent (stream_step who d ev st) = ss_sent st)"
  by (cases ev) (auto simp: resume_def split: gen_state.split pull.split exn.split)

lemma drive_recorded:
  assumes run: "drive l ev s = (l', s')" and "lv_recorded l"
  shows "lv_recorded l' \<and> bs_calls s' = bs_calls s \<and> bs_audit s' = bs_audit s \<and>
    bs_open s' \<in> {bs_open s, filter (\<lambda>j. j \<noteq> lv_id l) (bs_open s)} \<and>
    (has_record l trail k \<longrightarrow> has_record l' trail k)"
  using step_recorded_quiet [of "stream_of s l" "lv_who l" "lv_download l" ev] assms(2)
  unfolding drive_sel(3) [OF run, symmetric]
  by (auto simp: has_record_def drive_sel(1,2) [OF run] terminal_record_def)

section \<open>Every step is allowed\<close>

lemma split_at: "i < length ls \<Longrightarrow> \<exists>before after. ls = before @ ls ! i # after \<and> ls[i := l] = before @ l # after"
  by (intro exI [of _ "take i ls"] exI [of _ "drop (Suc i) ls"]) (simp add: id_take_nth_drop [symmetric] upd_conv_take_nth_drop)

lemma attended_keeps:
  assumes "attended cfg s s'" and "open_wf s"
  shows "open_wf s' \<and> bs_open s' = bs_open s \<and> length (bs_calls s) \<le> length (bs_calls s') \<and>
    (\<exists>later. bs_audit s' = bs_audit s @ later)"
  using assms(1) unfolding attended_def
proof (elim disjE exE conjE)
  fix e assume "s' = log_record e s"
  with assms(2) show ?thesis by (auto simp: open_wf_def)
next
  fix p assume "worked cfg p s s'"
  with assms(2) show ?thesis by (auto simp: worked_def open_same_def)
qed

lemma service_inv_keeps:
  assumes inv: "service_inv sv" and "open_wf s'" and "bs_open s' = bs_open (sv_broker sv)"
    and grow: "length (bs_calls (sv_broker sv)) \<le> length (bs_calls s')" and audit: "bs_audit s' = bs_audit (sv_broker sv) @ later"
  shows "service_inv (sv\<lparr>sv_broker := s'\<rparr>)"
proof -
  from inv obtain place where "recorded_at (sv_streams sv) (bs_audit (sv_broker sv)) place" by (auto simp: service_inv_def)
  from recorded_grows [OF this, of later] have "\<exists>place. recorded_at (sv_streams sv) (bs_audit s') place"
    unfolding audit by blast
  moreover have "sent_progress d (stream_of s' l) = sent_progress d (stream_of (sv_broker sv) l)" for d l
    by (rule sent_progress_cong) simp_all
  ultimately show ?thesis using assms(1-4) by (fastforce simp: service_inv_def pending_def)
qed

lemma attended_inv:
  assumes "service_inv sv" and "attended cfg (sv_broker sv) s'"
  shows "service_inv (sv\<lparr>sv_broker := s'\<rparr>)"
  using attended_keeps [OF assms(2)] service_inv_keeps [OF assms(1), of s'] assms(1)
  by (auto simp: service_inv_def)

lemma calls_seen:
  assumes "calls_within (login_or P) s s'"
  obtains cs where "\<forall>c \<in> set cs. P c" "bs_calls s' = bs_calls s \<Longrightarrow> cs = []"
    "filter (\<lambda>c. \<not> is_login c) (bs_calls s') = filter (\<lambda>c. \<not> is_login c) (bs_calls s) @ cs"
proof -
  from assms obtain new where "bs_calls s' = bs_calls s @ new" "\<forall>c \<in> set new. is_login c \<or> P c"
    by (auto simp: calls_within_def)
  with that [of "filter (\<lambda>c. \<not> is_login c) new"] show thesis by auto
qed

lemma attended_sim:
  assumes "attended cfg (sv_broker sv) s'"
  shows "\<exists>ks. runs (allows cfg) (view sv) ks (view (sv\<lparr>sv_broker := s'\<rparr>))"
  using assms unfolding attended_def
proof (elim disjE exE conjE)
  fix e assume "ae_outcome e = ''denied''" and "s' = log_record e (sv_broker sv)"
  then have "allows cfg (view sv) Refused (view (sv\<lparr>sv_broker := s'\<rparr>))"
    using allow_refusal [of e cfg "view sv"] by (simp add: view_def pending_def)
  from runs_single [of "allows cfg", OF this] show ?thesis ..
next
  fix p assume p: "granted cfg p" and work: "worked cfg p (sv_broker sv) s'"
  from work obtain cs where cs: "\<forall>c \<in> set cs. authority cfg p c" "bs_calls s' = bs_calls (sv_broker sv) \<Longrightarrow> cs = []"
    "filter (\<lambda>c. \<not> is_login c) (bs_calls s') = filter (\<lambda>c. \<not> is_login c) (bs_calls (sv_broker sv)) @ cs"
    by (auto simp: worked_def elim: calls_seen)
  from work cs(2) obtain es where es: "bs_audit s' = bs_audit (sv_broker sv) @ es"
    "es = [] \<or> (\<exists>e. es = [e] \<and> ae_instance e = JStr (ip_name p) \<and> (ae_outcome e = ''denied'' \<longrightarrow> cs = []))"
    by (auto simp: worked_def)
  have "allows cfg (view sv) (Worked p) (view (sv\<lparr>sv_broker := s'\<rparr>))"
    using allow_work [OF p cs(1) es(2), of "[]" "view sv"] es(1) cs(3) by (simp add: view_def pending_def)
  from runs_single [of "allows cfg", OF this] show ?thesis ..
qed

text \<open>A probe.\<close>

lemma probe_calls:
  assumes "healthz_route w cfg s = (r, s')"
  shows "calls_within (login_or is_probe) s s' \<and> open_same s s' \<and> bs_audit s' = bs_audit s"
proof -
  have "op_rel (calls_within (login_or is_probe)) (healthz_route w cfg)"
    unfolding healthz_route_def by (intro confined.op_rules confined.health_rel) simp
  moreover have "op_rel open_same (healthz_route w cfg)"
    unfolding healthz_route_def by (intro unleaked.op_rules unleaked.health_rel) simp
  moreover have "op_rel audit_same (healthz_route w cfg)"
    unfolding healthz_route_def by (intro unaudited.op_rules unaudited.health_rel) simp
  ultimately show ?thesis using assms by (auto simp: audit_same_def dest: op_relD)
qed

lemma probe_step:
  assumes inv: "service_inv sv" and run: "healthz_route w cfg (sv_broker sv) = (r, s')"
  shows "service_inv (sv\<lparr>sv_broker := s'\<rparr>) \<and> (\<exists>ks. runs (allows cfg) (view sv) ks (view (sv\<lparr>sv_broker := s'\<rparr>)))"
proof -
  from probe_calls [OF run] have calls: "calls_within (login_or is_probe) (sv_broker sv) s'"
    and keep: "open_same (sv_broker sv) s'" and audit: "bs_audit s' = bs_audit (sv_broker sv)" by simp_all
  from calls obtain cs where cs: "\<forall>c \<in> set cs. is_probe c"
    "filter (\<lambda>c. \<not> is_login c) (bs_calls s') = filter (\<lambda>c. \<not> is_login c) (bs_calls (sv_broker sv)) @ cs"
    by (auto elim: calls_seen)
  have "allows cfg (view sv) Probed (view (sv\<lparr>sv_broker := s'\<rparr>))"
    using allow_probe [OF cs(1), of cfg "view sv"] audit cs(2) by (simp add: view_def pending_def)
  from runs_single [of "allows cfg", OF this] service_inv_keeps [OF inv, of s' "[]"] keep audit inv show ?thesis
    by (auto simp: open_same_def service_inv_def)
qed

text \<open>A download that was opened.\<close>

lemma opened_sel [simp]:
  "lv_who (opened who d) = who" "lv_download (opened who d) = d" "\<not> lv_recorded (opened who d)"
  "lv_gen (opened who d) = GenNew" "lv_sent (opened who d) = []"
  by (simp_all add: opened_def)

lemma opened_step:
  assumes inv: "service_inv sv" and od: "opens_download cfg who d (sv_broker sv) s'"
  defines "sv' \<equiv> \<lparr>sv_broker = s', sv_streams = sv_streams sv @ [opened who d]\<rparr>"
  shows "service_inv sv' \<and> (\<exists>ks. runs (allows cfg) (view sv) ks (view sv'))"
proof
  have "sent_progress d (stream_of s' (opened who d))" by (simp add: sent_progress_def)
  moreover have "sent_progress e (stream_of s' l) = sent_progress e (stream_of (sv_broker sv) l)" for e l
    by (rule sent_progress_cong) simp_all
  moreover from inv obtain place where "recorded_at (sv_streams sv) (bs_audit (sv_broker sv)) place"
    by (auto simp: service_inv_def)
  from recorded_opened [OF this, of "opened who d"] od have
    "\<exists>place. recorded_at (sv_streams sv') (bs_audit s') place" by (auto simp: sv'_def opens_download_def)
  ultimately show "service_inv sv'"
    using inv od by (fastforce simp: service_inv_def sv'_def pending_def opens_download_def)
  from od obtain cs where cs: "\<forall>c \<in> set cs. authority cfg (ca_instance who) c"
    "filter (\<lambda>c. \<not> is_login c) (bs_calls s') = filter (\<lambda>c. \<not> is_login c) (bs_calls (sv_broker sv)) @ cs"
    by (auto simp: opens_download_def elim: calls_seen)
  from od have "granted cfg (ca_instance who)" "permits_administration (ca_instance who) ''cluster''"
    and audit: "bs_audit s' = bs_audit (sv_broker sv)" by (simp_all add: opens_download_def)
  with allow_work [OF _ cs(1), of "[]" "[ip_name (ca_instance who)]" "view sv"] cs(2)
  have "allows cfg (view sv) (Worked (ca_instance who)) (view sv')"
    by (simp add: view_def pending_def sv'_def)
  from runs_single [of "allows cfg", OF this] show "\<exists>ks. runs (allows cfg) (view sv) ks (view sv')" ..
qed

text \<open>An event of a stream.\<close>

lemma pending_split:
  "sv_streams sv = before @ l # after \<Longrightarrow>
   pending sv = filter (\<lambda>l. \<not> lv_recorded l) before @ (if lv_recorded l then [] else [l]) @
     filter (\<lambda>l. \<not> lv_recorded l) after"
  by (simp add: pending_def)

lemma drive_step:
  assumes inv: "service_inv sv" and i: "i < length (sv_streams sv)"
    and run: "drive (sv_streams sv ! i) ev (sv_broker sv) = (l', s')"
  defines "sv' \<equiv> \<lparr>sv_broker = s', sv_streams = (sv_streams sv)[i := l']\<rparr>"
  shows "service_inv sv' \<and> (\<exists>ks. runs (allows cfg) (view sv) ks (view sv'))"
proof -
  let ?s = "sv_broker sv" and ?pend = "filter (\<lambda>l. \<not> lv_recorded l)"
  obtain before after where parts: "sv_streams sv = before @ sv_streams sv ! i # after"
    "(sv_streams sv)[i := l'] = before @ l' # after"
    using split_at [OF i] by blast
  define l where "l = sv_streams sv ! i"
  then have l: "sv_streams sv ! i = l" by (rule sym)
  have at: "sv_streams sv = before @ l # after" unfolding l_def by (rule parts(1))
  have upd: "sv_streams sv' = before @ l' # after" using parts(2) by (simp add: sv'_def)
  note run = run [unfolded l]
  note ids = drive_sel(1,2) [OF run]
  from inv obtain place where rec: "recorded_at (sv_streams sv) (bs_audit ?s) place" by (auto simp: service_inv_def)
  have wf: "open_wf ?s" and opens: "bs_open ?s = rev (map lv_id (pending sv))"
    and dist: "distinct (map lv_id (sv_streams sv))" using inv by (simp_all add: service_inv_def)
  have progress: "\<forall>l \<in> set (sv_streams sv). lv_id l < length (bs_calls ?s) \<and> sent_progress (lv_download l) (stream_of ?s l)"
    using inv by (simp add: service_inv_def)
  have same: "sent_progress d (stream_of s' l) = sent_progress d (stream_of ?s l)" for d l
    by (rule sent_progress_cong) simp_all
  have "\<forall>l \<in> set (sv_streams sv'). lv_id l < length (bs_calls ?s) \<and> sent_progress (lv_download l) (stream_of s' l)"
    using progress drive_progress [OF run] unfolding upd at by (auto simp: ids same)
  moreover have "distinct (map lv_id (sv_streams sv'))" using dist unfolding upd at by (simp add: ids)
  ultimately have inv_if: "service_inv sv'" if "bs_calls s' = bs_calls ?s" "bs_open s' = rev (map lv_id (pending sv'))"
      "\<exists>place. recorded_at (sv_streams sv') (bs_audit s') place" "set (bs_open s') \<subseteq> set (bs_open ?s)"
    using that wf by (auto simp: service_inv_def sv'_def open_wf_def)
  have "filter (\<lambda>j. j \<noteq> lv_id l) (map lv_id (?pend before)) = map lv_id (?pend before)"
    "filter (\<lambda>j. j \<noteq> lv_id l) (map lv_id (?pend after)) = map lv_id (?pend after)"
    using dist unfolding at by (auto intro!: filter_True)
  then have closed: "filter (\<lambda>j. j \<noteq> lv_id l) (bs_open ?s) = rev (map lv_id (?pend before @ ?pend after))"
    unfolding opens pending_split [OF at] by (simp add: rev_filter [symmetric])
  note pends = pending_split [OF at] pending_split [OF upd]
  have sv': "sv_broker sv' = s'" "sv_streams sv' = (sv_streams sv)[i := l']" by (simp_all add: sv'_def)
  show ?thesis
  proof (cases "lv_recorded l")
    case True
    note quiet = drive_recorded [OF run True]
    then have p: "pending sv' = pending sv" using True pends by simp
    have "bs_open ?s = rev (map lv_id (?pend before @ ?pend after))" using True opens pends(1) by simp
    with closed quiet have open': "bs_open s' = bs_open ?s" by auto
    have "recorded_at (sv_streams sv') (bs_audit s') place"
      using recorded_same [OF rec i, of l'] quiet True by (auto simp: l sv'(2))
    with quiet open' p opens have "service_inv sv'" by (intro inv_if) auto
    moreover have "view sv' = view sv" using quiet p by (simp add: view_def sv'(1))
    ultimately show ?thesis by auto
  next
    case False
    have "sent_progress (lv_download l) (stream_of ?s l)" using progress at by simp
    note quiet = drive_pending [OF run False this]
    show ?thesis
    proof (cases "lv_recorded l'")
      case False
      then have p: "map lv_id (pending sv') = map lv_id (pending sv)" "map lv_name (pending sv') = map lv_name (pending sv)"
        using \<open>\<not> lv_recorded l\<close> pends by (simp_all add: ids)
      have "recorded_at (sv_streams sv') (bs_audit s') place"
        using recorded_same [OF rec i, of l'] quiet False by (auto simp: l sv'(2))
      with quiet p opens False have "service_inv sv'" by (intro inv_if) auto
      moreover have "view sv' = view sv" using quiet p False by (simp add: view_def sv'(1))
      ultimately show ?thesis by auto
    next
      case True
      with quiet obtain e where audit: "bs_audit s' = bs_audit ?s @ [e]"
        and new: "has_record l' (bs_audit ?s @ [e]) (length (bs_audit ?s))"
        and opened: "bs_open s' = filter (\<lambda>j. j \<noteq> lv_id l) (bs_open ?s)" and calls: "bs_calls s' = bs_calls ?s" by auto
      have "recorded_at (sv_streams sv') (bs_audit s') (place(i := length (bs_audit ?s)))"
        using recorded_now [OF rec i _ new] False by (simp add: l sv'(2) audit)
      moreover have "set (bs_open s') \<subseteq> set (bs_open ?s)" unfolding opened by auto
      moreover have "bs_open s' = rev (map lv_id (pending sv'))" using opened closed True pends by simp
      ultimately have "service_inv sv'" using calls by (intro inv_if) blast+
      moreover have "ae_instance e = JStr (lv_name l)" "ae_operation e = DOWNLOAD_OPERATION" "ae_outcome e \<in> {''ok'', ''error''}"
        using new by (auto simp: has_record_def terminal_record_def ids)
      with allow_finish [of "view sv" "map lv_name (?pend before)" "lv_name l" "map lv_name (?pend after)" e cfg]
      have "allows cfg (view sv) (Finished (lv_name l)) (view sv')"
        using False True pends audit calls by (simp add: view_def sv'(1))
      from runs_single [of "allows cfg", OF this] have "\<exists>ks. runs (allows cfg) (view sv) ks (view sv')" ..
      ultimately show ?thesis by blast
    qed
  qed
qed

text \<open>Every event of the service keeps the invariant and is allowed.\<close>

lemma service_step:
  assumes inv: "service_inv sv" and step: "serves w cfg sv ev sv'"
  shows "service_inv sv' \<and> (\<exists>ks. runs (allows cfg) (view sv) ks (view sv'))"
proof -
  have attend: "service_inv (sv\<lparr>sv_broker := s'\<rparr>) \<and> (\<exists>ks. runs (allows cfg) (view sv) ks (view (sv\<lparr>sv_broker := s'\<rparr>)))"
    if "attended cfg (sv_broker sv) s'" for s'
    using attended_inv [OF inv that] attended_sim [OF that] by simp
  have stay: "service_inv sv \<and> (\<exists>ks. runs (allows cfg) (view sv) ks (view sv))" using inv by auto
  from step have sv': "sv' = serve w cfg ev sv" and tls: "over_tls ev" by (simp_all add: serves_def)
  show ?thesis
  proof (cases ev)
    case (Ask rid scope request)
    with tls sv' attend [OF ask_attended [OF _ prod.collapse [symmetric]]] show ?thesis by auto
  next
    case (Garbled rid scope)
    from malformed_attended [OF prod.collapse [symmetric], of rid scope "sv_broker sv" cfg]
    consider "snd (malformed_request rid scope (sv_broker sv)) = sv_broker sv"
      | "attended cfg (sv_broker sv) (snd (malformed_request rid scope (sv_broker sv)))" by blast
    then show ?thesis
    proof cases
      case 1
      with Garbled sv' stay show ?thesis by simp
    next
      case 2
      with Garbled sv' attend show ?thesis by simp
    qed
  next
    case Probe
    with sv' probe_step [OF inv prod.collapse [symmetric]] show ?thesis by simp
  next
    case (OpenDownload rid scope digest)
    obtain r s' where run: "download_endpoint w cfg rid scope digest (sv_broker sv) = (r, s')"
      by (cases "download_endpoint w cfg rid scope digest (sv_broker sv)")
    from tls OpenDownload obtain cert where "tls_scope cert scope" by auto
    from download_attended [OF this _ run] inv
    have "case r of Inl e \<Rightarrow> attended cfg (sv_broker sv) s' | Inr (who, d) \<Rightarrow> opens_download cfg who d (sv_broker sv) s'"
      by (simp add: service_inv_def)
    with run OpenDownload sv' attend opened_step [OF inv] show ?thesis by (auto split: sum.splits)
  next
    case (Drive i e)
    show ?thesis
    proof (cases "i < length (sv_streams sv)")
      case True
      obtain l' s' where run: "drive (sv_streams sv ! i) e (sv_broker sv) = (l', s')"
        by (cases "drive (sv_streams sv ! i) e (sv_broker sv)")
      from drive_step [OF inv True run] run True Drive sv' show ?thesis by simp
    next
      case False
      with Drive sv' stay show ?thesis by simp
    qed
  next
    case (Upload rid scope rq)
    with tls sv' attend [OF upload_attended [OF _ prod.collapse [symmetric]]] show ?thesis by auto
  qed
qed

interpretation service: forward_simulation "serves w cfg" service_inv "allows cfg" view for w cfg
  by unfold_locales (use service_step in blast)+

lemma started_inv: "service_inv started"
  by (auto simp: service_inv_def started_def init_state_def open_wf_def pending_def recorded_at_def)

lemma started_view: "view started = \<lparr>mn_calls = [], mn_trail = [], mn_live = []\<rparr>"
  by (simp add: view_def started_def init_state_def pending_def)

end
