(* ===== verification/Service_Trail.thy ===== *)
theory Service_Trail
  imports Service_Runs Broker_Logging
begin

text \<open>
  From a record to its line: every record the service makes has one, in every reachable state, so that the
  trail of \<open>broker_state\<close> is what standard output shows.
\<close>

section \<open>Records that have a line\<close>

definition plain_entry :: "audit_entry \<Rightarrow> bool" where
  "plain_entry e \<longleftrightarrow> \<not> has_float (ae_instance e) \<and> \<not> has_float (ae_version e)"

lemma plain_line: "plain_entry e \<Longrightarrow> \<exists>line. audit_line ts e = Some line"
proof -
  assume "plain_entry e"
  then have "\<not> has_float (sort_json (audit_object ts e))"
    by (auto simp: has_float_sort audit_object_def plain_entry_def opt_str_def split: option.split)
  then show ?thesis unfolding audit_line_def by (rule dumps_no_float)
qed

lemma plain_audit_entry: "\<not> has_float version \<Longrightarrow> plain_entry (audit_entry_of who operation path outcome reason version)"
  by (simp add: plain_entry_def)

definition plain_trail :: "broker_state \<Rightarrow> broker_state \<Rightarrow> bool" where
  "plain_trail s t \<longleftrightarrow> ((\<forall>e \<in> set (bs_audit s). plain_entry e) \<longrightarrow> (\<forall>e \<in> set (bs_audit t). plain_entry e))"

interpretation plain: state_preorder plain_trail
proof
  show "plain_trail s s" for s unfolding plain_trail_def by iprover
  show "plain_trail s u" if "plain_trail s t" "plain_trail t u" for s t u
    using that unfolding plain_trail_def by iprover
qed

named_theorems plain_rules \<open>operations whose records have a line\<close>

lemmas [plain_rules] = plain.op_rules

lemma plain_unaudited: "op_rel audit_same m \<Longrightarrow> op_rel plain_trail m"
  by (simp add: op_rel_def audit_same_def plain_trail_def)

lemma plain_record [plain_rules]: "plain_entry e \<Longrightarrow> op_rel plain_trail (audit_record e)"
  by (auto simp: op_rel_def plain_trail_def)

lemma plain_deny [plain_rules]: "op_rel plain_trail (deny who operation path reason status detail)"
  unfolding deny_def by (intro plain_rules plain_audit_entry) simp

lemma plain_authorize [plain_rules]: "op_rel plain_trail (authorize who path operation writes deletes)"
proof (cases "normalize_path (JStr path)")
  case (Inl e)
  then show ?thesis by (cases e) (auto simp: authorize_def intro!: plain_rules)
qed (simp add: authorize_def plain_rules)

lemma plain_run_error [plain_rules]:
  "\<not> has_float version \<Longrightarrow> op_rel plain_trail (run_error who operation path version e)"
  by (rule op_relI) (cases e; auto simp: run_error_run plain_trail_def plain_entry_def)

lemma plain_run [plain_rules]:
  assumes "op_rel audit_same action" and version: "\<not> has_float version"
  shows "op_rel plain_trail (run who operation path action version from_result)"
proof -
  have "\<not> has_float (if from_result \<and> is_int result then result else version)" for result
    using version by (cases result) simp_all
  with assms show ?thesis
    unfolding run_def Let_def by (intro plain_rules plain_unaudited plain_audit_entry)
qed

section \<open>Every request\<close>

lemma plain_authorized_run:
  assumes "\<And>q. op_rel audit_same (action q)" and "\<not> has_float version"
  shows "op_rel plain_trail (authorized_run who path operation writes deletes action version from_result wrap)"
  unfolding authorized_run_def using assms by (intro plain_rules)

lemma has_float_opt_int [simp]: "\<not> has_float (opt_int v)"
  by (simp add: opt_int_def split: option.split)

lemma plain_administration: "op_rel plain_trail (administration_request_route w cfg body who)"
proof (cases "admitted_operation (ab_operation body) (ab_arguments body)")
  case (Inl e)
  then show ?thesis
    by (cases e) (simp_all add: administration_request_route_def plain_deny plain.throw_rel)
next
  case (Inr p)
  then obtain contract arguments where
    "admitted_operation (ab_operation body) (ab_arguments body) = Inr (contract, arguments)" by (cases p) simp
  moreover have "op_rel plain_trail (run who operation []
      (bind_op (execute_administration w cfg (ab_operation body) arguments) (\<lambda>d. ret (JObj d))) JNull False)" for operation
    using vadmin.keeps_audit [of w cfg "ab_operation body" arguments]
    by (intro plain_run) (simp_all add: administration_action_def)
  ultimately show ?thesis
    by (simp add: administration_request_route_def plain_deny plain.bind_rel plain.ret_rel)
qed

lemma plain_route: "op_rel plain_trail (route w cfg request who)"
proof (cases request)
  case AdministrationContract
  then show ?thesis
    by (simp add: administration_contract_route_def Let_def plain_deny plain.bind_rel plain.ret_rel plain_record
        plain_audit_entry)
qed (simp_all add: plain_administration secret_routes plain_authorized_run vread.keeps_audit vwrite.keeps_audit
    vdelete.keeps_audit vversions.keeps_audit vmeta.keeps_audit vsetmeta.keeps_audit)

lemma plain_caller:
  assumes "tls_scope cert scope"
  shows "op_rel plain_trail (caller_of cfg rid scope)"
  using assms
proof (cases rule: tls_identity_cases)
  case (anonymous m)
  then show ?thesis
    by (simp add: caller_of_def plain.bind_rel plain_record plain.throw_rel plain_entry_def identify_entry_def)
next
  case (named name)
  have "plain_entry (identify_entry (JStr name) reason rid)" for reason by (simp add: plain_entry_def identify_entry_def)
  then have "op_rel plain_trail (case policy of
      None \<Rightarrow> bind_op (audit_record (identify_entry (JStr name) ''instance not configured'' rid))
        (\<lambda>_. throw (HTTPException 403 ''This client is not a configured instance.'' []))
    | Some p \<Rightarrow> ret \<lparr>ca_instance = p, ca_request_id = rid\<rparr>)" for policy
    by (cases policy) (simp_all add: plain.bind_rel plain_record plain.throw_rel plain.ret_rel)
  with named(1) show ?thesis by (simp add: caller_of_def plain.bind_rel plain.lift_rel)
qed

lemma plain_malformed:
  assumes "tls_scope cert scope"
  shows "op_rel plain_trail (malformed_request rid scope)"
  using assms
proof (cases rule: tls_identity_cases)
  case (anonymous m)
  then show ?thesis
    by (auto simp: op_rel_def malformed_request_def bind_op_run plain_trail_def plain_entry_def)
next
  case (named name)
  then show ?thesis
    by (auto simp: op_rel_def malformed_request_def bind_op_run plain_trail_def plain_entry_def)
qed

lemma plain_healthz: "op_rel plain_trail (healthz_route w cfg)"
proof (rule op_relI)
  fix s r s' assume "healthz_route w cfg s = (r, s')"
  from probe_calls [OF this] show "plain_trail s s'" by (simp add: plain_trail_def)
qed

lemma plain_authorize_snapshot: "op_rel plain_trail (authorize_snapshot who digest operation)"
  by (simp add: authorize_snapshot_def plain_deny plain.ret_rel)

lemma plain_download_error: "op_rel plain_trail (download_error who e)"
  by (cases e) (simp_all add: download_error_def plain.bind_rel plain_record plain.throw_rel plain_audit_entry)

lemma plain_download:
  assumes "tls_scope cert scope"
  shows "op_rel plain_trail (download_endpoint w cfg rid scope digest)"
  unfolding download_endpoint_def download_snapshot_route_def
  by (intro plain.bind_rel plain.catch_rel plain_caller [OF assms] plain_authorize_snapshot plain_download_error
      plain_unaudited [OF download_unaudited] plain.ret_rel) (auto simp: plain.ret_rel split: prod.split)

lemma plain_upload:
  assumes "tls_scope cert scope"
  shows "op_rel plain_trail (upload_endpoint w cfg rid scope rq)"
proof -
  have run: "op_rel plain_trail (run who RESTORE_OPERATION []
      (returning_none (restore_raft_snapshot w cfg content n (sr_force rq))) JNull False)" for who content n
    by (intro plain_run vrestore.keeps_audit) simp
  have "op_rel plain_trail (restore_snapshot_route w cfg rq who)" for who
    unfolding restore_snapshot_route_def
    by (intro plain.bind_rel plain_authorize_snapshot plain.if_rel plain_deny)
      (auto intro!: plain.bind_rel plain_deny run plain.ret_rel plain.throw_rel plain_record plain_audit_entry
        split: upload.split)
  then show ?thesis unfolding upload_endpoint_def by (intro plain.bind_rel plain_caller [OF assms])
qed

section \<open>Every state\<close>

lemma step_plain: "plain_trail (ss_broker st) (ss_broker (stream_step who d ev st))"
  by (cases ev) (auto simp: plain_trail_def plain_entry_def resume_def split: gen_state.split pull.split exn.split)

definition plain_service :: "service \<Rightarrow> bool" where
  "plain_service sv \<longleftrightarrow> (\<forall>e \<in> set (bs_audit (sv_broker sv)). plain_entry e)"

lemma plain_op: "op_rel plain_trail m \<Longrightarrow> m s = (r, s') \<Longrightarrow> \<forall>e \<in> set (bs_audit s). plain_entry e \<Longrightarrow>
  \<forall>e \<in> set (bs_audit s'). plain_entry e"
  by (drule (1) op_relD) (simp add: plain_trail_def)

lemma plain_serve:
  assumes plain: "plain_service sv" and step: "serves w cfg sv ev sv'"
  shows "plain_service sv'"
proof -
  from step have sv': "sv' = serve w cfg ev sv" and tls: "over_tls ev" by (simp_all add: serves_def)
  note now = plain [unfolded plain_service_def]
  show ?thesis
  proof (cases ev)
    case (Ask rid scope request)
    with tls have "op_rel plain_trail (endpoint w cfg rid scope request)"
      unfolding endpoint_def by (auto intro: plain.bind_rel plain_caller plain_route)
    from plain_op [OF this prod.collapse [symmetric] now] Ask sv' show ?thesis by (simp add: plain_service_def)
  next
    case (Garbled rid scope)
    with tls have "op_rel plain_trail (malformed_request rid scope)" by (auto intro: plain_malformed)
    from plain_op [OF this prod.collapse [symmetric] now] Garbled sv' show ?thesis by (simp add: plain_service_def)
  next
    case Probe
    from plain_op [OF plain_healthz prod.collapse [symmetric] now] Probe sv' show ?thesis by (simp add: plain_service_def)
  next
    case (OpenDownload rid scope digest)
    with tls have "op_rel plain_trail (download_endpoint w cfg rid scope digest)" by (auto intro: plain_download)
    from plain_op [OF this _ now] OpenDownload sv' show ?thesis
      by (auto simp: plain_service_def split: prod.split sum.split)
  next
    case (Drive i e)
    then show ?thesis
      using sv' now step_plain [of "stream_of (sv_broker sv) (sv_streams sv ! i)"]
      by (auto simp: plain_service_def drive_def Let_def plain_trail_def)
  next
    case (Upload rid scope rq)
    with tls have "op_rel plain_trail (upload_endpoint w cfg rid scope rq)" by (auto intro: plain_upload)
    from plain_op [OF this prod.collapse [symmetric] now] Upload sv' show ?thesis by (simp add: plain_service_def)
  qed
qed

interpretation trail: invariant_system "serves w cfg" plain_service for w cfg
  by unfold_locales (rule plain_serve)

lemma reachable_plain: "runs (serves w cfg) started evs sv \<Longrightarrow> e \<in> set (bs_audit (sv_broker sv)) \<Longrightarrow> plain_entry e"
  using trail.runs_inv [of w cfg started evs sv] by (simp add: plain_service_def started_def init_state_def)

section \<open>Their lines\<close>

text \<open>The entries among what is logged, and the lines they have.\<close>

fun audited :: "log_event list \<Rightarrow> audit_entry list" where
  "audited [] = []"
| "audited (Audited ts e # evs) = e # audited evs"
| "audited (Noted name level text # evs) = audited evs"

definition line_of :: "audit_entry \<Rightarrow> string \<Rightarrow> bool" where
  "line_of e line \<longleftrightarrow> (\<exists>ts. audit_line ts e = Some line)"

lemma audited_lines:
  "\<forall>e \<in> set (audited evs). plain_entry e \<Longrightarrow> list_all2 line_of (audited evs) (audit_lines evs)"
proof (induction evs rule: audited.induct)
  case (2 ts e evs)
  then obtain line where "audit_line ts e = Some line" using plain_line by fastforce
  with 2 show ?case by (auto simp: audit_lines_def line_of_def)
qed (simp_all add: audit_lines_def)

end
