(* ===== verification/Delivery_Properties.thy ===== *)
theory Delivery_Properties
  imports Service_Trail Broker_Examples
begin

text \<open>
  The properties of what surrounds the service: what the process starts with, what its telemetry exports, and
  what a release is built from and bound to.
\<close>

section \<open>Startup\<close>

text \<open>
  C30 (safety). The broker listens only with a configuration that loads, whose prefixes and families are
  well-formed, with logging configured, with credentials for OpenBao that are there and not empty, and over TLS with a
  certificate that every client has to present, checked against the configured authority; and it writes no access log.
\<close>

theorem broker_listens_with_mutual_tls:
  assumes "main env fs read_text has_httptools = Serve cfg options"
  shows "fst (configure_logging (log_level env) fresh_logging) = Inr () \<and> wf_config cfg \<and>
    (\<forall>name \<in> set (credential_names cfg). \<exists>v. read_secret_env env read_text name = Inr (Some v) \<and> v \<noteq> []) \<and>
    so_ssl_cert_reqs options = CertRequired \<and> \<not> so_access_log options \<and>
    env ''BROKER_TLS_CERT'' = Some (so_ssl_certfile options) \<and> so_ssl_certfile options \<noteq> [] \<and>
    env ''BROKER_TLS_KEY'' = Some (so_ssl_keyfile options) \<and> so_ssl_keyfile options \<noteq> [] \<and>
    env ''BROKER_TLS_CLIENT_CA'' = Some (so_ssl_ca_certs options) \<and> so_ssl_ca_certs options \<noteq> []"
  using main_serves [OF assms] load_config_wf check_credentials_present by (intro conjI ballI) blast+

theorem broker_listens_with_mutual_tls_witness:
  "wf_config sample_config \<and> (\<exists>v. read_secret_env sample_env (\<lambda>p. None) ''BROKER_BAO_ROLE_ID'' = Inr (Some v) \<and> v \<noteq> [])"
proof -
  have "(case main sample_env sample_document (\<lambda>p. None) True of
      Serve cfg options \<Rightarrow> cfg = sample_config \<and> so_port options = 8201 | _ \<Rightarrow> False)"
    by code_simp
  then obtain options where "main sample_env sample_document (\<lambda>p. None) True = Serve sample_config options"
    by (auto split: startup.splits)
  from broker_listens_with_mutual_tls [OF this] show ?thesis by (simp add: credential_names_def sample_config_def)
qed

section \<open>The audit stream\<close>

text \<open>
  Standard output is the audit trail and nothing else: whatever level is configured, and whatever
  the other loggers of the process say in between, its lines are the lines of the audit records, each once and in
  their order, as long as no other logger was given a handler on standard output before.
\<close>

theorem stdout_is_the_audit_trail:
  assumes "others_to_stderr before" and "lo_out before = []" and "\<forall>ev \<in> set evs. foreign ev"
  shows "split_on NEWLINE (lo_out (fold after_event evs (snd (configure_logging level before)))) = audit_lines evs @ [[]]"
proof -
  note config = configured [OF prod.collapse [symmetric], where level = level and lo = before]
  from log_events_out [OF config(1) config(2) [OF assms(1)] assms(3)] config(3) assms(2)
  have "lo_out (fold after_event evs (snd (configure_logging level before))) =
      concat (map (\<lambda>line. line @ [NEWLINE]) (audit_lines evs))" by simp
  then show ?thesis using audit_lines_single by (simp add: split_terminated)
qed

theorem stdout_is_the_audit_trail_witness:
  "\<exists>line. split_on NEWLINE (lo_out (fold after_event
     [Noted ''broker.vault'' Warning ''OpenBao denied the broker AppRole during read'',
      Audited ''now'' (audit_entry_of sample_caller ''read'' (Some [CHR 0x0A]) ''ok'' None JNull)]
     (snd (configure_logging ''CRITICAL'' fresh_logging)))) = [line, []]"
proof -
  let ?e = "audit_entry_of sample_caller ''read'' (Some [CHR 0x0A]) ''ok'' None JNull"
  let ?evs = "[Noted ''broker.vault'' Warning ''OpenBao denied the broker AppRole during read'', Audited ''now'' ?e]"
  have "ae_instance ?e = JStr ''netbox-a''" by (simp add: sample_caller_def sample_policy_def)
  then obtain line where "audit_line ''now'' ?e = Some line" using audit_line_fields [of ?e "''netbox-a''"] by auto
  then have lines: "audit_lines ?evs = [line]" by (simp add: audit_lines_def)
  have "AUDIT_LOGGER \<notin> set (logger_chain ''broker.vault'')"
  proof -
    have "logger_chain ''broker.vault'' = [''broker.vault'', ''broker'', []]" by code_simp
    then show ?thesis by (simp add: AUDIT_LOGGER_def)
  qed
  then have "\<forall>ev \<in> set ?evs. foreign ev" by simp
  from stdout_is_the_audit_trail [OF fresh_others _ this, of "''CRITICAL''"] lines
  have "split_on NEWLINE (lo_out (fold after_event ?evs (snd (configure_logging ''CRITICAL'' fresh_logging)))) = [line, []]"
    by (simp add: fresh_logging_def)
  then show ?thesis by (rule exI)
qed

text \<open>
  C31 (roundtrip). What an operator reads on standard output is the trail: after every run of the service, whatever
  level is configured and whatever the other loggers of the process say in between, standard output consists of one
  complete line for each record made so far, in their order, and of nothing else; no record is without its line.
\<close>

theorem trail_reaches_stdout:
  assumes run: "runs (serves w cfg) started evs sv"
    and logged: "audited les = bs_audit (sv_broker sv)" and others: "\<forall>ev \<in> set les. foreign ev"
  shows "\<exists>lines. split_on NEWLINE (lo_out (fold after_event les (snd (configure_logging level fresh_logging)))) =
      lines @ [[]] \<and>
    list_all2 (\<lambda>e line. \<exists>ts. audit_line ts e = Some line) (bs_audit (sv_broker sv)) lines"
proof -
  have "\<forall>e \<in> set (audited les). plain_entry e" using reachable_plain [OF run] logged by simp
  from audited_lines [OF this] logged
  have "list_all2 (\<lambda>e line. \<exists>ts. audit_line ts e = Some line) (bs_audit (sv_broker sv)) (audit_lines les)"
    by (simp add: line_of_def [abs_def])
  moreover have "lo_out fresh_logging = []" by (simp add: fresh_logging_def)
  ultimately show ?thesis using stdout_is_the_audit_trail [OF fresh_others _ others] by blast
qed

theorem trail_reaches_stdout_witness:
  "\<exists>e line ts. ae_operation e = ''malformed'' \<and> audit_line ts e = Some line \<and>
    split_on NEWLINE (lo_out (fold after_event [Noted ''broker.vault'' Warning ''x'', Audited ''now'' e]
      (snd (configure_logging ''CRITICAL'' fresh_logging)))) = [line, []]"
proof -
  let ?scope = "sample_scope (sample_cert ''netbox-a'')"
  let ?sv = "serve sample_world sample_config (Garbled ''r1'' ?scope) started"
  have "serves sample_world sample_config started (Garbled ''r1'' ?scope) ?sv"
    using sample_tls_scope by (auto simp: serves_def)
  note run = runs_single [of "serves sample_world sample_config", OF this]
  have "identity_from_scope ?scope = Inr (JStr ''netbox-a'')" by code_simp
  then obtain e where e: "bs_audit (sv_broker ?sv) = [e]" "ae_operation e = ''malformed''"
    by (simp add: malformed_request_def bind_op_run started_def init_state_def)
  let ?les = "[Noted ''broker.vault'' Warning ''x'', Audited ''now'' e]"
  have "logger_chain ''broker.vault'' = [''broker.vault'', ''broker'', []]" by code_simp
  then have "\<forall>ev \<in> set ?les. foreign ev" by (simp add: AUDIT_LOGGER_def)
  from trail_reaches_stdout [OF run _ this, of "''CRITICAL''"] e(1)
  obtain lines where lines: "split_on NEWLINE (lo_out (fold after_event ?les
        (snd (configure_logging ''CRITICAL'' fresh_logging)))) = lines @ [[]]"
      "list_all2 (\<lambda>e line. \<exists>ts. audit_line ts e = Some line) [e] lines"
    by auto
  from lines(2) obtain line ts where "lines = [line]" "audit_line ts e = Some line"
    by (auto simp: list_all2_Cons1)
  with e(2) lines(1) show ?thesis by auto
qed

section \<open>Telemetry\<close>

text \<open>
  C40 (functional). The processors take from what FastAPI's instrumentation emits what a caller controls, the
  texts of exceptions from log records and the path and the query of the URL from spans, and leave every other
  attribute, and every item of another scope, as it is.
\<close>

theorem telemetry_strips_caller_content:
  "map_of (attributes_or_empty (li_attributes (on_emit r))) k =
     (if li_scope r = Some ''fastapi'' \<and> k \<in> {''exception.message'', ''exception.stacktrace''} then None
      else map_of (attributes_or_empty (li_attributes r)) k) \<and>
   map_of (attributes_or_empty (sp_attributes (on_start s))) k =
     (if sp_scope s = Some ''fastapi'' \<and> k \<in> {''url.path'', ''url.query''} \<and>
         k \<in> dom (map_of (attributes_or_empty (sp_attributes s))) then Some (JStr ''REDACTED'')
      else map_of (attributes_or_empty (sp_attributes s)) k)"
proof -
  have "map_of (attributes_or_empty (li_attributes (on_emit r))) k =
      (if k \<in> {''exception.message'', ''exception.stacktrace''} then None
       else map_of (attributes_or_empty (li_attributes r)) k)" if "li_scope r = Some ''fastapi''"
    using on_emit_private [OF that] by (auto simp: attributes_or_empty_def)
  moreover have "on_emit r = r" if "li_scope r \<noteq> Some ''fastapi''" using that by (simp add: on_emit_def)
  moreover have "on_start s = s" if "sp_scope s \<noteq> Some ''fastapi''" using that by (simp add: on_start_def)
  ultimately show ?thesis
    using on_start_attributes [of s k] by (cases "li_scope r = Some ''fastapi''"; cases "sp_scope s = Some ''fastapi''")
      (simp_all add: dom_def)
qed

section \<open>Releases\<close>

text \<open>
  C34 (functional). A manifest describes exactly the regular files of the distribution: the wheel and the source
  archive of the version, neither a symbolic link nor empty, in the order of their names, each with its length
  and the SHA-256 digest of its content, under a version and a commit of the required form.
\<close>

theorem manifest_describes_distribution:
  assumes "create_manifest dist_dir version source_sha = Inr m"
  shows "\<exists>p q. map de_name [p, q] = sort [de_name p, de_name q] \<and>
    {de_name p, de_name q} = {wheel_name version, sdist_name version} \<and>
    set (filter de_is_file dist_dir) = {p, q} \<and> \<not> de_is_symlink p \<and> \<not> de_is_symlink q \<and>
    de_content p \<noteq> [] \<and> de_content q \<noteq> [] \<and> fullmatch VERSION_RE version \<and> fullmatch SHA_RE source_sha \<and>
    m = JObj [(''artifacts'', JArr (map (\<lambda>f. JObj [(''name'', JStr (de_name f)),
           (''sha256'', JStr (sha256_hex (de_content f))), (''size'', JInt (int (length (de_content f))))]) [p, q])),
        (''package'', JStr ''netbox-openbao-broker''), (''schema'', JInt 1),
        (''source_sha'', JStr source_sha), (''version'', JStr version)]"
  using assms by (rule manifest_artifacts)

theorem manifest_describes_distribution_witness:
  "\<exists>p q m. create_manifest sample_dist ''1.2.0'' sample_sha = Inr m \<and>
     {de_name p, de_name q} = {wheel_name ''1.2.0'', sdist_name ''1.2.0''} \<and>
     set (filter de_is_file sample_dist) = {p, q}"
proof -
  have identity: "validate_identity ''1.2.0'' sample_sha = Inr ()" by code_simp
  have "release_files sample_dist ''1.2.0'' = Inr (rev sample_dist)" by code_simp
  moreover have "\<exists>artifacts. res_map artifact_record (rev sample_dist) = Inr artifacts"
    by (simp add: sample_dist_def artifact_record_def res_bind_def)
  ultimately obtain m where "create_manifest sample_dist ''1.2.0'' sample_sha = Inr m"
    using identity by (auto simp: create_manifest_def)
  with manifest_describes_distribution [OF this] show ?thesis by blast
qed

text \<open>
  C32 (safety). A validated release is bound to reviewed source: its tag has the form of its event and names the
  version that the tagged commit's own metadata declares; the commit is the one checked out, it is the head of
  the main branch for a final release, and an ancestor of it for a release candidate.
\<close>

theorem release_bound_to_reviewed_source:
  assumes "validate_release_ref git toml tag event expected_head = Inr r"
  shows "event \<in> {''rc'', ''final''} \<and> tag = ''v'' @ ri_version r \<and> fullmatch SHA_RE (ri_source_sha r) \<and>
    git_output git [''rev-parse'', ''refs/release-policy/candidate^{commit}''] = Inr (ri_source_sha r) \<and>
    declared_version git toml (ri_source_sha r) = Inr (ri_version r) \<and>
    expected_head \<in> {[], ri_source_sha r} \<and>
    (\<exists>main_sha. git_output git [''rev-parse'', ''refs/release-policy/main^{commit}''] = Inr main_sha \<and>
      (if event = ''final'' then main_sha = ri_source_sha r
       else fst (git [''merge-base'', ''--is-ancestor'', ri_source_sha r, main_sha]) = 0))"
proof -
  note bound = validated_ref [OF assms]
  have "\<exists>main_sha. git_output git [''rev-parse'', ''refs/release-policy/main^{commit}''] = Inr main_sha \<and>
      (if event = ''final'' then main_sha = ri_source_sha r
       else fst (git [''merge-base'', ''--is-ancestor'', ri_source_sha r, main_sha]) = 0)"
  proof (cases "event = ''final''")
    case True
    with bound(8) show ?thesis by (intro exI [of _ "ri_source_sha r"]) simp
  next
    case False
    with bound(1) have "event = ''rc''" by simp
    from bound(9) [OF this] False show ?thesis by simp
  qed
  moreover have "expected_head \<in> {[], ri_source_sha r}" using bound(7) by (cases "expected_head = []") simp_all
  ultimately show ?thesis using bound(1,2,4-6) by (intro conjI) assumption+
qed

theorem release_bound_to_reviewed_source_witness:
  "\<exists>r. validate_release_ref sample_git sample_toml ''v1.2.0'' ''final'' '''' = Inr r \<and>
     git_output sample_git [''rev-parse'', ''refs/release-policy/main^{commit}''] = Inr (ri_source_sha r)"
proof -
  obtain r where r: "validate_release_ref sample_git sample_toml ''v1.2.0'' ''final'' [] = Inr r" using sample_release_validated by blast
  from release_bound_to_reviewed_source [OF this] r show ?thesis by auto
qed

text \<open>
  C33 (roundtrip). The output of a validated release is read back line by line as its four values: none of
  them can end its line, so that no tag adds an output of its own; what was in the file before stays.
\<close>

theorem release_output_line_by_line:
  assumes "validate_release_ref_main git toml tag event expected_head existing = Inr text"
  shows "\<exists>r out. validate_release_ref git toml tag event expected_head = Inr r \<and> text = existing @ out \<and>
    split_on LINE_END out = [''source_sha='' @ ri_source_sha r, ''tag='' @ tag,
      ''tag_object='' @ ri_tag_object r, ''version='' @ ri_version r, []]"
proof -
  from assms obtain r where r: "validate_release_ref git toml tag event expected_head = Inr r"
    and written: "text = existing @ concat (map output_line (output_values r))"
    by (auto simp: validate_release_ref_main_def res_bind_Inr)
  from release_lines [OF r] validated_ref(3) [OF r] have
    "split_on LINE_END (concat (map output_line (output_values r))) = [''source_sha='' @ ri_source_sha r, ''tag='' @ tag,
      ''tag_object='' @ ri_tag_object r, ''version='' @ ri_version r, []]"
    by (simp add: output_values_def)
  with r written show ?thesis by blast
qed

theorem release_output_line_by_line_witness:
  "\<exists>(r :: release_identity) out. validate_release_ref_main sample_git sample_toml ''v1.2.0'' ''final'' [] ''x=1'' = Inr (''x=1'' @ out) \<and>
     hd (split_on LINE_END out) = ''source_sha='' @ ri_source_sha r"
proof -
  obtain r where "validate_release_ref sample_git sample_toml ''v1.2.0'' ''final'' [] = Inr r"
    using sample_release_validated by blast
  then obtain out0 where written: "validate_release_ref_main sample_git sample_toml ''v1.2.0'' ''final'' [] ''x=1'' = Inr out0"
    by (simp add: validate_release_ref_main_def)
  from release_output_line_by_line [OF this] obtain r :: release_identity and out where all: "out0 = ''x=1'' @ out"
    and lines: "split_on LINE_END out = [''source_sha='' @ ri_source_sha r, ''tag='' @ ''v1.2.0'',
      ''tag_object='' @ ri_tag_object r, ''version='' @ ri_version r, []]" by (elim exE conjE) (rule that)
  from lines have "hd (split_on LINE_END out) = ''source_sha='' @ ri_source_sha r" by (simp only: list.sel(1))
  with written [unfolded all] show ?thesis by (intro exI conjI)
qed

end
