(* ===== verification/System_Properties.thy ===== *)
theory System_Properties
  imports Service_Runs Broker_Examples
begin

text \<open>
  The properties of the running service: over every sequence of requests, probes and events of the open
  downloads, and every behaviour of OpenBao and the network.
\<close>

lemma run_invariant: "runs (serves w cfg) started evs sv \<Longrightarrow> service_inv sv"
  using service.runs_inv started_inv by blast

lemma run_monitored:
  assumes "runs (serves w cfg) started evs sv"
  shows "monitor_inv cfg (view sv)"
proof -
  have "monitor_inv cfg (view started)" by (simp add: started_view monitor_inv_def)
  with service.sim_invariant [OF monitor.invariant_system_axioms assms started_inv] show ?thesis .
qed

text \<open>
  C5 (refinement). The service refines the monitor: whatever requests come, and in whatever order the server drives
  the downloads that were opened before, what is seen of it is a run of \<open>allows\<close>. There each step is a
  refusal, which only adds a denied record; work for a configured instance, within its authority, with at most one
  record under its name; the end of a download with its record; or a probe.
\<close>

theorem service_refines_monitor:
  assumes "runs (serves w cfg) started evs sv"
  shows "\<exists>ks. runs (allows cfg) \<lparr>mn_calls = [], mn_trail = [], mn_live = []\<rparr> ks (view sv)"
  using service.runs_sim [OF assms started_inv] by (simp add: started_view)

lemma sample_ask_run:
  "\<exists>sv. runs (serves sample_world sample_config) started
      [Ask ''r1'' (sample_scope (sample_cert ''netbox-a'')) (sample_read ''netbox/x'')] sv \<and>
    KvCall sample_client (KvReadSecretVersion ''netbox/x'' None ''secret'') \<in> set (bs_calls (sv_broker sv))"
proof -
  let ?ev = "Ask ''r1'' (sample_scope (sample_cert ''netbox-a'')) (sample_read ''netbox/x'')"
  obtain x s' where run: "endpoint sample_world sample_config ''r1'' (sample_scope (sample_cert ''netbox-a''))
      (sample_read ''netbox/x'') init_state = (Inr x, s')"
    and c: "KvCall sample_client (KvReadSecretVersion ''netbox/x'' None ''secret'') \<in> set (bs_calls s')"
    by (rule sample_read_run)
  have "serves sample_world sample_config started ?ev (started\<lparr>sv_broker := s'\<rparr>)"
    using sample_tls_scope run by (auto simp: serves_def started_def)
  from runs_single [of "serves sample_world sample_config", OF this] c show ?thesis by auto
qed

theorem service_refines_monitor_witness:
  "\<exists>sv ks. runs (allows sample_config) \<lparr>mn_calls = [], mn_trail = [], mn_live = []\<rparr> ks (view sv) \<and>
     KvCall sample_client (KvReadSecretVersion ''netbox/x'' None ''secret'') \<in> set (mn_calls (view sv))"
proof -
  obtain sv where run: "runs (serves sample_world sample_config) started
      [Ask ''r1'' (sample_scope (sample_cert ''netbox-a'')) (sample_read ''netbox/x'')] sv"
    and "KvCall sample_client (KvReadSecretVersion ''netbox/x'' None ''secret'') \<in> set (bs_calls (sv_broker sv))"
    using sample_ask_run by blast
  with service_refines_monitor [OF run] show ?thesis by (auto simp: view_def)
qed

text \<open>
  C6 (invariant). In every state the service reaches, each call that was ever sent is a login, a health probe, or
  one that the policy of a configured instance gives it the authority for; each record that is not a denial names
  a configured instance; and whoever has a download open is an instance of the cluster family.
\<close>

theorem every_call_ever_authorized:
  assumes "runs (serves w cfg) started evs sv"
  shows "(\<forall>c \<in> set (bs_calls (sv_broker sv)). is_login c \<or> is_probe c \<or> (\<exists>p. granted cfg p \<and> authority cfg p c)) \<and>
    (\<forall>e \<in> set (bs_audit (sv_broker sv)). ae_outcome e = ''denied'' \<or>
       (\<exists>p. granted cfg p \<and> ae_instance e = JStr (ip_name p))) \<and>
    (\<forall>l \<in> set (pending sv). \<exists>p. granted cfg p \<and> ip_name p = lv_name l \<and> permits_administration p ''cluster'')"
  using run_monitored [OF assms] by (auto simp: monitor_inv_def view_def)

theorem every_call_ever_authorized_witness:
  "\<exists>p. granted sample_config p \<and>
     authority sample_config p (KvCall sample_client (KvReadSecretVersion ''netbox/x'' None ''secret''))"
proof -
  obtain sv where run: "runs (serves sample_world sample_config) started
      [Ask ''r1'' (sample_scope (sample_cert ''netbox-a'')) (sample_read ''netbox/x'')] sv"
    and "KvCall sample_client (KvReadSecretVersion ''netbox/x'' None ''secret'') \<in> set (bs_calls (sv_broker sv))"
    using sample_ask_run by blast
  with every_call_ever_authorized [OF run] show ?thesis by fastforce
qed

text \<open>
  C7 (invariant). However many downloads are open at once and however their events are interleaved with other
  requests: the open responses are exactly those of the downloads that have no record yet, so that nothing is
  leaked when all have theirs; every recorded download has a record of its own, which says \<open>ok\<close> only if its
  whole body was sent; and no download has sent more than the limit.
\<close>

theorem downloads_accounted_for:
  assumes "runs (serves w cfg) started evs sv"
  shows "bs_open (sv_broker sv) = rev (map lv_id (filter (\<lambda>l. \<not> lv_recorded l) (sv_streams sv))) \<and>
    distinct (bs_open (sv_broker sv)) \<and>
    (\<exists>place. inj_on place {i. i < length (sv_streams sv) \<and> lv_recorded (sv_streams sv ! i)} \<and>
       (\<forall>i < length (sv_streams sv). lv_recorded (sv_streams sv ! i) \<longrightarrow>
          place i < length (bs_audit (sv_broker sv)) \<and>
          terminal_record (lv_who (sv_streams sv ! i)) (lv_download (sv_streams sv ! i)) (lv_sent (sv_streams sv ! i))
            (bs_audit (sv_broker sv) ! place i))) \<and>
    (\<forall>l \<in> set (sv_streams sv). length (concat (lv_sent l)) \<le> MAX_SNAPSHOT_BYTES)"
proof -
  have inv: "service_inv sv" by (rule run_invariant [OF assms])
  then obtain place where "recorded_at (sv_streams sv) (bs_audit (sv_broker sv)) place" by (auto simp: service_inv_def)
  then have records: "\<exists>place. inj_on place {i. i < length (sv_streams sv) \<and> lv_recorded (sv_streams sv ! i)} \<and>
       (\<forall>i < length (sv_streams sv). lv_recorded (sv_streams sv ! i) \<longrightarrow>
          place i < length (bs_audit (sv_broker sv)) \<and>
          terminal_record (lv_who (sv_streams sv ! i)) (lv_download (sv_streams sv ! i)) (lv_sent (sv_streams sv ! i))
            (bs_audit (sv_broker sv) ! place i))"
    by (auto simp: recorded_at_def has_record_def)
  have "distinct (map lv_id (sv_streams sv))" using inv by (simp add: service_inv_def)
  then have "distinct (map lv_id (pending sv))" by (simp add: pending_def distinct_map_filter)
  moreover have "length (concat (lv_sent l)) \<le> MAX_SNAPSHOT_BYTES" if "l \<in> set (sv_streams sv)" for l
    using inv that by (auto simp: service_inv_def sent_progress_def)
  ultimately show ?thesis using inv records by (simp add: service_inv_def pending_def)
qed

lemma sample_download_run:
  obtains d s' where "download_raft_snapshot sample_world sample_config init_state = (Inr d, s')"
    and "bs_open s' = [1]" and "sd_id d = 1"
proof -
  have "(case download_raft_snapshot sample_world sample_config init_state of
      (Inr d, s') \<Rightarrow> bs_open s' = [1] \<and> sd_id d = 1 | (Inl e, s') \<Rightarrow> False)" by code_simp
  then show thesis using that by (auto split: prod.splits sum.splits)
qed

theorem downloads_accounted_for_witness:
  "\<exists>sv. runs (serves sample_world sample_config) started
      [OpenDownload ''r1'' (sample_scope (sample_cert ''netbox-a'')) CONTRACT_DIGEST, Drive 0 Finalize] sv \<and>
    bs_open (sv_broker sv) = [] \<and> length (sv_streams sv) = 1"
proof -
  let ?scope = "sample_scope (sample_cert ''netbox-a'')"
  obtain d s' where run: "download_raft_snapshot sample_world sample_config init_state = (Inr d, s')" and "sd_id d = 1"
    by (rule sample_download_run)
  have "permits_administration sample_policy ''cluster''"
    by (simp add: sample_policy_def permits_administration_def)
  with run have "download_endpoint sample_world sample_config ''r1'' ?scope CONTRACT_DIGEST init_state =
      (Inr (sample_caller, d), s')"
    by (simp add: download_endpoint_def bind_op_run caller_known [OF sample_known_caller] catch_op_run
        download_snapshot_route_def authorize_snapshot_def sample_caller_def)
  then have "serves sample_world sample_config started (OpenDownload ''r1'' ?scope CONTRACT_DIGEST)
      \<lparr>sv_broker = s', sv_streams = [opened sample_caller d]\<rparr>"
    using sample_tls_scope by (auto simp: serves_def started_def)
  moreover obtain l t where drive: "drive (opened sample_caller d) Finalize s' = (l, t)"
    by (cases "drive (opened sample_caller d) Finalize s'")
  then have "serves sample_world sample_config \<lparr>sv_broker = s', sv_streams = [opened sample_caller d]\<rparr>
      (Drive 0 Finalize) \<lparr>sv_broker = t, sv_streams = [l]\<rparr>" by (simp add: serves_def)
  ultimately have reach: "runs (serves sample_world sample_config) started
      [OpenDownload ''r1'' ?scope CONTRACT_DIGEST, Drive 0 Finalize] \<lparr>sv_broker = t, sv_streams = [l]\<rparr>"
    by (blast intro: runs_Cons runs_single)
  have "lv_recorded l" using drive by (auto simp: drive_def Let_def)
  with downloads_accounted_for [OF reach] reach show ?thesis by (intro exI conjI) auto
qed

end
