(* ===== verification/Vault_Threads.thy ===== *)
theory Vault_Threads
  imports Vault_Client Step_Systems
begin

text \<open>
  The threads that share one \<open>VaultClient\<close> of \<^verbatim>\<open>broker/vault.py\<close>: the handlers run in a thread pool, and
  \<open>_get\<close>, \<open>_login\<close> and \<open>invalidate\<close> are synchronized by \<open>_lock\<close>. A thread is the point of its operation
  it has reached; a step is what it does between two points at which another thread can observe or change
  something. \<open>_client\<close> is only read and written with the lock taken, so its update is one step with the
  release. A login that succeeds is numbered, and a client is the number of its login.
\<close>

section \<open>The pool\<close>

text \<open>
  \<open>WantsClient\<close>: before \<open>with self._lock\<close> of \<open>_get\<close>; \<open>HasLock\<close>: before the test of \<open>_client\<close>;
  \<open>LoggingIn\<close>: inside \<open>_login\<close>; \<open>Calling g\<close>: using the client \<open>g\<close>, without the lock; \<open>WantsInvalidate\<close>:
  before \<open>with self._lock\<close> of \<open>invalidate\<close>; \<open>Invalidating\<close>: after it.
\<close>

datatype thread_pc =
    Idle | WantsClient | HasLock | LoggingIn | RefusedInLogin | Calling nat | WantsInvalidate | Invalidating

record pool =
  pl_pc :: "nat \<Rightarrow> thread_pc"
  pl_lock :: "nat option"
  pl_client :: "nat option"
  pl_logins :: nat

definition new_pool :: pool where
  "new_pool = \<lparr>pl_pc = (\<lambda>i. Idle), pl_lock = None, pl_client = None, pl_logins = 0\<rparr>"

definition goto :: "nat \<Rightarrow> thread_pc \<Rightarrow> pool \<Rightarrow> pool" where
  "goto i pc p = p\<lparr>pl_pc := (pl_pc p)(i := pc)\<rparr>"

datatype thread_action =
    Start | TakeLock | UseCached | BeginLogin | LoginSucceeds | LoginFails | LoginRefused
  | CallReturns | CallRefused | TakeLockAgain | DropClient

text \<open>
  What a thread may do next. \<open>LoginFails\<close> is a login that ends in any exception but a refusal (the lock is
  released by the \<open>with\<close>); a refusal is translated first, which calls \<open>invalidate\<close> with the lock still taken.
\<close>

fun pool_step :: "nat \<Rightarrow> thread_action \<Rightarrow> pool \<Rightarrow> pool option" where
  "pool_step i Start p = (if pl_pc p i = Idle then Some (goto i WantsClient p) else None)"
| "pool_step i TakeLock p =
     (if pl_pc p i = WantsClient \<and> pl_lock p = None then Some (goto i HasLock p\<lparr>pl_lock := Some i\<rparr>) else None)"
| "pool_step i UseCached p =
     (if pl_pc p i = HasLock then (case pl_client p of
          Some g \<Rightarrow> Some (goto i (Calling g) p\<lparr>pl_lock := None\<rparr>) | None \<Rightarrow> None) else None)"
| "pool_step i BeginLogin p =
     (if pl_pc p i = HasLock \<and> pl_client p = None then Some (goto i LoggingIn p) else None)"
| "pool_step i LoginSucceeds p =
     (if pl_pc p i = LoggingIn
      then Some (goto i (Calling (Suc (pl_logins p))) p
        \<lparr>pl_lock := None, pl_client := Some (Suc (pl_logins p)), pl_logins := Suc (pl_logins p)\<rparr>) else None)"
| "pool_step i LoginFails p =
     (if pl_pc p i = LoggingIn then Some (goto i Idle p\<lparr>pl_lock := None\<rparr>) else None)"
| "pool_step i LoginRefused p =
     (if pl_pc p i = LoggingIn then Some (goto i RefusedInLogin p) else None)"
| "pool_step i CallReturns p = (case pl_pc p i of Calling g \<Rightarrow> Some (goto i Idle p) | _ \<Rightarrow> None)"
| "pool_step i CallRefused p = (case pl_pc p i of Calling g \<Rightarrow> Some (goto i WantsInvalidate p) | _ \<Rightarrow> None)"
| "pool_step i TakeLockAgain p =
     (if (pl_pc p i = WantsInvalidate \<or> pl_pc p i = RefusedInLogin) \<and> pl_lock p = None
      then Some (goto i Invalidating p\<lparr>pl_lock := Some i\<rparr>) else None)"
| "pool_step i DropClient p =
     (if pl_pc p i = Invalidating then Some (goto i Idle p\<lparr>pl_lock := None, pl_client := None\<rparr>) else None)"

definition pool_moves :: "pool \<Rightarrow> nat \<times> thread_action \<Rightarrow> pool \<Rightarrow> bool" where
  "pool_moves p l q \<longleftrightarrow> pool_step (fst l) (snd l) p = Some q"

lemma goto_simps [simp]:
  "pl_pc (goto i pc p) = (pl_pc p)(i := pc)" "pl_lock (goto i pc p) = pl_lock p"
  "pl_client (goto i pc p) = pl_client p" "pl_logins (goto i pc p) = pl_logins p"
  by (simp_all add: goto_def)

section \<open>Who holds the lock\<close>

text \<open>The points at which a thread is between taking the lock and giving it back.\<close>

fun holds_lock :: "thread_pc \<Rightarrow> bool" where
  "holds_lock HasLock = True"
| "holds_lock LoggingIn = True"
| "holds_lock RefusedInLogin = True"
| "holds_lock Invalidating = True"
| "holds_lock _ = False"

fun in_login :: "thread_pc \<Rightarrow> bool" where
  "in_login LoggingIn = True"
| "in_login RefusedInLogin = True"
| "in_login _ = False"

definition pool_inv :: "pool \<Rightarrow> bool" where
  "pool_inv p \<longleftrightarrow> (\<forall>i. pl_lock p = Some i \<longleftrightarrow> holds_lock (pl_pc p i)) \<and>
     (\<forall>i. in_login (pl_pc p i) \<longrightarrow> pl_client p = None) \<and>
     (\<forall>g. pl_client p = Some g \<longrightarrow> 0 < g \<and> g = pl_logins p) \<and>
     (\<forall>i g. pl_pc p i = Calling g \<longrightarrow> 0 < g \<and> g \<le> pl_logins p)"

lemma new_pool_inv: "pool_inv new_pool"
  by (simp add: pool_inv_def new_pool_def)

lemma pool_lock: "pool_inv p \<Longrightarrow> holds_lock (pl_pc p i) \<longleftrightarrow> pl_lock p = Some i"
  by (simp add: pool_inv_def)

lemma only_holder: "pool_inv p \<Longrightarrow> holds_lock (pl_pc p i) \<Longrightarrow> holds_lock (pl_pc p j) \<Longrightarrow> j = i"
  by (simp add: pool_lock)

lemma pool_in_login: "pool_inv p \<Longrightarrow> in_login (pl_pc p i) \<Longrightarrow> pl_client p = None"
  unfolding pool_inv_def by blast

lemma in_login_holds: "in_login pc \<Longrightarrow> holds_lock pc"
  by (cases pc) auto

text \<open>What a step of thread \<open>i\<close> to the point \<open>pc\<close> has to respect.\<close>

lemma pool_inv_move:
  assumes inv: "pool_inv p" and pc: "pl_pc q = (pl_pc p)(i := pc)"
    and take: "holds_lock pc \<Longrightarrow> pl_lock p \<in> {None, Some i} \<and> pl_lock q = Some i"
    and free: "\<not> holds_lock pc \<Longrightarrow> pl_lock q = (if pl_lock p = Some i then None else pl_lock p)"
    and login: "in_login pc \<Longrightarrow> pl_client q = None"
    and client: "pl_client q = pl_client p \<or> pl_lock p = Some i"
    and current: "\<And>g. pl_client q = Some g \<Longrightarrow> 0 < g \<and> g = pl_logins q"
    and mono: "pl_logins p \<le> pl_logins q"
    and calling: "\<And>g. pc = Calling g \<Longrightarrow> 0 < g \<and> g \<le> pl_logins q"
  shows "pool_inv q"
  unfolding pool_inv_def
proof (intro conjI allI)
  fix j
  have others: "(pl_lock q = Some j) = (pl_lock p = Some j)" if "j \<noteq> i"
    using that take free by (cases "holds_lock pc") auto
  have mine: "(pl_lock q = Some i) = holds_lock pc"
    using take free by (cases "holds_lock pc") auto
  show lock: "(pl_lock q = Some j) = holds_lock (pl_pc q j)"
    using others mine pool_lock [OF inv] pc by (cases "j = i") simp_all
  show "in_login (pl_pc q j) \<longrightarrow> pl_client q = None"
  proof (cases "j = i")
    case False
    then show ?thesis
      using pc client pool_in_login [OF inv, of j] pool_lock [OF inv, of j] in_login_holds [of "pl_pc p j"] by auto
  qed (simp add: pc login)
  fix g
  show "pl_pc q j = Calling g \<longrightarrow> 0 < g \<and> g \<le> pl_logins q"
  proof (cases "j = i")
    case False
    have "0 < g \<and> g \<le> pl_logins p" if "pl_pc p j = Calling g"
      using inv that unfolding pool_inv_def by blast
    with False pc mono show ?thesis by auto
  qed (simp add: pc calling)
qed (use current in blast)

lemma pool_inv_client: "pool_inv p \<Longrightarrow> pl_client p = Some g \<Longrightarrow> 0 < g \<and> g = pl_logins p"
  by (simp add: pool_inv_def)

lemma pool_step_inv:
  assumes inv: "pool_inv p" and step: "pool_step i a p = Some q"
  shows "pool_inv q"
proof -
  note held = pool_lock [OF inv, of i] and now = pool_inv_client [OF inv] and out = pool_in_login [OF inv, of i]
  show ?thesis
    by (cases a)
      (use step held now out in \<open>auto intro!: pool_inv_move [OF inv, where i = i]
         split: if_split_asm option.split_asm thread_pc.split_asm\<close>)
qed

interpretation threads: invariant_system pool_moves pool_inv
  by unfold_locales (auto simp: pool_moves_def intro: pool_step_inv)

section \<open>Logins\<close>

text \<open>A login is made only after the last client was dropped: as many logins as drops, and one more.\<close>

definition drops :: "(nat \<times> thread_action) list \<Rightarrow> nat" where
  "drops acts = length (filter (\<lambda>l. snd l = DropClient) acts)"

lemma pool_step_logins:
  "pool_inv p \<Longrightarrow> pool_step i a p = Some q \<Longrightarrow>
   pl_logins q + (if pl_client p = None then 0 else 1) \<le>
   pl_logins p + (if pl_client q = None then 0 else 1) + (if a = DropClient then 1 else 0)"
  using pool_in_login [of p i]
  by (cases a) (auto split: if_split_asm option.split_asm thread_pc.split_asm)

lemma logins_bounded:
  assumes "runs pool_moves new_pool acts p"
  shows "pl_logins p \<le> drops acts + (if pl_client p = None then 0 else 1)"
  using assms
proof (induction rule: runs.induct)
  case runs_nil
  show ?case by (simp add: new_pool_def)
next
  case (runs_snoc acts p l q)
  from threads.runs_inv [OF runs_snoc(1) new_pool_inv] have "pool_inv p" .
  with runs_snoc(2) have "pl_logins q + (if pl_client p = None then 0 else 1) \<le>
      pl_logins p + (if pl_client q = None then 0 else 1) + (if snd l = DropClient then 1 else 0)"
    unfolding pool_moves_def by (rule pool_step_logins [rotated])
  with runs_snoc(3) show ?case by (auto simp: drops_def split: if_splits)
qed

section \<open>The refused login\<close>

definition self_blocked :: "pool \<Rightarrow> nat \<Rightarrow> bool" where
  "self_blocked p i \<longleftrightarrow> pl_pc p i = RefusedInLogin \<and> pl_lock p = Some i"

text \<open>What waits for the lock waits for ever, and no thread gets a client.\<close>

definition blocked_same :: "pool \<Rightarrow> pool \<Rightarrow> bool" where
  "blocked_same p q \<longleftrightarrow> pl_lock q = pl_lock p \<and> pl_client q = pl_client p \<and> pl_logins q = pl_logins p \<and>
     (\<forall>j. pl_pc p j \<in> {WantsClient, WantsInvalidate, RefusedInLogin} \<longrightarrow> pl_pc q j = pl_pc p j) \<and>
     (\<forall>j g. pl_pc q j = Calling g \<longrightarrow> pl_pc p j = Calling g)"

lemma pool_step_blocked:
  assumes "pool_inv p" and "self_blocked p i" and "pool_step j a p = Some q"
  shows "blocked_same p q"
proof -
  have "\<not> holds_lock (pl_pc p j)" if "j \<noteq> i"
    using pool_lock [OF assms(1)] assms(2) that by (auto simp: self_blocked_def)
  then have "\<not> holds_lock (pl_pc p j) \<or> pl_pc p j = RefusedInLogin"
    using assms(2) by (cases "j = i") (auto simp: self_blocked_def)
  moreover have "pl_lock p = Some i" using assms(2) by (simp add: self_blocked_def)
  ultimately have "\<exists>pc. q = goto j pc p \<and> pl_pc p j \<notin> {WantsClient, WantsInvalidate, RefusedInLogin} \<and>
      (\<forall>g. pc \<noteq> Calling g)"
    using assms(3) by (cases a) (auto split: if_split_asm thread_pc.split_asm)
  then show ?thesis by (auto simp: blocked_same_def split: if_split_asm)
qed

lemma blocked_same_trans: "blocked_same p q \<Longrightarrow> blocked_same q r \<Longrightarrow> blocked_same p r"
  unfolding blocked_same_def by metis

lemma blocked_same_self: "blocked_same p q \<Longrightarrow> self_blocked p i \<Longrightarrow> self_blocked q i"
  unfolding blocked_same_def self_blocked_def by (metis insertCI)

lemma blocked_runs:
  assumes "runs pool_moves p acts q" and "pool_inv p" and "self_blocked p i"
  shows "blocked_same p q"
  using assms
proof (induction rule: runs.induct)
  case runs_nil
  show ?case by (simp add: blocked_same_def)
next
  case (runs_snoc acts q l r)
  then have same: "blocked_same p q" by blast
  from blocked_same_self [OF this runs_snoc(5)] have "self_blocked q i" .
  from pool_step_blocked [OF threads.runs_inv [OF runs_snoc(1,4)] this runs_snoc(2) [unfolded pool_moves_def]]
  show ?case by (rule blocked_same_trans [OF same])
qed

section \<open>Progress\<close>

text \<open>How many steps of its own the thread with the lock is away from giving it back.\<close>

fun steps_left :: "thread_pc \<Rightarrow> nat" where
  "steps_left HasLock = 2"
| "steps_left LoggingIn = 1"
| "steps_left Invalidating = 1"
| "steps_left _ = 0"

definition own_steps :: "nat \<Rightarrow> (nat \<times> thread_action) list \<Rightarrow> nat" where
  "own_steps i acts = length (filter (\<lambda>l. fst l = i) acts)"

text \<open>The thread that holds the lock has a step to make, unless its login was refused.\<close>

lemma holder_moves:
  assumes "pool_inv p" and "pl_lock p = Some i" and "pl_pc p i \<noteq> RefusedInLogin"
  shows "\<exists>a q. pool_step i a p = Some q"
proof -
  from assms have "holds_lock (pl_pc p i)" by (simp add: pool_lock)
  with assms(3) consider "pl_pc p i = HasLock" | "pl_pc p i = LoggingIn" | "pl_pc p i = Invalidating"
    by (cases "pl_pc p i") auto
  then show ?thesis
  proof cases
    case 1
    then have "pool_step i (if pl_client p = None then BeginLogin else UseCached) p \<noteq> None" by auto
    then show ?thesis by blast
  next
    case 2
    then have "pool_step i LoginFails p \<noteq> None" by simp
    then show ?thesis by blast
  next
    case 3
    then have "pool_step i DropClient p \<noteq> None" by simp
    then show ?thesis by blast
  qed
qed

text \<open>A step while \<open>i\<close> holds the lock: it gives the lock back, or comes closer to it; the others leave it alone.\<close>

lemma holder_step:
  assumes inv: "pool_inv p" and lock: "pl_lock p = Some i" and step: "pool_step j a p = Some q"
    and not_refused: "(j, a) \<noteq> (i, LoginRefused)" "pl_pc p i \<noteq> RefusedInLogin"
  shows "pl_lock q = None \<or>
    (pl_lock q = Some i \<and> pl_pc q i \<noteq> RefusedInLogin \<and>
     steps_left (pl_pc q i) + (if j = i then 1 else 0) \<le> steps_left (pl_pc p i))"
proof (cases "j = i")
  case True
  have "holds_lock (pl_pc p i)" using inv lock by (simp add: pool_lock)
  with True lock step not_refused show ?thesis
    by (cases a) (auto split: if_split_asm option.split_asm thread_pc.split_asm)
next
  case False
  have "\<not> holds_lock (pl_pc p j)" using inv lock False by (simp add: pool_lock)
  with False lock step not_refused show ?thesis
    by (cases a) (auto split: if_split_asm option.split_asm thread_pc.split_asm)
qed

text \<open>Under every schedule, the lock is free at some point before its holder has made its second step.\<close>

lemma lock_given_back:
  assumes "runs pool_moves p acts q" and "pool_inv p" and "pl_lock p = Some i" and "pl_pc p i \<noteq> RefusedInLogin"
    and "(i, LoginRefused) \<notin> set acts"
  shows "(\<exists>before after t. acts = before @ after \<and> runs pool_moves p before t \<and> pl_lock t = None) \<or>
    (pl_lock q = Some i \<and> pl_pc q i \<noteq> RefusedInLogin \<and>
     steps_left (pl_pc q i) + own_steps i acts \<le> steps_left (pl_pc p i))"
  using assms
proof (induction rule: runs.induct)
  case runs_nil
  then show ?case by (simp add: own_steps_def)
next
  case (runs_snoc acts q l r)
  from runs_snoc.prems(4) have "(i, LoginRefused) \<notin> set acts" and l: "l \<noteq> (i, LoginRefused)" by auto
  from runs_snoc.IH [OF runs_snoc.prems(1-3) this(1)] show ?case
  proof (elim disjE exE conjE)
    fix before after t assume "acts = before @ after" "runs pool_moves p before t" "pl_lock t = None"
    then show ?thesis by (intro disjI1 exI [of _ before] exI [of _ "after @ [l]"] exI [of _ t]) simp
  next
    assume q: "pl_lock q = Some i" "pl_pc q i \<noteq> RefusedInLogin"
      and left: "steps_left (pl_pc q i) + own_steps i acts \<le> steps_left (pl_pc p i)"
    from runs_snoc.hyps(2) have "pool_step (fst l) (snd l) q = Some r" by (simp add: pool_moves_def)
    from holder_step [OF threads.runs_inv [OF runs_snoc.hyps(1) runs_snoc.prems(1)] q(1) this _ q(2)] l
    consider "pl_lock r = None" | "pl_lock r = Some i \<and> pl_pc r i \<noteq> RefusedInLogin \<and>
        steps_left (pl_pc r i) + (if fst l = i then 1 else 0) \<le> steps_left (pl_pc q i)" by auto
    then show ?thesis
    proof cases
      case 1
      with runs.runs_snoc [of pool_moves, OF runs_snoc.hyps] show ?thesis
        by (intro disjI1 exI [of _ "acts @ [l]"] exI [of _ "[]"] exI [of _ r]) simp
    next
      case 2
      with left show ?thesis by (auto simp: own_steps_def split: if_split_asm)
    qed
  qed
qed

lemma lock_free_in_two:
  assumes "runs pool_moves p acts q" and "pool_inv p" and "pl_lock p = Some i" and "pl_pc p i \<noteq> RefusedInLogin"
    and "(i, LoginRefused) \<notin> set acts" and "2 \<le> own_steps i acts"
  shows "\<exists>before after t. acts = before @ after \<and> runs pool_moves p before t \<and> pl_lock t = None"
  using lock_given_back [OF assms(1-5)]
proof (elim disjE conjE)
  assume "pl_lock q = Some i" "pl_pc q i \<noteq> RefusedInLogin"
    and left: "steps_left (pl_pc q i) + own_steps i acts \<le> steps_left (pl_pc p i)"
  moreover from this have "holds_lock (pl_pc q i)" using threads.runs_inv [OF assms(1,2)] by (simp add: pool_lock)
  ultimately have "0 < steps_left (pl_pc q i)" by (cases "pl_pc q i") auto
  moreover have "steps_left (pl_pc p i) \<le> 2" by (cases "pl_pc p i") auto
  ultimately show ?thesis using left assms(6) by simp
qed blast

section \<open>The client's operations are runs of one thread\<close>

text \<open>
  A state of the broker and a pool agree on the lock and on whether a client is cached. What a thread has
  reached when \<open>_get\<close> is over: the client it got, the login whose refusal waits for the lock, or the exception.
\<close>

definition agrees :: "broker_state \<Rightarrow> pool \<Rightarrow> bool" where
  "agrees s p \<longleftrightarrow> (bs_locked s \<longleftrightarrow> pl_lock p \<noteq> None) \<and> (bs_client s = None \<longleftrightarrow> pl_client p = None)"

definition reached :: "(exn + hvac_client) \<Rightarrow> nat \<Rightarrow> pool \<Rightarrow> bool" where
  "reached r i q \<longleftrightarrow> (case r of
       Inr client \<Rightarrow> \<exists>g. pl_pc q i = Calling g \<and> pl_client q = Some g
     | Inl e \<Rightarrow> if e = Deadlock then self_blocked q i else pl_pc q i = Idle)"

text \<open>While the lock is taken, nothing in a login changes the client or the lock.\<close>

definition held_same :: "broker_state \<Rightarrow> broker_state \<Rightarrow> bool" where
  "held_same s t \<longleftrightarrow> (bs_locked s \<longrightarrow> bs_locked t \<and> bs_client t = bs_client s)"

interpretation held: state_preorder held_same
  by unfold_locales (auto simp: held_same_def)

lemma translate_held: "op_rel held_same (translate e)"
  by (cases e) (auto simp: op_rel_def held_same_def translate_def invalidate_def with_lock_def bind_op_run
      split: hvac_kind.splits)

lemma login_held: "op_rel held_same (login w cfg)"
proof -
  have "op_rel held_same (read_secret w n)" for n by (simp add: op_rel_def held_same_def read_secret_run)
  moreover have "op_rel held_same (send_login w client r sec)" for client r sec
    by (simp add: op_rel_def held_same_def send_login_def Let_def)
  ultimately show ?thesis
    unfolding login_def translating_def Let_def by (intro held.op_rules translate_held)
qed

text \<open>What \<open>_get\<close> does without a cached client, in terms of its login.\<close>

lemma get_login_run:
  assumes "\<not> bs_locked s" and "bs_client s = None" and run: "get w cfg s = (r, s')"
  obtains "fst (login w cfg (s\<lparr>bs_locked := True\<rparr>)) = Inl Deadlock" "r = Inl Deadlock" "bs_locked s'" "bs_client s' = None"
  | e e' where "fst (login w cfg (s\<lparr>bs_locked := True\<rparr>)) = Inl e" "r = Inl e'" "e' \<noteq> Deadlock"
      "\<not> bs_locked s'" "bs_client s' = None"
  | client where "fst (login w cfg (s\<lparr>bs_locked := True\<rparr>)) = Inr client" "r = Inr client"
      "\<not> bs_locked s'" "bs_client s' = Some client"
proof -
  obtain r1 s1 where login: "login w cfg (s\<lparr>bs_locked := True\<rparr>) = (r1, s1)"
    by (cases "login w cfg (s\<lparr>bs_locked := True\<rparr>)")
  from op_relD [OF login_held login] assms(2) have s1: "bs_locked s1" "bs_client s1 = None"
    by (simp_all add: held_same_def)
  show thesis
  proof (cases r1)
    case (Inr client)
    with assms login have "r = Inr client" "s' = s1\<lparr>bs_client := Some client, bs_locked := False\<rparr>"
      by (simp_all add: get_def with_lock_def get_body_def bind_op_run catch_op_run get_client_def set_client_def)
    with login Inr show thesis by (intro that(3)) simp_all
  next
    case (Inl e)
    show thesis
    proof (cases "e = Deadlock")
      case True
      with Inl assms login have "r = Inl Deadlock" "s' = s1"
        by (simp_all add: get_def with_lock_def get_body_def bind_op_run catch_op_run get_client_def)
      with login Inl True s1 show thesis by (intro that(1)) simp_all
    next
      case False
      with Inl assms login have "\<exists>e'. r = Inl e' \<and> e' \<noteq> Deadlock \<and> s' = s1\<lparr>bs_locked := False\<rparr>"
        by (auto simp: get_def with_lock_def get_body_def bind_op_run catch_op_run get_client_def vault_exn_def
            split: exn.splits)
      with login Inl s1 show thesis by (auto intro: that(2))
    qed
  qed
qed

definition run_alone :: "nat \<Rightarrow> thread_action list \<Rightarrow> pool \<Rightarrow> pool \<Rightarrow> bool" where
  "run_alone i acts p q \<longleftrightarrow> runs pool_moves p (map (Pair i) acts) q"

lemma run_alone_nil: "run_alone i [] p p"
  by (simp add: run_alone_def)

lemma run_alone_step: "pool_step i a p = Some q \<Longrightarrow> run_alone i acts q t \<Longrightarrow> run_alone i (a # acts) p t"
  unfolding run_alone_def list.map by (rule runs_Cons [of pool_moves]) (simp_all add: pool_moves_def)

lemma run_alone_append: "run_alone i acts p q \<Longrightarrow> run_alone i acts' q t \<Longrightarrow> run_alone i (acts @ acts') p t"
  unfolding run_alone_def map_append by (rule runs_append)

text \<open>The steps of \<open>_get\<close>: the cached client, or a login with its end.\<close>

definition login_end :: "(exn + 'a) \<Rightarrow> thread_action" where
  "login_end r = (case r of Inr x \<Rightarrow> LoginSucceeds | Inl e \<Rightarrow> if e = Deadlock then LoginRefused else LoginFails)"

definition get_steps :: "broker_state \<Rightarrow> (exn + hvac_client) \<Rightarrow> thread_action list" where
  "get_steps s r = [Start, TakeLock] @ (if bs_client s = None then [BeginLogin, login_end r] else [UseCached])"

lemma get_runs_alone:
  assumes free: "\<not> bs_locked s" and p: "agrees s p" "pl_pc p i = Idle" and run: "get w cfg s = (r, s')"
  shows "\<exists>q. run_alone i (get_steps s r) p q \<and> agrees s' q \<and> reached r i q"
proof -
  from free p have lock: "pl_lock p = None" by (simp add: agrees_def)
  let ?h = "goto i HasLock (goto i WantsClient p)\<lparr>pl_lock := Some i\<rparr>"
  have start: "pool_step i Start p = Some (goto i WantsClient p)" using p(2) by simp
  have take: "pool_step i TakeLock (goto i WantsClient p) = Some ?h" using lock by simp
  note got = run_alone_step [OF start run_alone_step [OF take]]
  show ?thesis
  proof (cases "bs_client s")
    case (Some client)
    with p obtain g where g: "pl_client p = Some g" by (auto simp: agrees_def)
    let ?q = "goto i (Calling g) ?h\<lparr>pl_lock := None\<rparr>"
    have "run_alone i [UseCached] ?h ?q" by (rule run_alone_step [OF _ run_alone_nil]) (simp add: g)
    from got [OF this] Some have "run_alone i (get_steps s r) p ?q" by (simp add: get_steps_def)
    with get_cached [OF free Some, of w cfg] run Some g free show ?thesis
      by (intro exI [of _ ?q] conjI) (auto simp: agrees_def reached_def)
  next
    case None
    with p have none: "pl_client p = None" by (simp add: agrees_def)
    let ?l = "goto i LoggingIn ?h"
    have "pool_step i BeginLogin ?h = Some ?l" using none by simp
    note login = run_alone_step [OF this]
    from free None run show ?thesis
    proof (cases rule: get_login_run)
      case 1
      let ?q = "goto i RefusedInLogin ?l"
      have "run_alone i [LoginRefused] ?l ?q" by (rule run_alone_step [OF _ run_alone_nil]) simp
      from got [OF login [OF this]] None 1 have "run_alone i (get_steps s r) p ?q"
        by (simp add: get_steps_def login_end_def)
      with 1 none show ?thesis
        by (intro exI [of _ ?q] conjI) (auto simp: agrees_def reached_def self_blocked_def)
    next
      case (2 e e')
      let ?q = "goto i Idle ?l\<lparr>pl_lock := None\<rparr>"
      have "run_alone i [LoginFails] ?l ?q" by (rule run_alone_step [OF _ run_alone_nil]) simp
      from got [OF login [OF this]] None 2 have "run_alone i (get_steps s r) p ?q"
        by (simp add: get_steps_def login_end_def)
      with 2 none show ?thesis
        by (intro exI [of _ ?q] conjI) (auto simp: agrees_def reached_def)
    next
      case (3 client)
      let ?q = "goto i (Calling (Suc (pl_logins p))) ?l
        \<lparr>pl_lock := None, pl_client := Some (Suc (pl_logins p)), pl_logins := Suc (pl_logins p)\<rparr>"
      have "run_alone i [LoginSucceeds] ?l ?q" by (rule run_alone_step [OF _ run_alone_nil]) simp
      from got [OF login [OF this]] None 3 have "run_alone i (get_steps s r) p ?q"
        by (simp add: get_steps_def login_end_def)
      with 3 none show ?thesis
        by (intro exI [of _ ?q] conjI) (auto simp: agrees_def reached_def)
    qed
  qed
qed

text \<open>A whole request of the client: it ends idle, or in the login that waits for its own lock.\<close>

definition finished :: "(exn + 'a) \<Rightarrow> nat \<Rightarrow> pool \<Rightarrow> bool" where
  "finished r i q \<longleftrightarrow> (if r = Inl Deadlock then self_blocked q i else pl_pc q i = Idle)"

lemma get_gives:
  assumes free: "\<not> bs_locked s" and got: "get w cfg s = (Inr client, s1)"
  shows "bs_client s1 = Some client"
proof (cases "bs_client s")
  case (Some c)
  with got get_cached [OF free Some, of w cfg] show ?thesis by simp
next
  case None
  from free None got show ?thesis by (cases rule: get_login_run) simp_all
qed

lemma kv_request_got:
  assumes got: "get w cfg s = (Inr client, s1)" and free: "\<not> bs_locked s1" and cached: "bs_client s1 = Some client"
  shows "kv_request w cfg kv s = kv_request w cfg kv s1"
  using got get_cached [OF free cached, of w cfg] by (simp add: kv_request_def bind_op_run)

text \<open>The steps of the call itself, and of the whole request.\<close>

definition call_steps :: "bool \<Rightarrow> thread_action list" where
  "call_steps refused = (if refused then [CallRefused, TakeLockAgain, DropClient] else [CallReturns])"

definition kv_steps :: "world \<Rightarrow> kv_call \<Rightarrow> broker_state \<Rightarrow> (exn + hvac_client) \<Rightarrow> broker_state \<Rightarrow> thread_action list" where
  "kv_steps w kv s r1 s1 = get_steps s r1 @ (case r1 of
       Inl e \<Rightarrow> []
     | Inr client \<Rightarrow> call_steps (case w_kv w (bs_calls s1) (KvCall client kv) of
         Inl e \<Rightarrow> refused_by_server e | Inr v \<Rightarrow> False))"

lemma call_ends_alone:
  assumes at: "pl_pc p i = Calling g" and lock: "pl_lock p = None"
  shows "\<exists>q. run_alone i (call_steps refused) p q \<and> pl_pc q i = Idle \<and> pl_lock q = None \<and>
    pl_client q = (if refused then None else pl_client p)"
proof (cases refused)
  case False
  have "run_alone i [CallReturns] p (goto i Idle p)" by (rule run_alone_step [OF _ run_alone_nil]) (simp add: at)
  with False lock show ?thesis by (intro exI [of _ "goto i Idle p"]) (simp add: call_steps_def)
next
  case True
  let ?w = "goto i WantsInvalidate p"
  let ?h = "goto i Invalidating ?w\<lparr>pl_lock := Some i\<rparr>"
  let ?q = "goto i Idle ?h\<lparr>pl_lock := None, pl_client := None\<rparr>"
  have refuse: "pool_step i CallRefused p = Some ?w" using at by simp
  have take: "pool_step i TakeLockAgain ?w = Some ?h" using lock by simp
  have drop: "pool_step i DropClient ?h = Some ?q" by simp
  note run = run_alone_step [OF refuse run_alone_step [OF take run_alone_step [OF drop run_alone_nil]]]
  with True show ?thesis by (intro exI [of _ ?q]) (simp add: call_steps_def)
qed

lemma kv_request_runs_alone:
  assumes free: "\<not> bs_locked s" and p: "agrees s p" "pl_pc p i = Idle" and got: "get w cfg s = (r1, s1)"
    and run: "kv_request w cfg kv s = (r, s')"
  shows "\<exists>q. run_alone i (kv_steps w kv s r1 s1) p q \<and> agrees s' q \<and> finished r i q"
proof -
  from get_runs_alone [OF free p got] obtain q where q: "run_alone i (get_steps s r1) p q" "agrees s1 q" "reached r1 i q"
    by blast
  show ?thesis
  proof (cases r1)
    case (Inl e)
    with got run have "r = Inl e" "s' = s1" by (simp_all add: kv_request_def bind_op_run)
    with q Inl show ?thesis by (intro exI [of _ q]) (auto simp: reached_def finished_def kv_steps_def)
  next
    case (Inr client)
    with lock_freeD [OF lock_free_get free got] have free1: "\<not> bs_locked s1" by simp
    have cached: "bs_client s1 = Some client"
      using get_gives [OF free got [unfolded Inr]] .
    from q(2) free1 have lock: "pl_lock q = None" by (simp add: agrees_def)
    from q(3) Inr obtain g where at: "pl_pc q i = Calling g" and g: "pl_client q = Some g" by (auto simp: reached_def)
    let ?refused = "case w_kv w (bs_calls s1) (KvCall client kv) of Inl e \<Rightarrow> refused_by_server e | Inr v \<Rightarrow> False"
    from call_ends_alone [OF at lock, of ?refused] obtain t where t: "run_alone i (call_steps ?refused) q t"
      "pl_pc t i = Idle" "pl_lock t = None" "pl_client t = (if ?refused then None else Some g)" using g by auto
    from kv_request_run [OF free1 cached, of w cfg kv] kv_request_got [OF got [unfolded Inr] free1 cached, of kv] run
    have "r \<noteq> Inl Deadlock \<and> \<not> bs_locked s' \<and> (bs_client s' = None \<longleftrightarrow> ?refused)"
      using free1 by (auto split: sum.splits if_split_asm)
    with t run_alone_append [OF q(1) t(1)] Inr show ?thesis
      by (intro exI [of _ t]) (auto simp: agrees_def finished_def kv_steps_def)
  qed
qed

section \<open>A refusal that comes late\<close>

text \<open>
  \<open>invalidate\<close> clears whatever is cached. Two threads use the client of one login; the first is refused and
  drops it, another thread logs in again, and the refusal of the second thread drops the new client as well.
\<close>

definition late_refusal :: "(nat \<times> thread_action) list" where
  "late_refusal =
     [(0, Start), (0, TakeLock), (0, BeginLogin), (0, LoginSucceeds), (1, Start), (1, TakeLock), (1, UseCached),
      (0, CallRefused), (0, TakeLockAgain), (0, DropClient),
      (2, Start), (2, TakeLock), (2, BeginLogin), (2, LoginSucceeds),
      (1, CallRefused), (1, TakeLockAgain), (1, DropClient)]"

text \<open>The pool after a list of steps, to evaluate a run.\<close>

fun after_steps :: "(nat \<times> thread_action) list \<Rightarrow> pool \<Rightarrow> pool option" where
  "after_steps [] p = Some p"
| "after_steps (l # ls) p = (case pool_step (fst l) (snd l) p of None \<Rightarrow> None | Some q \<Rightarrow> after_steps ls q)"

lemma after_steps_runs: "after_steps acts p = Some q \<Longrightarrow> runs pool_moves p acts q"
proof (induction acts arbitrary: p)
  case (Cons l ls)
  then obtain t where "pool_step (fst l) (snd l) p = Some t" and rest: "after_steps ls t = Some q"
    by (auto split: option.split_asm)
  then have "pool_moves p l t" by (simp add: pool_moves_def)
  from runs_Cons [of pool_moves, OF this Cons.IH [OF rest]] show ?case .
qed simp

end
