(* ===== verification/Thread_Properties.thy ===== *)
theory Thread_Properties
  imports Vault_Threads Broker_Examples
begin

text \<open>
  The properties of the client that hold however its threads are scheduled.
\<close>

text \<open>
  C11 (invariant). However the threads are scheduled, at most one is between taking the lock and giving it back,
  and a login goes on only while no client is cached; every call uses a client of a login that succeeded; and
  the logins that succeeded are at most one more than the clients dropped after a refusal, so that threads
  which ask for the client together share one login.
\<close>

theorem logins_exclude_each_other:
  assumes run: "runs pool_moves new_pool acts p"
  shows "(holds_lock (pl_pc p i) \<and> holds_lock (pl_pc p j) \<longrightarrow> j = i) \<and>
    (in_login (pl_pc p i) \<longrightarrow> pl_client p = None) \<and>
    (pl_pc p i = Calling g \<longrightarrow> 0 < g \<and> g \<le> pl_logins p) \<and>
    pl_logins p \<le> drops acts + (if pl_client p = None then 0 else 1)"
proof -
  from threads.runs_inv [OF run new_pool_inv] have inv: "pool_inv p" .
  then have "pl_pc p i = Calling g \<longrightarrow> 0 < g \<and> g \<le> pl_logins p" unfolding pool_inv_def by blast
  with only_holder [OF inv] pool_in_login [OF inv] logins_bounded [OF run] show ?thesis by blast
qed

theorem logins_exclude_each_other_witness:
  "\<exists>p. runs pool_moves new_pool [(0, Start), (1, Start), (0, TakeLock), (0, BeginLogin), (0, LoginSucceeds),
      (1, TakeLock), (1, UseCached)] p \<and> pl_pc p 0 = Calling 1 \<and> pl_pc p 1 = Calling 1 \<and> pl_logins p \<le> 1"
proof -
  let ?acts = "[(0, Start), (1, Start), (0, TakeLock), (0, BeginLogin), (0, LoginSucceeds), (1, TakeLock), (1, UseCached)]"
  obtain p where p: "after_steps ?acts new_pool = Some p" "pl_pc p 0 = Calling 1" "pl_pc p 1 = Calling 1"
      "pl_client p = Some 1"
    by (simp add: new_pool_def goto_def)
  from after_steps_runs [OF p(1)] have run: "runs pool_moves new_pool ?acts p" .
  from logins_exclude_each_other [OF run, of 0 1 1] p(4) have "pl_logins p \<le> 1" by (simp add: drops_def)
  with run p show ?thesis by blast
qed

text \<open>
  C12 (liveness). A login the server refuses stops the service: whatever the other threads do afterwards, the
  lock stays with the refused thread, no thread that waits for it proceeds, no client is cached, and only the
  calls that were already made go on.
\<close>

theorem refused_login_blocks_every_thread:
  assumes "runs pool_moves new_pool before p" and "pl_pc p i = RefusedInLogin" and "runs pool_moves p acts q"
  shows "pl_lock q = Some i \<and> pl_client q = None \<and> pl_pc q i = RefusedInLogin \<and>
    (pl_pc p j = WantsClient \<or> pl_pc p j = WantsInvalidate \<longrightarrow> pl_pc q j = pl_pc p j) \<and>
    (pl_pc q j = Calling g \<longrightarrow> pl_pc p j = Calling g)"
proof -
  from threads.runs_inv [OF assms(1) new_pool_inv] have inv: "pool_inv p" .
  with assms(2) have blocked: "self_blocked p i" and "pl_client p = None"
    using pool_lock [OF inv, of i] pool_in_login [OF inv, of i] by (simp_all add: self_blocked_def)
  with blocked_runs [OF assms(3) inv blocked] show ?thesis
    unfolding blocked_same_def self_blocked_def by (metis insertCI)
qed

theorem refused_login_blocks_every_thread_witness:
  "\<exists>p. runs pool_moves new_pool [(0, Start), (0, TakeLock), (0, BeginLogin), (1, Start), (0, LoginRefused)] p \<and>
    (\<forall>acts q. runs pool_moves p acts q \<longrightarrow> pl_pc q 1 = WantsClient)"
proof -
  let ?acts = "[(0, Start), (0, TakeLock), (0, BeginLogin), (1, Start), (0, LoginRefused)]"
  obtain p where p: "after_steps ?acts new_pool = Some p" "pl_pc p 0 = RefusedInLogin" "pl_pc p 1 = WantsClient"
    by (simp add: new_pool_def goto_def)
  from after_steps_runs [OF p(1)] have run: "runs pool_moves new_pool ?acts p" .
  from refused_login_blocks_every_thread [OF this p(2), of _ _ 1] p(3) run show ?thesis by metis
qed



text \<open>
  C14 (refinement). A request of the client to the KV mount is a run of the pool in which one thread acts alone, with
  the steps that what happened prescribes: the cached client, or a login and how it ended; then the call, and the
  drop of the client exactly if the server refused it. The lock and the cached client end as in that run, and the
  thread is idle again, or, when the request does not return, it waits in its login for the lock it holds.
\<close>

theorem kv_request_refines_pool:
  assumes "\<not> bs_locked s" and "agrees s p" and "pl_pc p i = Idle" and "get w cfg s = (r1, s1)"
    and "kv_request w cfg kv s = (r, s')"
  shows "\<exists>q. runs pool_moves p (map (Pair i) (kv_steps w kv s r1 s1)) q \<and>
    (bs_locked s' \<longleftrightarrow> pl_lock q \<noteq> None) \<and> (bs_client s' = None \<longleftrightarrow> pl_client q = None) \<and>
    (if r = Inl Deadlock then pl_pc q i = RefusedInLogin \<and> pl_lock q = Some i else pl_pc q i = Idle)"
  using kv_request_runs_alone [OF assms] unfolding run_alone_def agrees_def finished_def self_blocked_def
  by (elim exE conjE) (intro exI conjI)

theorem kv_request_refines_pool_witness:
  "\<exists>q. runs pool_moves new_pool [(7, Start), (7, TakeLock), (7, BeginLogin), (7, LoginRefused)] q \<and>
     pl_pc q 7 = RefusedInLogin \<and>
     fst (kv_request refusing_world sample_config (KvReadSecretMetadata ''netbox/x'' ''secret'') init_state) = Inl Deadlock"
proof -
  let ?kv = "KvReadSecretMetadata ''netbox/x'' ''secret''"
  let ?r = "kv_request refusing_world sample_config ?kv init_state"
  have start: "\<not> bs_locked init_state" "bs_client init_state = None" by (simp_all add: init_state_def)
  then have get: "fst (get refusing_world sample_config init_state) = Inl Deadlock"
    by (simp add: get_deadlock refusing_login)
  then obtain s1 where got: "get refusing_world sample_config init_state = (Inl Deadlock, s1)"
    by (cases "get refusing_world sample_config init_state") simp
  then have hangs: "fst ?r = Inl Deadlock" by (simp add: kv_request_def bind_op_run)
  have "agrees init_state new_pool" "pl_pc new_pool 7 = Idle"
    by (simp_all add: agrees_def init_state_def new_pool_def)
  from kv_request_refines_pool [OF start(1) this got prod.collapse [symmetric], where kv = ?kv] hangs
  show ?thesis unfolding hangs by (simp add: kv_steps_def get_steps_def login_end_def start) blast
qed

text \<open>
  The second thread was refused with the client of the first login; what its refusal discards is the
  client of the second login, which no server has refused.
\<close>

theorem late_refusal_drops_new_client:
  "\<exists>p q. runs pool_moves new_pool (butlast late_refusal) p \<and> pl_client p = Some 2 \<and>
    pool_moves p (1, DropClient) q \<and> pl_client q = None"
proof -
  obtain p where p: "after_steps (butlast late_refusal) new_pool = Some p" "pl_client p = Some 2" "pl_pc p 1 = Invalidating"
    by (simp add: late_refusal_def new_pool_def goto_def)
  with after_steps_runs [OF p(1)] show ?thesis by (auto simp: pool_moves_def)
qed

end
