(* ===== verification/Spec2Isabelle.thy ===== *)
theory Spec2Isabelle
  imports Access_Properties Administration_Properties Client_Properties Delivery_Properties System_Properties Thread_Properties
begin

text \<open>
  \<^bold>\<open>The broker.\<close> \<open>netbox-openbao-broker\<close> stands between NetBox instances and one OpenBao server. It
  identifies a caller by the certificate of its TLS connection, authorizes what the request asks for against the
  prefixes and the families that the configuration grants the instance, forwards it with the broker's own
  credentials, and writes one audit record. This development models the Python sources under
  \<^verbatim>\<open>broker/\<close> and \<^verbatim>\<open>scripts/\<close> as HOL functions and proves what makes each part correct, and the
  promises of the whole. The theorems of this theory are those of the whole service: a request goes through
  \<open>endpoint\<close> (dependency \<open>caller\<close>, then the handler), a snapshot through its own two routes; those of
  \<open>System_Properties\<close> are of every sequence of such steps.

  \<^bold>\<open>How the code is modelled.\<close> A Python function that may raise is a function into \<open>exn + 'a\<close>, with
  every exception class the code tells apart as a constructor of \<open>exn\<close>. A function with effects is a state
  transformer \<open>'a bop\<close> on \<open>broker_state\<close>: the cached client and its lock, the log of the calls that left
  the process, the open streaming responses and the audit log. An exception keeps the effects before it, as in
  Python. OpenBao, \<open>hvac\<close>, \<open>requests\<close> and the file system are a parameter, \<open>world\<close>: each answers a
  call with a value or an exception, as a function of the whole history. The theorems hold for every \<open>world\<close>.
  Acquiring a lock that the same thread holds never returns; that outcome is the value \<open>Deadlock\<close>.
  JSON values and dictionaries are \<open>json\<close> and association lists in insertion order.

  \<^bold>\<open>The theories.\<close>
  \<^item> \<open>Broker_Prelude\<close> (exceptions, results, operations with their combinators, the locale \<open>state_preorder\<close> of
    relations that operations preserve), \<open>Py_Str\<close>, \<open>Py_Regex\<close> (matching by derivatives, proved equal to the
    language of the pattern), \<open>Py_Json\<close>, \<open>Py_Url\<close>, \<open>Sha256\<close>: what the sources use of Python.
  \<^item> \<open>Broker_Config\<close> (\<^verbatim>\<open>broker/config.py\<close>): \<open>normalize_path\<close>, policies, \<open>load_config\<close>, credential
    variables. \<open>Broker_Identity\<close> (\<^verbatim>\<open>broker/identity.py\<close>, \<^verbatim>\<open>broker/tls_scope.py\<close>): the common name of a
    certificate and the protocol class that publishes it. \<open>Broker_Audit\<close>, \<open>Broker_Logging\<close>
    (\<^verbatim>\<open>broker/audit.py\<close>): the record and its line, and the loggers that carry it.
  \<^item> \<open>Admin_Registry\<close>, \<open>Admin_Arguments\<close>, \<open>Admin_Paths\<close> (\<^verbatim>\<open>broker/administration.py\<close>): the registry and
    its digest, the validation of arguments, the tables of reviewed paths and mounted operations;
    \<open>Admin_Facts\<close> has their lemmas.
  \<^item> \<open>Vault_State\<close>, \<open>Vault_Client\<close>, \<open>Vault_Http\<close>, \<open>Openapi\<close>, \<open>Vault_Admin\<close> (\<^verbatim>\<open>broker/vault.py\<close>): the
    state and the calls, the client with its login and the KV operations, the HTTP exchange and the snapshot
    transport, the check of a value against an advertised schema, the dispatch of an administration operation.
    \<open>Vault_Outcome\<close> states what an exchange promises on the answer of the network; \<open>Openapi_Spec\<close> gives the
    declarative reading of a schema that the check refines.
  \<^item> \<open>Broker_App\<close>, \<open>App_Snapshot\<close> (\<^verbatim>\<open>broker/app.py\<close>): the handlers, and the two snapshot routes, the download
    as a step relation over what the server does to the stream. \<open>App_Secrets\<close>, \<open>App_Requests\<close> and
    \<open>App_Administration\<close> have the contract of \<open>run\<close> (locale \<open>vault_action\<close>, interpreted for the action of
    every handler), of a secret route (locale \<open>secret_route\<close>), and the lemmas on whole requests.
  \<^item> \<open>Step_Systems\<close>: runs of a labelled step relation, and the locales \<open>invariant_system\<close> and
    \<open>forward_simulation\<close>. \<open>Vault_Threads\<close>: the threads that share one \<open>VaultClient\<close> as a pool of program
    points around \<open>_lock\<close>, and the client's requests as runs of one thread. \<open>Broker_System\<close>, \<open>Service_Runs\<close>:
    the running service, with the downloads that are open and driven between the requests, the abstract monitor
    \<open>allows\<close> of who may make which calls, and the simulation of the one by the other; \<open>Service_Trail\<close>: the
    line of every record the service makes.
  \<^item> \<open>Broker_Startup\<close> (\<^verbatim>\<open>broker/__main__.py\<close>), \<open>Broker_Telemetry\<close> (\<^verbatim>\<open>broker/telemetry.py\<close> and the prologue of
    \<open>create_app\<close>), \<open>Release\<close> (\<^verbatim>\<open>scripts/\<close>).
  \<^item> \<open>Broker_Examples\<close> has the concrete configuration, worlds and requests; \<open>Access_Properties\<close>,
    \<open>Administration_Properties\<close>, \<open>Client_Properties\<close>, \<open>Delivery_Properties\<close> and \<open>Thread_Properties\<close> the theorems on
    the components, \<open>System_Properties\<close> those on the running service.

  \<^bold>\<open>What is shown.\<close> Of the whole: what leaves the process for a request is confined to the path, the mount and
  the rights of the instance its certificate names, and for administration to the operations, methods and
  reviewed paths of the families granted; a request that is not authorized changes nothing but the audit log; each
  request that returns has one record, with the right outcome; errors carry fixed texts; the lock and the open
  responses are given back; a snapshot download is recorded once however the server drives it, and an upload is
  forwarded as a whole or not at all. Of every run: the service does what the monitor allows, each call ever sent
  is within the authority of a configured instance, and the open responses are those of the downloads that have
  no record yet. Of the threads: one logs in at a time and the others share its client, the lock comes free before
  its holder's second step, and after a refused login none proceeds. Of the components: the path check is the
  segment-wise reading; a loaded configuration is well-formed; the audit line cannot be forged, and standard output
  is one line for each record ever made; a mutation is reported as unknown exactly when
  its effect cannot be known; the schema check is sound and ends; arguments are bounded. Where the code does not
  do what it means to, the theorem states what it does: a refused login leaves the lock taken for ever, two
  operations of the registry have no argument table, an empty list of versions deletes the whole secret.

  \<^bold>\<open>Bounds.\<close> No definition has fuel. The loops recurse on the chunks, segments or values they consume, and the
  schema check on the depth that the code bounds by eight. The sizes (512 MiB for a snapshot, two million bytes
  for a response, a million bytes, 2000 items and eight levels of arguments) are the constants of the code.
  Characters are the code points up to 255.

  \<^bold>\<open>Not modelled.\<close> FastAPI, Starlette, pydantic and uvicorn (a request arrives parsed, and the constraints of its
  fields are predicates \<open>valid_\<dots>\<close>); the parsing of the scripts' command lines;
  \<open>shutdown\<close> and \<open>force_flush\<close> of the telemetry processors, which do nothing; the interleaving of threads
  outside the client (the service takes requests one at a time); the spooled temporary file of an upload, which is the string of its content.
\<close>

section \<open>Secrets\<close>

text \<open>
  C1 (safety). Confinement, end to end. On a configuration that loads, whatever OpenBao and the network answer,
  every call that leaves the process for a secret request, the broker's own login apart, is a call on the
  requested path of the configured mount. The certificate names an instance of the configuration, one of whose
  prefixes is, segment by segment, the beginning of the path, which is canonical; and the call writes or deletes
  only where the instance may.
\<close>

theorem secret_calls_confined:
  assumes config: "load_config env fs path0 = Inr cfg" and tls: "tls_scope cert scope"
    and rq: "secret_request request = Some (path, operation, writes, deletes)"
    and run: "endpoint w cfg rid scope request s = (r, s')"
    and c: "c \<in> set (drop (length (bs_calls s)) (bs_calls s'))" and other: "\<not> is_login c"
  shows "\<exists>name p. has_common_name cert (JStr name) \<and> config_instance cfg name = Some p \<and> ip_name p = name \<and>
    canonical_path path \<and>
    (\<exists>pre \<in> set (path_prefixes p). prefix (split_on CHR ''/'' pre) (split_on CHR ''/'' path)) \<and>
    (writes \<longrightarrow> may_write p) \<and> (deletes \<longrightarrow> may_delete p) \<and> kv_on cfg path writes deletes c"
proof -
  from endpoint_confined [OF tls rq run c other] obtain p where known: "known_caller cfg scope p"
    and allowed: "permitted p path writes deletes" and kv: "kv_on cfg path writes deletes c" by blast
  from known obtain name where name: "identity_from_scope scope = Inr (JStr name)"
    and p: "config_instance cfg name = Some p" by (auto simp: known_caller_def)
  from tls name have "has_common_name cert (JStr name)"
    by (cases rule: tls_identity_cases) auto
  moreover from p load_config_wf [OF config] have "ip_name p = name" "wf_policy p"
    by (auto simp: wf_config_def config_instance_def dest!: map_of_SomeD)
  moreover from this(2) have "permits_path p path \<longleftrightarrow>
      (\<exists>pre \<in> set (path_prefixes p). prefix (split_on CHR ''/'' pre) (split_on CHR ''/'' path))"
    by (intro permits_path_segments) (simp add: wf_policy_def)
  ultimately show ?thesis using p allowed kv by (auto simp: permitted_def)
qed

theorem secret_calls_confined_witness:
  "\<exists>name p. has_common_name (sample_cert ''netbox-a'') (JStr name) \<and>
     config_instance sample_config name = Some p \<and>
     (\<exists>pre \<in> set (path_prefixes p). prefix (split_on CHR ''/'' pre) (split_on CHR ''/'' ''netbox/x''))"
proof -
  obtain x s' where run: "endpoint sample_world sample_config ''r1'' (sample_scope (sample_cert ''netbox-a''))
      (sample_read ''netbox/x'') init_state = (Inr x, s')"
    and "KvCall sample_client (KvReadSecretVersion ''netbox/x'' None ''secret'') \<in> set (bs_calls s')"
    by (rule sample_read_run)
  then have c: "KvCall sample_client (KvReadSecretVersion ''netbox/x'' None ''secret'') \<in>
      set (drop (length (bs_calls init_state)) (bs_calls s'))" by (simp add: init_state_def)
  have rq: "secret_request (sample_read ''netbox/x'') = Some (''netbox/x'', ''read'', False, False)"
    by (simp add: sample_read_def)
  from secret_calls_confined [OF sample_config_loaded sample_tls_scope rq run c]
  show ?thesis by auto
qed

text \<open>
  C2 (safety). A secret request whose certificate names no configured instance, or whose path is outside the
  instance's prefixes, not canonical, or not to be written or deleted by it, is answered with an error of the 4xx
  classes and leaves one record of the denial; nothing else changes, and OpenBao is not contacted.
\<close>

theorem unauthorized_request_changes_nothing:
  assumes "tls_scope cert scope"
    and rq: "secret_request request = Some (path, operation, writes, deletes)"
    and unauthorized: "\<nexists>p. known_caller cfg scope p \<and> permitted p path writes deletes"
    and run: "endpoint w cfg rid scope request s = (r, s')"
  shows "\<exists>status detail e. r = Inl (HTTPException status detail []) \<and> status \<in> {400, 401, 403, 409, 413, 415, 422} \<and>
    s' = log_record e s \<and> ae_outcome e = ''denied'' \<and> ae_request_id e = rid"
proof (cases "\<exists>p. known_caller cfg scope p")
  case False
  from endpoint_unknown [OF assms(1) False run] show ?thesis by (auto simp: refused_def identify_refusal_def)
next
  case True
  then obtain p where p: "known_caller cfg scope p" by blast
  with run have "route w cfg request \<lparr>ca_instance = p, ca_request_id = rid\<rparr> s = (r, s')" by (simp add: endpoint_known)
  from secret_route_outcome [OF rq this] p unauthorized show ?thesis
    by (auto simp: secret_outcome_def refused_def denied_entry_def)
qed

theorem unauthorized_request_changes_nothing_witness:
  "\<exists>e. snd (endpoint sample_world sample_config ''r1'' (sample_scope (sample_cert ''netbox-a''))
      (sample_read ''lab/b'') init_state) = log_record e init_state \<and> ae_outcome e = ''denied''"
proof -
  have rq: "secret_request (sample_read ''lab/b'') = Some (''lab/b'', ''read'', False, False)"
    by (simp add: sample_read_def)
  have no: "\<nexists>p. known_caller sample_config (sample_scope (sample_cert ''netbox-a'')) p \<and>
      permitted p ''lab/b'' False False"
    using sample_known_caller sample_not_permitted by (auto simp: permitted_def dest: known_caller_unique)
  from unauthorized_request_changes_nothing [OF sample_tls_scope rq no prod.collapse [symmetric]]
  show ?thesis by blast
qed

section \<open>The audit promise\<close>



text \<open>
  C8 (safety). Once OpenBao has been contacted, the only texts an error response carries are the broker's own:
  a fixed text of one of its error classes, or \<open>Internal error.\<close>. Nothing the library or the server says is
  passed on.
\<close>

theorem errors_carry_fixed_texts:
  assumes "tls_scope cert scope" and run: "endpoint w cfg rid scope request s = (Inl e, s')"
    and "e \<noteq> Deadlock" and "bs_calls s' \<noteq> bs_calls s"
  shows "\<exists>status detail headers. e = HTTPException status detail headers \<and>
    (detail = ''Internal error.'' \<or> (\<exists>k. detail = default_message k) \<or> detail \<in> set VAULT_TEXTS)"
proof (cases "\<exists>p. known_caller cfg scope p")
  case False
  from endpoint_unknown [OF assms(1) False run] assms(4) show ?thesis by (auto simp: refused_def)
next
  case True
  then obtain p where "known_caller cfg scope p" by blast
  with run have "route w cfg request \<lparr>ca_instance = p, ca_request_id = rid\<rparr> s = (Inl e, s')"
    by (simp add: endpoint_known)
  from route_fixed_error [OF this] assms(3,4) show ?thesis
    by (auto simp: fixed_error_def fixed_detail_def fixed_text_def)
qed

theorem errors_carry_fixed_texts_witness:
  "\<exists>status detail headers. fst (endpoint leaking_world sample_config ''r1'' (sample_scope (sample_cert ''netbox-a''))
      (sample_read ''netbox/x'') init_state) = Inl (HTTPException status detail headers) \<and>
    (detail = ''Internal error.'' \<or> (\<exists>k. detail = default_message k) \<or> detail \<in> set VAULT_TEXTS)"
proof -
  obtain e s' where run: "endpoint leaking_world sample_config ''r1'' (sample_scope (sample_cert ''netbox-a''))
      (sample_read ''netbox/x'') init_state = (Inl e, s')" and "e \<noteq> Deadlock" "bs_calls s' \<noteq> bs_calls init_state"
    by (rule leaking_read_run)
  from errors_carry_fixed_texts [OF sample_tls_scope this] show ?thesis by (simp add: run)
qed

section \<open>Resources\<close>

text \<open>
  C9 (invariant). A request that returns gives back what it took: the client's lock is free, and the streaming
  responses that are open are those that were open before it.
\<close>

theorem request_gives_back_resources:
  assumes "tls_scope cert scope" and run: "endpoint w cfg rid scope request s = (r, s')"
    and "r \<noteq> Inl Deadlock" and "\<not> bs_locked s" and "open_wf s"
  shows "\<not> bs_locked s' \<and> bs_open s' = bs_open s \<and> open_wf s'"
proof (cases "\<exists>p. known_caller cfg scope p")
  case False
  from endpoint_unknown [OF assms(1) False run] assms(4,5) show ?thesis
    by (auto simp: refused_def open_wf_def)
next
  case True
  then obtain p where "known_caller cfg scope p" by blast
  with run have route: "route w cfg request \<lparr>ca_instance = p, ca_request_id = rid\<rparr> s = (r, s')"
    by (simp add: endpoint_known)
  from op_relD [OF request_route_unleaked route] lock_freeD [OF request_route_lock assms(4) route assms(3)] assms(5)
  show ?thesis by (simp add: open_same_def)
qed

theorem request_gives_back_resources_witness:
  "\<not> bs_locked (snd (endpoint sample_world sample_config ''r1'' (sample_scope (sample_cert ''netbox-a''))
      (sample_read ''netbox/x'') init_state))"
proof -
  obtain x s' where run: "endpoint sample_world sample_config ''r1'' (sample_scope (sample_cert ''netbox-a''))
      (sample_read ''netbox/x'') init_state = (Inr x, s')" by (rule sample_read_run)
  from request_gives_back_resources [OF sample_tls_scope run] show ?thesis
    unfolding run by (simp add: init_state_def open_wf_def)
qed

text \<open>
  C10 (liveness). When OpenBao refuses the broker's login, no secret request that its policy permits ever
  returns: not the one that finds the refusal, and, since the lock stays taken, none after it.
\<close>

theorem refused_login_stops_service:
  assumes known: "known_caller cfg scope p"
    and rq: "secret_request request = Some (path, operation, writes, deletes)"
    and allowed: "permitted p path writes deletes"
    and refusal: "bs_locked s \<or> (bs_client s = None \<and> login_refused w cfg s)"
  shows "\<exists>s'. endpoint w cfg rid scope request s = (Inl Deadlock, s') \<and> bs_locked s'"
  using secret_route_stuck [of request path operation writes deletes "\<lparr>ca_instance = p, ca_request_id = rid\<rparr>" w cfg s]
    rq allowed refusal
  by (simp add: endpoint_known [OF known] stuck_def)

theorem refused_login_stops_service_witness:
  "\<exists>s'. endpoint refusing_world sample_config ''r1'' (sample_scope (sample_cert ''netbox-a''))
     (sample_read ''netbox/x'') init_state = (Inl Deadlock, s') \<and> bs_locked s'"
  by (rule refused_login_stops_service [OF sample_known_caller, of "sample_read ''netbox/x''" "''netbox/x''"
        "''read''" False False])
    (simp_all add: sample_read_def sample_permitted refusing_login init_state_def)

section \<open>Administration\<close>



section \<open>Identity\<close>

text \<open>
  A request is given to the instance that the certificate of its connection names, with its
  own request id and without any other effect; when there is none, it is refused with one record of the denial.
\<close>

theorem caller_is_certificate_holder:
  assumes tls: "tls_scope cert scope" and run: "caller_of cfg rid scope s = (r, s')"
  shows "(\<exists>name p. has_common_name cert (JStr name) \<and> config_instance cfg name = Some p \<and>
      r = Inr \<lparr>ca_instance = p, ca_request_id = rid\<rparr> \<and> s' = s) \<or> refused (identify_refusal rid) s r s'"
proof (cases "\<exists>p. known_caller cfg scope p")
  case False
  with caller_unknown [OF tls _ run] show ?thesis by blast
next
  case True
  then obtain p name where p: "known_caller cfg scope p" and name: "identity_from_scope scope = Inr (JStr name)"
    "config_instance cfg name = Some p" by (auto simp: known_caller_def)
  from tls name(1) have "has_common_name cert (JStr name)" by (cases rule: tls_identity_cases) auto
  with p name run show ?thesis by (auto simp: caller_known)
qed

theorem caller_is_certificate_holder_witness:
  "\<exists>name. has_common_name (sample_cert ''netbox-a'') (JStr name) \<and> config_instance sample_config name = Some sample_policy"
  using caller_is_certificate_holder [OF sample_tls_scope caller_known [OF sample_known_caller]]
  by (auto simp: refused_def)

section \<open>Snapshots\<close>

text \<open>
  C15 (safety). However the server drives the stream of a snapshot download, by pulling, closing it early or
  running the finalizer in any order: in the end there is exactly one more audit record, the response is closed,
  no further request was made, and the record says \<open>ok\<close> only if the whole body was sent, within the size limit
  and as long as announced.
\<close>

theorem download_recorded_once:
  "\<exists>e. bs_audit (ss_broker (finalized_stream who d evs s)) = bs_audit s @ [e] \<and>
     terminal_record who d (ss_sent (finalized_stream who d evs s)) e \<and>
     bs_open (ss_broker (finalized_stream who d evs s)) = filter (\<lambda>j. j \<noteq> sd_id d) (bs_open s) \<and>
     bs_calls (ss_broker (finalized_stream who d evs s)) = bs_calls s"
  using finalized_stream_inv [where who = who and d = d and s = s and evs = evs] by (auto simp: stream_inv_def)

text \<open>
  C16 (safety). An upload reaches OpenBao only as a whole, under the current contract and for an instance of the
  cluster family: what is sent is the concatenation of the chunks received, of exactly the declared length, to
  the snapshot path the request chose.
\<close>

theorem restore_forwards_exact_upload:
  assumes run: "restore_snapshot_route w cfg rq who s = (r, s')"
    and c: "c \<in> set (drop (length (bs_calls s)) (bs_calls s'))" and other: "\<not> is_login c"
  shows "sr_digest rq = CONTRACT_DIGEST \<and> permits_administration (ca_instance who) ''cluster'' \<and>
    sr_failure rq = None \<and> sr_content_length rq = int (length (concat (sr_chunks rq))) \<and>
    sr_content_length rq \<le> int MAX_SNAPSHOT_BYTES \<and>
    (\<exists>h. c = HttpCall (restore_http cfg (sr_force rq) h (concat (sr_chunks rq)) (sr_content_length rq)))"
  using run
proof (cases rule: restore_route_cases)
  case (accepted r1)
  with op_relD [OF vrestore.run_reaches accepted(2)] c other have
    "\<exists>h. c = HttpCall (restore_http cfg (sr_force rq) h (concat (sr_chunks rq)) (sr_content_length rq))"
    by (auto simp: calls_within_def)
  with accepted(1) upload_accepted_exact [OF accepted(1)] show ?thesis by (simp add: upload_accepted_def)
next
  case refusal
  with c show ?thesis by (simp add: refused_calls)
qed (use c in simp)

theorem restore_forwards_exact_upload_witness:
  "\<exists>h. HttpCall (restore_http sample_config False h ''abcde'' 5) \<in>
     set (bs_calls (snd (restore_snapshot_route sample_world sample_config sample_restore sample_caller init_state)))"
proof -
  let ?e = "restore_snapshot_route sample_world sample_config sample_restore sample_caller init_state"
  from sample_restore_calls obtain c0 c where calls: "bs_calls (snd ?e) = [c0, c]" and c: "\<not> is_login c"
    by (auto simp: map_eq_Cons_conv)
  then have new: "c \<in> set (drop (length (bs_calls init_state)) (bs_calls (snd ?e)))" by (simp add: init_state_def)
  from restore_forwards_exact_upload [OF prod.collapse [symmetric] new c] calls show ?thesis
    by (auto simp: sample_restore_def)
qed

text \<open>
  An upload that returns is recorded once, under its request id, and as \<open>ok\<close> exactly when the
  caller is told that the snapshot was restored; an upload the client breaks off is recorded too.
\<close>

theorem restore_recorded_once:
  assumes run: "restore_snapshot_route w cfg rq who s = (r, s')" and returns: "r \<noteq> Inl Deadlock"
  shows "\<exists>e. bs_audit s' = bs_audit s @ [e] \<and> ae_operation e = RESTORE_OPERATION \<and>
    ae_request_id e = ca_request_id who \<and> ((\<exists>x. r = Inr x) \<longleftrightarrow> ae_outcome e = ''ok'')"
  using run
proof (cases rule: restore_route_cases)
  case (accepted r1)
  with returns have "r1 \<noteq> Inl Deadlock" by auto
  with vrestore.run_outcome [OF accepted(2)] obtain e where
    e: "bs_audit s' = bs_audit s @ [e]" "answered who RESTORE_OPERATION [] r1 e" by blast
  then have "(\<exists>x. r1 = Inr x) \<longleftrightarrow> ae_outcome e = ''ok''" using answered_outcome by blast
  with e accepted(3) show ?thesis by (cases r1) (auto simp: answered_def)
next
  case refusal
  then show ?thesis by (auto simp: refused_def denied_entry_def)
qed simp

theorem restore_recorded_once_witness:
  "\<exists>e. bs_audit (snd (restore_snapshot_route sample_world sample_config (sample_restore\<lparr>sr_digest := ''stale''\<rparr>)
     sample_caller init_state)) = [e] \<and> ae_outcome e \<noteq> ''ok''"
proof -
  let ?rq = "sample_restore\<lparr>sr_digest := ''stale''\<rparr>"
  let ?e = "restore_snapshot_route sample_world sample_config ?rq sample_caller init_state"
  have "''stale'' \<noteq> CONTRACT_DIGEST"
  proof
    assume "''stale'' = CONTRACT_DIGEST"
    from arg_cong [OF this, of length] show False by (simp add: CONTRACT_DIGEST_def sha256_hex_length)
  qed
  then have refusal: "fst ?e = Inl (HTTPException 409 ''The administration contract is stale.'' [])"
    by (simp add: restore_snapshot_route_def bind_op_run authorize_snapshot_def deny_run)
  then show ?thesis
    using restore_recorded_once [OF prod.collapse [symmetric], of sample_world sample_config ?rq sample_caller init_state]
    by (auto simp: init_state_def)
qed

end
